theory Spec2Isabelle
  imports Main "HOL-Library.AList"
begin

section \<open>Data exchanged with the Admin GraphQL API\<close>

text \<open>
  The user-errors of a mutation payload: \<^verbatim>\<open>{ message: string; code?: string | null }\<close>.
\<close>

record userError =
  message :: string
  code :: "string option"

text \<open>
  A GraphQL connection page: \<^verbatim>\<open>{ nodes, pageInfo: { hasNextPage, endCursor } }\<close>.
\<close>

record 'a page =
  nodes :: "'a list"
  hasNextPage :: bool
  endCursor :: "string option"

datatype inventoryPolicy = CONTINUE | DENY

record location =
  location_id :: string
  location_name :: string

record inventoryItem =
  inventoryItem_id :: string
  tracked :: bool

text \<open>The variant nodes selected by the query InventoryResetVariants.\<close>

record resetVariant =
  variant_id :: string
  inventoryPolicy :: inventoryPolicy
  product_id :: string
  inventoryItem :: "inventoryItem option"

text \<open>The variant nodes selected by the query InventoryPolicyScanVariants.\<close>

record scanVariant =
  scan_variant_id :: string
  scan_variant_title :: string
  scan_sku :: "string option"
  scan_inventoryPolicy :: inventoryPolicy
  scan_product_id :: string
  scan_product_title :: string
  scan_product_handle :: string

text \<open>The product nodes selected by the query ProductsByVendor.\<close>

record product =
  prod_id :: string
  prod_status :: string

record quantity =
  quantity_name :: string
  quantity_value :: int

record inventoryLevel =
  level_location_id :: string
  quantities :: "quantity list"

text \<open>
  An entry of \<^verbatim>\<open>nodes(ids: $ids)\<close>: \<^verbatim>\<open>null\<close>, an InventoryItem with its id and
  inventory levels, or an object of which only \<^verbatim>\<open>__typename\<close> is known.
\<close>

datatype node =
    NullNode
  | InventoryItemNode string "inventoryLevel list"
  | OtherNode string

record InventoryChangeInputLike =
  inventoryItemId :: string
  locationId :: string
  delta :: int

record inventoryAdjustQuantitiesPayload =
  inventoryAdjustmentGroup :: "string option"
  adjust_userErrors :: "userError list option"

record productVariantsBulkUpdatePayload =
  updated_productVariants :: "(string \<times> string) list option"
  bulkUpdate_userErrors :: "userError list option"

record productUpdatePayload =
  updated_product :: "(string \<times> string) option"
  productUpdate_userErrors :: "userError list option"

text \<open>
  The GraphQL operations the routes send, named as in the source, with their variables.
  The deny-policy mutation carries the product id and the variants
  \<^verbatim>\<open>{ id, inventoryPolicy: "DENY" }\<close>.
\<close>

datatype request =
    InventoryResetLocations "string option"
  | InventoryResetVariants "string option"
  | InventoryResetInventoryLevels "string list"
  | InventoryResetAdjustQuantities string string "InventoryChangeInputLike list"
  | InventoryResetDenyPolicy string "(string \<times> inventoryPolicy) list"
  | ProductsByVendor "string option" string
  | ArchiveProduct string
  | InventoryPolicyScanVariants "string option"

text \<open>The \<^verbatim>\<open>data\<close> object of a response, by the top-level field it carries.\<close>

datatype gqlData =
    LocationsData "location page"
  | ProductVariantsData "resetVariant page"
  | NodesData "node list"
  | InventoryAdjustQuantitiesData inventoryAdjustQuantitiesPayload
  | ProductVariantsBulkUpdateData productVariantsBulkUpdatePayload
  | ProductsData "product page"
  | ProductUpdateData productUpdatePayload
  | ScanVariantsData "scanVariant page"

text \<open>The parsed response body \<^verbatim>\<open>{ data?: T; errors?: unknown }\<close>.\<close>

record body =
  data :: "gqlData option"
  errors :: "string option"

text \<open>
  What the code can throw: the \<^verbatim>\<open>Error\<close> of graphqlJson, the \<^verbatim>\<open>TypeError\<close> of a
  property read on \<^verbatim>\<open>undefined\<close> or \<^verbatim>\<open>null\<close>, the \<^verbatim>\<open>SyntaxError\<close> of
  \<^verbatim>\<open>JSON.parse\<close>, and the rejection of a database call.
\<close>

datatype error =
    GraphQLRequestFailed body
  | TypeError
  | SyntaxError
  | DatabaseError

text \<open>
  \<^verbatim>\<open>admin.graphql\<close> followed by \<^verbatim>\<open>response.json()\<close>: the remote API is a state
  machine that answers a request with a body and moves to its next state. graphqlJson
  throws when the body has no \<^verbatim>\<open>data\<close>; a call that fails before a body arrives is
  not modelled.
\<close>

type_synonym 's admin = "request \<Rightarrow> 's \<Rightarrow> body \<times> 's"

definition graphqlJson :: "'s admin \<Rightarrow> request \<Rightarrow> 's \<Rightarrow> (error + gqlData) \<times> 's" where
  "graphqlJson admin req s =
     (case admin req s of
        (b, s') \<Rightarrow>
          (case data b of
             None \<Rightarrow> (Inl (GraphQLRequestFailed b), s')
           | Some d \<Rightarrow> (Inr d, s')))"

text \<open>
  The reads \<^verbatim>\<open>data.locations\<close>, \<^verbatim>\<open>data.productVariants\<close>, ... of the typed result:
  \<open>None\<close> is \<^verbatim>\<open>undefined\<close>, and the source's next property read on it throws.
\<close>

definition data_locations :: "gqlData \<Rightarrow> location page option" where
  "data_locations d = (case d of LocationsData p \<Rightarrow> Some p | _ \<Rightarrow> None)"

definition data_productVariants :: "gqlData \<Rightarrow> resetVariant page option" where
  "data_productVariants d = (case d of ProductVariantsData p \<Rightarrow> Some p | _ \<Rightarrow> None)"

definition data_nodes :: "gqlData \<Rightarrow> node list option" where
  "data_nodes d = (case d of NodesData ns \<Rightarrow> Some ns | _ \<Rightarrow> None)"

definition data_inventoryAdjustQuantities :: "gqlData \<Rightarrow> inventoryAdjustQuantitiesPayload option" where
  "data_inventoryAdjustQuantities d =
     (case d of InventoryAdjustQuantitiesData p \<Rightarrow> Some p | _ \<Rightarrow> None)"

definition data_productVariantsBulkUpdate :: "gqlData \<Rightarrow> productVariantsBulkUpdatePayload option" where
  "data_productVariantsBulkUpdate d =
     (case d of ProductVariantsBulkUpdateData p \<Rightarrow> Some p | _ \<Rightarrow> None)"

definition data_products :: "gqlData \<Rightarrow> product page option" where
  "data_products d = (case d of ProductsData p \<Rightarrow> Some p | _ \<Rightarrow> None)"

definition data_productUpdate :: "gqlData \<Rightarrow> productUpdatePayload option" where
  "data_productUpdate d = (case d of ProductUpdateData p \<Rightarrow> Some p | _ \<Rightarrow> None)"

definition data_scanVariants :: "gqlData \<Rightarrow> scanVariant page option" where
  "data_scanVariants d = (case d of ScanVariantsData p \<Rightarrow> Some p | _ \<Rightarrow> None)"

text \<open>\<^verbatim>\<open>x || null\<close> and \<^verbatim>\<open>x || undefined\<close> on an optional string: the empty string is falsy.\<close>

definition orNull :: "string option \<Rightarrow> string option" where
  "orNull x = (case x of None \<Rightarrow> None | Some v \<Rightarrow> if v = [] then None else Some v)"

text \<open>\<^verbatim>\<open>userErrors || []\<close>.\<close>

definition orEmpty :: "'a list option \<Rightarrow> 'a list" where
  "orEmpty xs = (case xs of None \<Rightarrow> [] | Some ys \<Rightarrow> ys)"

text \<open>
  Two test doubles for the remote API. \<open>scripted\<close> answers the calls with the bodies of
  a list, one per call whatever the request, and with a body without \<open>data\<close> once the
  list is used up. \<open>logged\<close> wraps a remote API and records every exchange, in order.
\<close>

definition scripted :: "(body list) admin" where
  "scripted req bs =
     (case bs of
        [] \<Rightarrow> (\<lparr>data = None, errors = Some ''no response''\<rparr>, [])
      | b # rest \<Rightarrow> (b, rest))"

definition logged :: "'s admin \<Rightarrow> ((request \<times> body) list \<times> 's) admin" where
  "logged admin req ls =
     (case ls of
        (log, s) \<Rightarrow> (case admin req s of (b, s') \<Rightarrow> (b, (log @ [(req, b)], s'))))"

section \<open>Inventory reset (app.inventory-reset.tsx)\<close>

subsection \<open>chunkArray\<close>

text \<open>
  \<^verbatim>\<open>arr.slice(start, end)\<close> for non-negative integer indices: the elements at
  positions \<open>start \<le> k < end\<close>, clamped to the length of the array, and empty when
  \<open>end \<le> start\<close>.
\<close>

definition slice :: "'a list \<Rightarrow> nat \<Rightarrow> nat \<Rightarrow> 'a list" where
  "slice arr start end = take (end - start) (drop start arr)"

text \<open>
  The \<^verbatim>\<open>for (let i = 0; i < arr.length; i += chunkSize)\<close> loop of chunkArray with its
  accumulator \<open>out\<close>. The chunk size is an integer, as at every call site (50 and 250).
  The source reaches the loop only after \<^verbatim>\<open>chunkSize <= 0\<close> has returned, so
  \<open>0 < chunkSize\<close> holds throughout; the loop condition repeats it here, which makes
  the recursion total.
\<close>

function chunkArray_loop :: "'a list \<Rightarrow> int \<Rightarrow> nat \<Rightarrow> 'a list list \<Rightarrow> 'a list list" where
  "chunkArray_loop arr chunkSize i out =
     (if 0 < chunkSize \<and> i < length arr
      then chunkArray_loop arr chunkSize (i + nat chunkSize)
             (out @ [slice arr i (i + nat chunkSize)])
      else out)"
  by pat_completeness auto
termination
  by (relation "measure (\<lambda>(arr, chunkSize, i, out). length arr - i)") auto

declare chunkArray_loop.simps [simp del]

definition chunkArray :: "'a list \<Rightarrow> int \<Rightarrow> 'a list list" where
  "chunkArray arr chunkSize =
     (if chunkSize \<le> 0 then [arr] else chunkArray_loop arr chunkSize 0 [])"

subsection \<open>getAllLocationIds\<close>

text \<open>
  The \<^verbatim>\<open>while (true)\<close> loop with its variables \<open>locationIds\<close> and \<open>after\<close>. The loop
  has no bound: it runs for as long as the remote API reports \<open>hasNextPage\<close>, and a run
  that never ends is the value \<open>None\<close>.
\<close>

partial_function (option) getAllLocationIds_loop ::
  "'s admin \<Rightarrow> string list \<Rightarrow> string option \<Rightarrow> 's \<Rightarrow> ((error + string list) \<times> 's) option" where
  "getAllLocationIds_loop admin locationIds after s =
     (case graphqlJson admin (InventoryResetLocations after) s of
        (Inl e, s') \<Rightarrow> Some (Inl e, s')
      | (Inr d, s') \<Rightarrow>
          (case data_locations d of
             None \<Rightarrow> Some (Inl TypeError, s')
           | Some locs \<Rightarrow>
               (let locationIds' = locationIds @ map location_id (nodes locs) in
                if \<not> hasNextPage locs then Some (Inr locationIds', s')
                else getAllLocationIds_loop admin locationIds' (orNull (endCursor locs)) s')))"

declare getAllLocationIds_loop.simps [code]

definition getAllLocationIds :: "'s admin \<Rightarrow> 's \<Rightarrow> ((error + string list) \<times> 's) option" where
  "getAllLocationIds admin s = getAllLocationIds_loop admin [] None s"

subsection \<open>The result of a run\<close>

record sampleError =
  scope :: string
  sample_message :: string
  sample_code :: "string option"

record InventoryResetResult =
  ok :: bool
  locations :: nat
  variantsScanned :: nat
  inventoryAdjustCalls :: nat
  inventoryAdjustUserErrors :: nat
  inventoryAdjustIgnoredNotStockedErrors :: nat
  policyUpdateCalls :: nat
  policyUpdatedVariants :: nat
  policyUpdateUserErrors :: nat
  sampleErrors :: "sampleError list"

subsection \<open>inventoryAdjustQuantitiesWithReasonFallback\<close>

definition hasInvalidReason :: "inventoryAdjustQuantitiesPayload \<Rightarrow> bool" where
  "hasInvalidReason invResp =
     list_ex (\<lambda>e. code e = Some ''INVALID_REASON'') (orEmpty (adjust_userErrors invResp))"

definition reasonFallbacks :: "string list" where
  "reasonFallbacks = [''correction'', ''cycle_count'', ''other'']"

text \<open>
  The \<^verbatim>\<open>for (const reason of reasonFallbacks)\<close> loop with its variable \<open>lastResponse\<close>
  (\<open>None\<close> is \<^verbatim>\<open>null\<close>); the empty list is the code after the loop.
\<close>

fun reasonFallback_loop ::
  "'s admin \<Rightarrow> string \<Rightarrow> InventoryChangeInputLike list \<Rightarrow> string list \<Rightarrow>
   inventoryAdjustQuantitiesPayload option \<Rightarrow> 's \<Rightarrow>
   (error + inventoryAdjustQuantitiesPayload option) \<times> 's" where
  "reasonFallback_loop admin name changes [] lastResponse s = (Inr lastResponse, s)"
| "reasonFallback_loop admin name changes (reason # rest) lastResponse s =
     (case graphqlJson admin (InventoryResetAdjustQuantities name reason changes) s of
        (Inl e, s') \<Rightarrow> (Inl e, s')
      | (Inr d, s') \<Rightarrow>
          (case data_inventoryAdjustQuantities d of
             None \<Rightarrow> (Inl TypeError, s')
           | Some invResp \<Rightarrow>
               if \<not> hasInvalidReason invResp then (Inr (Some invResp), s')
               else reasonFallback_loop admin name changes rest (Some invResp) s'))"

definition inventoryAdjustQuantitiesWithReasonFallback ::
  "'s admin \<Rightarrow> string \<Rightarrow> InventoryChangeInputLike list \<Rightarrow> 's \<Rightarrow>
   (error + inventoryAdjustQuantitiesPayload option) \<times> 's" where
  "inventoryAdjustQuantitiesWithReasonFallback admin name changes s =
     reasonFallback_loop admin name changes reasonFallbacks None s"

subsection \<open>getInventoryZeroingChanges\<close>

text \<open>The body of the loop over the inventory levels of one item.\<close>

definition zeroLevel ::
  "string set \<Rightarrow> string \<Rightarrow> inventoryLevel \<Rightarrow> InventoryChangeInputLike list \<Rightarrow>
   InventoryChangeInputLike list" where
  "zeroLevel allowedLocationIds node_id level changes =
     (if level_location_id level \<notin> allowedLocationIds then changes
      else
        (case find (\<lambda>q. quantity_name q = ''available'') (quantities level) of
           None \<Rightarrow> changes
         | Some available \<Rightarrow>
             if quantity_value available = 0 then changes
             else changes @
               [\<lparr>inventoryItemId = node_id,
                 locationId = level_location_id level,
                 delta = - quantity_value available\<rparr>]))"

text \<open>
  The body of the loop over \<open>data.nodes\<close>. An object whose \<^verbatim>\<open>__typename\<close> is
  InventoryItem but which has no \<^verbatim>\<open>inventoryLevels\<close> makes the source throw.
\<close>

definition zeroNode ::
  "string set \<Rightarrow> node \<Rightarrow> InventoryChangeInputLike list \<Rightarrow>
   error + InventoryChangeInputLike list" where
  "zeroNode allowedLocationIds n changes =
     (case n of
        NullNode \<Rightarrow> Inr changes
      | OtherNode typename \<Rightarrow>
          if typename \<noteq> ''InventoryItem'' then Inr changes else Inl TypeError
      | InventoryItemNode node_id levels \<Rightarrow>
          Inr (fold (zeroLevel allowedLocationIds node_id) levels changes))"

fun zeroNodes ::
  "string set \<Rightarrow> node list \<Rightarrow> InventoryChangeInputLike list \<Rightarrow>
   error + InventoryChangeInputLike list" where
  "zeroNodes allowedLocationIds [] changes = Inr changes"
| "zeroNodes allowedLocationIds (n # ns) changes =
     (case zeroNode allowedLocationIds n changes of
        Inl e \<Rightarrow> Inl e
      | Inr changes' \<Rightarrow> zeroNodes allowedLocationIds ns changes')"

text \<open>The loop over the chunks of 50 inventory item ids, one query per chunk.\<close>

fun zeroingChunks ::
  "'s admin \<Rightarrow> string set \<Rightarrow> string list list \<Rightarrow> InventoryChangeInputLike list \<Rightarrow> 's \<Rightarrow>
   (error + InventoryChangeInputLike list) \<times> 's" where
  "zeroingChunks admin allowedLocationIds [] changes s = (Inr changes, s)"
| "zeroingChunks admin allowedLocationIds (chunk # rest) changes s =
     (case graphqlJson admin (InventoryResetInventoryLevels chunk) s of
        (Inl e, s') \<Rightarrow> (Inl e, s')
      | (Inr d, s') \<Rightarrow>
          (case data_nodes d of
             None \<Rightarrow> (Inl TypeError, s')
           | Some ns \<Rightarrow>
               (case zeroNodes allowedLocationIds ns changes of
                  Inl e \<Rightarrow> (Inl e, s')
                | Inr changes' \<Rightarrow> zeroingChunks admin allowedLocationIds rest changes' s')))"

definition getInventoryZeroingChanges ::
  "'s admin \<Rightarrow> string list \<Rightarrow> string set \<Rightarrow> 's \<Rightarrow>
   (error + InventoryChangeInputLike list) \<times> 's" where
  "getInventoryZeroingChanges admin inventoryItemIds allowedLocationIds s =
     zeroingChunks admin allowedLocationIds (chunkArray inventoryItemIds 50) [] s"

subsection \<open>runInventoryReset\<close>

text \<open>\<^verbatim>\<open>code: e.code || undefined\<close> and the push guarded by the cap of 25 samples.\<close>

definition pushSample :: "string \<Rightarrow> userError \<Rightarrow> sampleError list \<Rightarrow> sampleError list" where
  "pushSample scope_label e samples =
     (if length samples < 25
      then samples @
        [\<lparr>scope = scope_label, sample_message = message e, sample_code = orNull (code e)\<rparr>]
      else samples)"

text \<open>The body of \<^verbatim>\<open>for (const e of errors)\<close> after an inventoryAdjustQuantities call.\<close>

definition absorbInventoryAdjustError :: "userError \<Rightarrow> InventoryResetResult \<Rightarrow> InventoryResetResult" where
  "absorbInventoryAdjustError e result =
     (if code e = Some ''ITEM_NOT_STOCKED_AT_LOCATION''
      then result\<lparr>inventoryAdjustIgnoredNotStockedErrors :=
                    inventoryAdjustIgnoredNotStockedErrors result + 1\<rparr>
      else result
        \<lparr>ok := False,
         inventoryAdjustUserErrors := inventoryAdjustUserErrors result + 1,
         sampleErrors := pushSample ''inventoryAdjustQuantities'' e (sampleErrors result)\<rparr>)"

text \<open>The body of \<^verbatim>\<open>for (const e of errors)\<close> after a productVariantsBulkUpdate call.\<close>

definition absorbPolicyUpdateError :: "userError \<Rightarrow> InventoryResetResult \<Rightarrow> InventoryResetResult" where
  "absorbPolicyUpdateError e result =
     result
       \<lparr>ok := False,
        policyUpdateUserErrors := policyUpdateUserErrors result + 1,
        sampleErrors := pushSample ''productVariantsBulkUpdate'' e (sampleErrors result)\<rparr>"

text \<open>
  The loop \<^verbatim>\<open>for (const chunk of chunkArray(changes, 250))\<close>: one call through the
  reason fallback per chunk, then the aggregation of its user-errors.
\<close>

fun adjustChunks ::
  "'s admin \<Rightarrow> InventoryChangeInputLike list list \<Rightarrow> InventoryResetResult \<Rightarrow> 's \<Rightarrow>
   (error + InventoryResetResult) \<times> 's" where
  "adjustChunks admin [] result s = (Inr result, s)"
| "adjustChunks admin (chunk # rest) result s =
     (case inventoryAdjustQuantitiesWithReasonFallback admin ''available'' chunk s of
        (Inl e, s') \<Rightarrow> (Inl e, s')
      | (Inr None, s') \<Rightarrow> (Inl TypeError, s')
      | (Inr (Some invResp), s') \<Rightarrow>
          adjustChunks admin rest
            (fold absorbInventoryAdjustError (orEmpty (adjust_userErrors invResp))
               (result\<lparr>inventoryAdjustCalls := inventoryAdjustCalls result + 1\<rparr>))
            s')"

text \<open>
  The inner loop \<^verbatim>\<open>for (const chunk of chunkArray(variantsForProduct, 250))\<close> of the
  policy update of one product.
\<close>

fun denyChunks ::
  "'s admin \<Rightarrow> string \<Rightarrow> string list list \<Rightarrow> InventoryResetResult \<Rightarrow> 's \<Rightarrow>
   (error + InventoryResetResult) \<times> 's" where
  "denyChunks admin productId [] result s = (Inr result, s)"
| "denyChunks admin productId (chunk # rest) result s =
     (case graphqlJson admin
             (InventoryResetDenyPolicy productId (map (\<lambda>v. (v, DENY)) chunk)) s of
        (Inl e, s') \<Rightarrow> (Inl e, s')
      | (Inr d, s') \<Rightarrow>
          (case data_productVariantsBulkUpdate d of
             None \<Rightarrow> (Inl TypeError, s')
           | Some res \<Rightarrow>
               denyChunks admin productId rest
                 (fold absorbPolicyUpdateError (orEmpty (bulkUpdate_userErrors res))
                    (result
                       \<lparr>policyUpdateCalls := policyUpdateCalls result + 1,
                        policyUpdatedVariants := policyUpdatedVariants result + length chunk\<rparr>))
                 s'))"

text \<open>The outer loop over the entries of \<open>policyByProduct\<close>, in insertion order.\<close>

fun denyProducts ::
  "'s admin \<Rightarrow> (string \<times> string list) list \<Rightarrow> InventoryResetResult \<Rightarrow> 's \<Rightarrow>
   (error + InventoryResetResult) \<times> 's" where
  "denyProducts admin [] result s = (Inr result, s)"
| "denyProducts admin ((productId, variantsForProduct) # rest) result s =
     (case denyChunks admin productId (chunkArray variantsForProduct 250) result s of
        (Inl e, s') \<Rightarrow> (Inl e, s')
      | (Inr result', s') \<Rightarrow> denyProducts admin rest result' s')"

text \<open>
  The body of \<^verbatim>\<open>for (const v of variants)\<close>: \<open>policyByProduct\<close> is a \<^verbatim>\<open>Map\<close>, kept
  here as a list of entries in insertion order (\<^verbatim>\<open>set\<close> on a present key keeps its
  position), and \<open>inventoryItemIds\<close> is an array.
\<close>

definition collectVariant ::
  "resetVariant \<Rightarrow> (string \<times> string list) list \<times> string list \<Rightarrow>
   (string \<times> string list) list \<times> string list" where
  "collectVariant v acc =
     (case acc of
        (policyByProduct, inventoryItemIds) \<Rightarrow>
          (if inventoryPolicy v \<noteq> DENY
           then AList.update (product_id v)
                  (orEmpty (map_of policyByProduct (product_id v)) @ [variant_id v])
                  policyByProduct
           else policyByProduct,
           case inventoryItem v of
             None \<Rightarrow> inventoryItemIds
           | Some item \<Rightarrow>
               if inventoryItem_id item \<noteq> [] \<and> tracked item
               then inventoryItemIds @ [inventoryItem_id item]
               else inventoryItemIds))"

text \<open>
  \<^verbatim>\<open>Array.from(new Set(xs))\<close>: the distinct elements in the order of their first
  occurrence.
\<close>

definition setAdd :: "'a \<Rightarrow> 'a list \<Rightarrow> 'a list" where
  "setAdd x xs = (if x \<in> set xs then xs else xs @ [x])"

definition arrayFromSet :: "'a list \<Rightarrow> 'a list" where
  "arrayFromSet xs = fold setAdd xs []"

text \<open>One turn of the \<^verbatim>\<open>while (true)\<close> loop, from the fetched variants to the policy updates.\<close>

definition resetPage ::
  "'s admin \<Rightarrow> string list \<Rightarrow> resetVariant list \<Rightarrow> InventoryResetResult \<Rightarrow> 's \<Rightarrow>
   (error + InventoryResetResult) \<times> 's" where
  "resetPage admin locationIds variants result s =
     (let result1 = result\<lparr>variantsScanned := variantsScanned result + length variants\<rparr>;
          collected = fold collectVariant variants ([], []);
          policyByProduct = fst collected;
          uniqueInventoryItemIds = arrayFromSet (snd collected)
      in case getInventoryZeroingChanges admin uniqueInventoryItemIds (set locationIds) s of
           (Inl e, s1) \<Rightarrow> (Inl e, s1)
         | (Inr changes, s1) \<Rightarrow>
             (case adjustChunks admin (chunkArray changes 250) result1 s1 of
                (Inl e, s2) \<Rightarrow> (Inl e, s2)
              | (Inr result2, s2) \<Rightarrow> denyProducts admin policyByProduct result2 s2))"

partial_function (option) runInventoryReset_loop ::
  "'s admin \<Rightarrow> string list \<Rightarrow> InventoryResetResult \<Rightarrow> string option \<Rightarrow> 's \<Rightarrow>
   ((error + InventoryResetResult) \<times> 's) option" where
  "runInventoryReset_loop admin locationIds result after s =
     (case graphqlJson admin (InventoryResetVariants after) s of
        (Inl e, s') \<Rightarrow> Some (Inl e, s')
      | (Inr d, s') \<Rightarrow>
          (case data_productVariants d of
             None \<Rightarrow> Some (Inl TypeError, s')
           | Some pv \<Rightarrow>
               (case resetPage admin locationIds (nodes pv) result s' of
                  (Inl e, s'') \<Rightarrow> Some (Inl e, s'')
                | (Inr result', s'') \<Rightarrow>
                    if \<not> hasNextPage pv then Some (Inr result', s'')
                    else runInventoryReset_loop admin locationIds result'
                           (orNull (endCursor pv)) s'')))"

declare runInventoryReset_loop.simps [code]

definition runInventoryReset ::
  "'s admin \<Rightarrow> string list \<Rightarrow> 's \<Rightarrow> ((error + InventoryResetResult) \<times> 's) option" where
  "runInventoryReset admin locationIds s =
     runInventoryReset_loop admin locationIds
       \<lparr>ok = True,
        locations = length locationIds,
        variantsScanned = 0,
        inventoryAdjustCalls = 0,
        inventoryAdjustUserErrors = 0,
        inventoryAdjustIgnoredNotStockedErrors = 0,
        policyUpdateCalls = 0,
        policyUpdatedVariants = 0,
        policyUpdateUserErrors = 0,
        sampleErrors = []\<rparr>
       None s"

section \<open>Archive by vendor and inventory policy scan (app._index.tsx)\<close>

subsection \<open>archiveProductsByVendor\<close>

record ArchivePeruzzoResult =
  archive_ok :: bool
  scanned :: nat
  archived :: nat
  alreadyArchived :: nat
  userErrors :: nat
  archive_sampleErrors :: "sampleError list"

text \<open>
  The body of \<^verbatim>\<open>for (const p of data.products.nodes)\<close>: both \<^verbatim>\<open>continue\<close>
  statements and the fall-through end the turn with the updated result.
\<close>

definition archiveProduct ::
  "'s admin \<Rightarrow> product \<Rightarrow> ArchivePeruzzoResult \<Rightarrow> 's \<Rightarrow>
   (error + ArchivePeruzzoResult) \<times> 's" where
  "archiveProduct admin p result s =
     (let result1 = result\<lparr>scanned := scanned result + 1\<rparr> in
      if prod_status p = ''ARCHIVED''
      then (Inr (result1\<lparr>alreadyArchived := alreadyArchived result1 + 1\<rparr>), s)
      else
        (case graphqlJson admin (ArchiveProduct (prod_id p)) s of
           (Inl e, s') \<Rightarrow> (Inl e, s')
         | (Inr d, s') \<Rightarrow>
             (case data_productUpdate d of
                None \<Rightarrow> (Inl TypeError, s')
              | Some res \<Rightarrow>
                  (let errs = orEmpty (productUpdate_userErrors res) in
                   if length errs > 0
                   then (Inr (result1
                           \<lparr>archive_ok := False,
                            userErrors := userErrors result1 + length errs,
                            archive_sampleErrors :=
                              fold (pushSample ''productUpdate'') errs
                                (archive_sampleErrors result1)\<rparr>), s')
                   else (Inr (result1\<lparr>archived := archived result1 + 1\<rparr>), s')))))"

fun archiveProducts ::
  "'s admin \<Rightarrow> product list \<Rightarrow> ArchivePeruzzoResult \<Rightarrow> 's \<Rightarrow>
   (error + ArchivePeruzzoResult) \<times> 's" where
  "archiveProducts admin [] result s = (Inr result, s)"
| "archiveProducts admin (p # ps) result s =
     (case archiveProduct admin p result s of
        (Inl e, s') \<Rightarrow> (Inl e, s')
      | (Inr result', s') \<Rightarrow> archiveProducts admin ps result' s')"

partial_function (option) archiveProductsByVendor_loop ::
  "'s admin \<Rightarrow> string \<Rightarrow> ArchivePeruzzoResult \<Rightarrow> string option \<Rightarrow> 's \<Rightarrow>
   ((error + ArchivePeruzzoResult) \<times> 's) option" where
  "archiveProductsByVendor_loop admin queryString result after s =
     (case graphqlJson admin (ProductsByVendor after queryString) s of
        (Inl e, s') \<Rightarrow> Some (Inl e, s')
      | (Inr d, s') \<Rightarrow>
          (case data_products d of
             None \<Rightarrow> Some (Inl TypeError, s')
           | Some prods \<Rightarrow>
               (case archiveProducts admin (nodes prods) result s' of
                  (Inl e, s'') \<Rightarrow> Some (Inl e, s'')
                | (Inr result', s'') \<Rightarrow>
                    if \<not> hasNextPage prods then Some (Inr result', s'')
                    else archiveProductsByVendor_loop admin queryString result'
                           (orNull (endCursor prods)) s'')))"

declare archiveProductsByVendor_loop.simps [code]

definition archiveProductsByVendor ::
  "'s admin \<Rightarrow> string \<Rightarrow> 's \<Rightarrow> ((error + ArchivePeruzzoResult) \<times> 's) option" where
  "archiveProductsByVendor admin vendor s =
     archiveProductsByVendor_loop admin (''vendor:'' @ vendor)
       \<lparr>archive_ok = True, scanned = 0, archived = 0, alreadyArchived = 0, userErrors = 0,
        archive_sampleErrors = []\<rparr>
       None s"

subsection \<open>scanInventoryPolicies\<close>

record sampleOffender =
  productTitle :: string
  productHandle :: string
  variantTitle :: string
  sku :: "string option"

record InventoryPolicyScanResult =
  scan_ok :: bool
  productsScanned :: nat
  scan_variantsScanned :: nat
  productsWithContinue :: nat
  variantsWithContinue :: nat
  sampleOffenders :: "sampleOffender list"

text \<open>
  The state of the scan loop: the result and the two \<^verbatim>\<open>Set\<close>s of product ids, each
  kept as the list of its distinct elements (\<open>setAdd\<close> is \<^verbatim>\<open>Set.add\<close>).
\<close>

record scanState =
  scan_result :: InventoryPolicyScanResult
  productIds :: "string list"
  productIdsWithContinue :: "string list"

text \<open>The body of \<^verbatim>\<open>for (const v of variants)\<close>.\<close>

definition scanVariantStep :: "scanVariant \<Rightarrow> scanState \<Rightarrow> scanState" where
  "scanVariantStep v st =
     (let st1 = st\<lparr>productIds := setAdd (scan_product_id v) (productIds st)\<rparr>;
          result = scan_result st1
      in if scan_inventoryPolicy v = CONTINUE
         then st1
           \<lparr>scan_result := result
              \<lparr>scan_ok := False,
               variantsWithContinue := variantsWithContinue result + 1,
               sampleOffenders :=
                 (if length (sampleOffenders result) < 25
                  then sampleOffenders result @
                    [\<lparr>productTitle = scan_product_title v,
                      productHandle = scan_product_handle v,
                      variantTitle = scan_variant_title v,
                      sku = scan_sku v\<rparr>]
                  else sampleOffenders result)\<rparr>,
            productIdsWithContinue := setAdd (scan_product_id v) (productIdsWithContinue st1)\<rparr>
         else st1)"

definition scanPage :: "scanVariant list \<Rightarrow> scanState \<Rightarrow> scanState" where
  "scanPage variants st =
     fold scanVariantStep variants
       (st\<lparr>scan_result := (scan_result st)
             \<lparr>scan_variantsScanned := scan_variantsScanned (scan_result st) + length variants\<rparr>\<rparr>)"

text \<open>The two assignments after the loop.\<close>

definition scanFinish :: "scanState \<Rightarrow> InventoryPolicyScanResult" where
  "scanFinish st =
     (scan_result st)
       \<lparr>productsScanned := length (productIds st),
        productsWithContinue := length (productIdsWithContinue st)\<rparr>"

partial_function (option) scanInventoryPolicies_loop ::
  "'s admin \<Rightarrow> scanState \<Rightarrow> string option \<Rightarrow> 's \<Rightarrow>
   ((error + InventoryPolicyScanResult) \<times> 's) option" where
  "scanInventoryPolicies_loop admin st after s =
     (case graphqlJson admin (InventoryPolicyScanVariants after) s of
        (Inl e, s') \<Rightarrow> Some (Inl e, s')
      | (Inr d, s') \<Rightarrow>
          (case data_scanVariants d of
             None \<Rightarrow> Some (Inl TypeError, s')
           | Some pv \<Rightarrow>
               (let st' = scanPage (nodes pv) st in
                if \<not> hasNextPage pv then Some (Inr (scanFinish st'), s')
                else scanInventoryPolicies_loop admin st' (orNull (endCursor pv)) s')))"

declare scanInventoryPolicies_loop.simps [code]

definition scanInventoryPolicies ::
  "'s admin \<Rightarrow> 's \<Rightarrow> ((error + InventoryPolicyScanResult) \<times> 's) option" where
  "scanInventoryPolicies admin s =
     scanInventoryPolicies_loop admin
       \<lparr>scan_result =
          \<lparr>scan_ok = True, productsScanned = 0, scan_variantsScanned = 0,
           productsWithContinue = 0, variantsWithContinue = 0, sampleOffenders = []\<rparr>,
        productIds = [], productIdsWithContinue = []\<rparr>
       None s"

section \<open>Webhook ingestion (shopify-webhook.server, webhooks.customers.data_request.tsx)\<close>

subsection \<open>The request and what the platform supplies\<close>

text \<open>
  A request is read through \<^verbatim>\<open>request.headers.get\<close> (\<open>None\<close> is \<^verbatim>\<open>null\<close>) and
  \<^verbatim>\<open>request.clone().text()\<close>. Strings are byte strings, so \<open>length\<close> is the length
  of \<^verbatim>\<open>Buffer.from(s, "utf8")\<close>.
\<close>

record webhookRequest =
  headers_get :: "string \<Rightarrow> string option"
  text_body :: string

text \<open>
  What one run of the handler takes from its platform: the environment variable, the
  keyed hash \<^verbatim>\<open>crypto.createHmac("sha256", secret).update(body, "utf8").digest("base64")\<close>
  as a function of the secret and the body, \<^verbatim>\<open>JSON.parse\<close> (\<open>None\<close> is its
  SyntaxError) with the empty object \<^verbatim>\<open>{}\<close>, whether the database accepts the
  insert, and the id and the time that the insert gives the new row.
\<close>

record 'j platform =
  SHOPIFY_API_SECRET :: "string option"
  hmacSha256Base64 :: "string \<Rightarrow> string \<Rightarrow> string"
  JSON_parse :: "string \<Rightarrow> 'j option"
  emptyObject :: 'j
  databaseUp :: bool
  newId :: string
  currentTimestamp :: nat

text \<open>\<^verbatim>\<open>String.prototype.toLowerCase\<close> on the ASCII letters of a header name.\<close>

definition toLowerCase :: "string \<Rightarrow> string" where
  "toLowerCase name =
     map (\<lambda>c. if 65 \<le> (of_char c :: nat) \<and> (of_char c :: nat) \<le> 90
              then char_of ((of_char c :: nat) + 32) else c) name"

text \<open>
  \<^verbatim>\<open>crypto.timingSafeEqual(a, b)\<close> on two buffers of the same length: whether they
  hold the same bytes. (It throws on buffers of different lengths; the source calls it
  only behind the length check.)
\<close>

definition timingSafeEqual :: "string \<Rightarrow> string \<Rightarrow> bool" where
  "timingSafeEqual a b = (a = b)"

subsection \<open>verifyShopifyWebhookRequest\<close>

datatype ShopifyWebhookAuthResult =
    AuthOk string string "string option" "string option"
  | AuthFailed nat string

text \<open>\<^verbatim>\<open>headers.get(name) || headers.get(name.toLowerCase())\<close>.\<close>

definition getHeader :: "(string \<Rightarrow> string option) \<Rightarrow> string \<Rightarrow> string option" where
  "getHeader headers name =
     (case orNull (headers name) of
        Some v \<Rightarrow> Some v
      | None \<Rightarrow> headers (toLowerCase name))"

text \<open>
  A test \<^verbatim>\<open>!x\<close> on an optional string is \<open>orNull x = None\<close>, and \<^verbatim>\<open>x || ""\<close> is
  \<open>orEmpty\<close> of it. \<open>AuthOk topic shop webhookId apiVersion\<close> is the result with
  \<^verbatim>\<open>ok: true\<close>, \<open>AuthFailed status message\<close> the one with \<^verbatim>\<open>ok: false\<close>.
\<close>

definition verifyShopifyWebhookRequest :: "'j platform \<Rightarrow> webhookRequest \<Rightarrow> ShopifyWebhookAuthResult" where
  "verifyShopifyWebhookRequest env request =
     (case orNull (SHOPIFY_API_SECRET env) of
        None \<Rightarrow> AuthFailed 500 ''Missing SHOPIFY_API_SECRET''
      | Some secret \<Rightarrow>
          (let rawBody = text_body request in
           case orNull (getHeader (headers_get request) ''X-Shopify-Hmac-Sha256'') of
             None \<Rightarrow> AuthFailed 401 ''Missing HMAC header''
           | Some hmacHeader \<Rightarrow>
               (let digest = hmacSha256Base64 env secret rawBody;
                    a = digest;
                    b = hmacHeader
                in if length a \<noteq> length b \<or> \<not> timingSafeEqual a b
                   then AuthFailed 401 ''Invalid HMAC''
                   else
                     (let topic = orEmpty (orNull (getHeader (headers_get request) ''X-Shopify-Topic''));
                          shop = orEmpty (orNull (getHeader (headers_get request) ''X-Shopify-Shop-Domain''));
                          webhookId = orNull (getHeader (headers_get request) ''X-Shopify-Webhook-Id'');
                          apiVersion = orNull (getHeader (headers_get request) ''X-Shopify-Api-Version'')
                      in if topic = [] \<or> shop = []
                         then AuthFailed 400 ''Missing topic/shop headers''
                         else AuthOk topic shop webhookId apiVersion))))"

subsection \<open>readShopifyWebhookJson\<close>

definition readShopifyWebhookJson :: "'j platform \<Rightarrow> webhookRequest \<Rightarrow> error + string \<times> 'j" where
  "readShopifyWebhookJson env request =
     (let rawBody = text_body request in
      if rawBody \<noteq> []
      then (case JSON_parse env rawBody of
              None \<Rightarrow> Inl SyntaxError
            | Some json \<Rightarrow> Inr (rawBody, json))
      else Inr (rawBody, emptyObject env))"

subsection \<open>The WebhookEvent table and the handler\<close>

datatype WebhookEventStatus = PENDING | PROCESSING | SUCCEEDED | FAILED

record 'j WebhookEvent =
  event_id :: string
  topic :: string
  shop :: string
  webhookId :: "string option"
  apiVersion :: "string option"
  payload :: 'j
  status :: WebhookEventStatus
  attempts :: int
  lastError :: "string option"
  createdAt :: nat
  processedAt :: "nat option"

text \<open>
  \<^verbatim>\<open>db.webhookEvent.create({ data: { topic, shop, webhookId, apiVersion, payload } })\<close>
  on the table of the migration: one new row, the columns that \<open>data\<close> leaves out
  taking their defaults (\<^verbatim>\<open>status\<close> PENDING, \<^verbatim>\<open>attempts\<close> 0, \<^verbatim>\<open>createdAt\<close> the
  current time, the nullable columns NULL). The insert is one SQL statement: when the
  database rejects it, the call throws and the table stays as it was.
\<close>

definition webhookEvent_create ::
  "'j platform \<Rightarrow> string \<Rightarrow> string \<Rightarrow> string option \<Rightarrow> string option \<Rightarrow> 'j \<Rightarrow>
   'j WebhookEvent list \<Rightarrow> error + 'j WebhookEvent list" where
  "webhookEvent_create env data_topic data_shop data_webhookId data_apiVersion data_payload db =
     (if \<not> databaseUp env then Inl DatabaseError
      else Inr (db @
        [\<lparr>event_id = newId env,
          topic = data_topic,
          shop = data_shop,
          webhookId = data_webhookId,
          apiVersion = data_apiVersion,
          payload = data_payload,
          status = PENDING,
          attempts = 0,
          lastError = None,
          createdAt = currentTimestamp env,
          processedAt = None\<rparr>]))"

text \<open>
  How a run of the handler ends: with \<^verbatim>\<open>new Response(body, { status })\<close> or with a
  thrown exception. The handler of the route customers/data_request; its
  \<^verbatim>\<open>console.info\<close> line writes to the server log only and is left out.
\<close>

datatype outcome = Response string nat | Thrown error

definition action ::
  "'j platform \<Rightarrow> webhookRequest \<Rightarrow> 'j WebhookEvent list \<Rightarrow> outcome \<times> 'j WebhookEvent list" where
  "action env request db =
     (case verifyShopifyWebhookRequest env request of
        AuthFailed auth_status auth_message \<Rightarrow> (Response auth_message auth_status, db)
      | AuthOk auth_topic auth_shop auth_webhookId auth_apiVersion \<Rightarrow>
          (case readShopifyWebhookJson env request of
             Inl e \<Rightarrow> (Thrown e, db)
           | Inr (rawBody, json) \<Rightarrow>
               (case webhookEvent_create env auth_topic auth_shop auth_webhookId
                       auth_apiVersion json db of
                  Inl e \<Rightarrow> (Thrown e, db)
                | Inr db' \<Rightarrow> (Response ''OK'' 200, db'))))"

section \<open>Test data\<close>

text \<open>Bodies and user-errors with which the functions are run on \<open>scripted\<close>.\<close>

definition userError_of :: "string \<Rightarrow> userError" where
  "userError_of c = \<lparr>message = ''error '' @ c, code = Some c\<rparr>"

definition body_of :: "gqlData \<Rightarrow> body" where
  "body_of d = \<lparr>data = Some d, errors = None\<rparr>"

definition adjustResponse :: "string \<Rightarrow> userError list \<Rightarrow> inventoryAdjustQuantitiesPayload" where
  "adjustResponse groupId errs =
     \<lparr>inventoryAdjustmentGroup = Some groupId, adjust_userErrors = Some errs\<rparr>"

definition adjustBody :: "string \<Rightarrow> userError list \<Rightarrow> body" where
  "adjustBody groupId errs = body_of (InventoryAdjustQuantitiesData (adjustResponse groupId errs))"

definition locationsBody :: "string list \<Rightarrow> bool \<Rightarrow> string option \<Rightarrow> body" where
  "locationsBody ids hasMore cursor =
     body_of (LocationsData
       \<lparr>nodes = map (\<lambda>i. \<lparr>location_id = i, location_name = ''name of '' @ i\<rparr>) ids,
        hasNextPage = hasMore, endCursor = cursor\<rparr>)"

definition change7 :: InventoryChangeInputLike where
  "change7 = \<lparr>inventoryItemId = ''item1'', locationId = ''loc1'', delta = - 7\<rparr>"

text \<open>
  A platform for running the webhook handler: payloads are kept as text, \<open>JSON_parse\<close>
  accepts the texts that start with a brace, and the keyed hash is a stand-in that
  pairs the secret with the body.
\<close>

definition testPlatform :: "string platform" where
  "testPlatform =
     \<lparr>SHOPIFY_API_SECRET = Some ''shh'',
      hmacSha256Base64 = (\<lambda>secret rawBody. ''mac:'' @ secret @ '':'' @ rawBody),
      JSON_parse = (\<lambda>t. case t of [] \<Rightarrow> None | c # _ \<Rightarrow> if c = CHR ''{'' then Some t else None),
      emptyObject = ''{}'',
      databaseUp = True,
      newId = ''evt_1'',
      currentTimestamp = 1000\<rparr>"

definition testRequest :: "string \<Rightarrow> string \<Rightarrow> webhookRequest" where
  "testRequest hmacHeader rawBody =
     \<lparr>headers_get = map_of
        [(''x-shopify-hmac-sha256'', hmacHeader),
         (''x-shopify-topic'', ''customers/data_request''),
         (''x-shopify-shop-domain'', ''demo.myshopify.com''),
         (''x-shopify-webhook-id'', ''wh_1'')],
      text_body = rawBody\<rparr>"

definition levelWith :: "string \<Rightarrow> int \<Rightarrow> inventoryLevel" where
  "levelWith loc q =
     \<lparr>level_location_id = loc, quantities = [\<lparr>quantity_name = ''available'', quantity_value = q\<rparr>]\<rparr>"

definition nodesBody :: "node list \<Rightarrow> body" where
  "nodesBody ns = body_of (NodesData ns)"

definition variantOf :: "string \<Rightarrow> inventoryPolicy \<Rightarrow> string \<Rightarrow> inventoryItem option \<Rightarrow> resetVariant" where
  "variantOf v policy p item =
     \<lparr>variant_id = v, inventoryPolicy = policy, product_id = p, inventoryItem = item\<rparr>"

definition variantsBody :: "resetVariant list \<Rightarrow> bool \<Rightarrow> string option \<Rightarrow> body" where
  "variantsBody vs hasMore cursor =
     body_of (ProductVariantsData \<lparr>nodes = vs, hasNextPage = hasMore, endCursor = cursor\<rparr>)"

definition bulkUpdateResponse :: "(string \<times> string) list \<Rightarrow> userError list \<Rightarrow> productVariantsBulkUpdatePayload" where
  "bulkUpdateResponse updated errs =
     \<lparr>updated_productVariants = Some updated, bulkUpdate_userErrors = Some errs\<rparr>"

definition bulkUpdateBody :: "(string \<times> string) list \<Rightarrow> userError list \<Rightarrow> body" where
  "bulkUpdateBody updated errs = body_of (ProductVariantsBulkUpdateData (bulkUpdateResponse updated errs))"

definition trackedItem :: "string \<Rightarrow> inventoryItem option" where
  "trackedItem i = Some \<lparr>inventoryItem_id = i, tracked = True\<rparr>"

definition productsBody :: "(string \<times> string) list \<Rightarrow> bool \<Rightarrow> string option \<Rightarrow> body" where
  "productsBody ps hasMore cursor =
     body_of (ProductsData
       \<lparr>nodes = map (\<lambda>(i, st). \<lparr>prod_id = i, prod_status = st\<rparr>) ps,
        hasNextPage = hasMore, endCursor = cursor\<rparr>)"

definition productUpdateBody :: "userError list \<Rightarrow> body" where
  "productUpdateBody errs =
     body_of (ProductUpdateData \<lparr>updated_product = None, productUpdate_userErrors = Some errs\<rparr>)"

definition scanVariantOf :: "string \<Rightarrow> inventoryPolicy \<Rightarrow> string \<Rightarrow> scanVariant" where
  "scanVariantOf v policy p =
     \<lparr>scan_variant_id = v, scan_variant_title = ''title of '' @ v, scan_sku = None,
      scan_inventoryPolicy = policy, scan_product_id = p,
      scan_product_title = ''title of '' @ p, scan_product_handle = ''handle-of-'' @ p\<rparr>"

definition scanVariantsBody :: "scanVariant list \<Rightarrow> bool \<Rightarrow> string option \<Rightarrow> body" where
  "scanVariantsBody vs hasMore cursor =
     body_of (ScanVariantsData \<lparr>nodes = vs, hasNextPage = hasMore, endCursor = cursor\<rparr>)"

section \<open>What the log of a run shows\<close>

text \<open>
  The inventory levels that a run has fetched, each with the id of its inventory item,
  in the order of arrival: those of the InventoryItem nodes in the answers recorded in
  the log.
\<close>

definition node_levels :: "node \<Rightarrow> (string \<times> inventoryLevel) list" where
  "node_levels n =
     (case n of InventoryItemNode node_id levels \<Rightarrow> map (Pair node_id) levels | _ \<Rightarrow> [])"

definition fetchedLevels :: "(request \<times> body) list \<Rightarrow> (string \<times> inventoryLevel) list" where
  "fetchedLevels log =
     concat (map (\<lambda>(req, b). case data b of
                                 Some (NodesData ns) \<Rightarrow> concat (map node_levels ns)
                               | _ \<Rightarrow> []) log)"

text \<open>
  The zeroing change of one inventory level as the specification words it: a level
  has one if its location is in the allowed set and it has a non-zero available
  quantity, and the change then carries the negation of that quantity; the available
  quantity of a level is its first entry named available.
\<close>

definition spec_zeroingChange ::
  "string set \<Rightarrow> string \<times> inventoryLevel \<Rightarrow> InventoryChangeInputLike option" where
  "spec_zeroingChange allowedLocationIds il =
     (case il of
        (item, level) \<Rightarrow>
          (case filter (\<lambda>q. quantity_name q = ''available'') (quantities level) of
             [] \<Rightarrow> None
           | available # _ \<Rightarrow>
               if level_location_id level \<in> allowedLocationIds \<and> quantity_value available \<noteq> 0
               then Some \<lparr>inventoryItemId = item, locationId = level_location_id level,
                          delta = - quantity_value available\<rparr>
               else None))"

text \<open>
  Readings of a log: \<open>logMap f\<close> collects what \<open>f\<close> takes from each exchange, in
  order. The readings below pick the exchanges by the operation of their request.
\<close>

definition logMap :: "(request \<Rightarrow> body \<Rightarrow> 'a list) \<Rightarrow> (request \<times> body) list \<Rightarrow> 'a list" where
  "logMap f log = concat (map (\<lambda>(req, b). f req b) log)"

text \<open>The pages of variants that the inventory reset has fetched.\<close>

definition fetchedVariantPages :: "(request \<times> body) list \<Rightarrow> resetVariant list list" where
  "fetchedVariantPages =
     logMap (\<lambda>req b. case req of
        InventoryResetVariants _ \<Rightarrow>
          (case data b of Some (ProductVariantsData pv) \<Rightarrow> [nodes pv] | _ \<Rightarrow> [])
      | _ \<Rightarrow> [])"

text \<open>The deny-policy mutations sent, and the user-errors of their answers.\<close>

definition denyPolicyRequests :: "(request \<times> body) list \<Rightarrow> (string \<times> (string \<times> inventoryPolicy) list) list" where
  "denyPolicyRequests =
     logMap (\<lambda>req b. case req of InventoryResetDenyPolicy p vs \<Rightarrow> [(p, vs)] | _ \<Rightarrow> [])"

definition denyPolicyErrors :: "(request \<times> body) list \<Rightarrow> userError list" where
  "denyPolicyErrors =
     logMap (\<lambda>req b. case req of
        InventoryResetDenyPolicy _ _ \<Rightarrow>
          (case data b of
             Some (ProductVariantsBulkUpdateData res) \<Rightarrow> orEmpty (bulkUpdate_userErrors res)
           | _ \<Rightarrow> [])
      | _ \<Rightarrow> [])"

text \<open>
  The deny-policy mutations that a page of variants calls for: for each entry of the
  grouping by product, one mutation per chunk of 250 of its variants.
\<close>

definition expectedDenyPolicy :: "resetVariant list \<Rightarrow> (string \<times> (string \<times> inventoryPolicy) list) list" where
  "expectedDenyPolicy variants =
     concat (map (\<lambda>(productId, variantsForProduct).
                    map (\<lambda>chunk. (productId, map (\<lambda>v. (v, DENY)) chunk))
                      (chunkArray variantsForProduct 250))
              (fst (fold collectVariant variants ([], []))))"

text \<open>
  The inventory adjustments sent, and among their answers those that the reason
  fallback returns: an answer without INVALID_REASON, or the answer to the last reason.
\<close>

definition adjustRequests :: "(request \<times> body) list \<Rightarrow> (string \<times> InventoryChangeInputLike list) list" where
  "adjustRequests =
     logMap (\<lambda>req b. case req of
        InventoryResetAdjustQuantities _ reason changes \<Rightarrow> [(reason, changes)] | _ \<Rightarrow> [])"

definition returnedAdjustAnswers :: "(request \<times> body) list \<Rightarrow> inventoryAdjustQuantitiesPayload list" where
  "returnedAdjustAnswers =
     logMap (\<lambda>req b. case req of
        InventoryResetAdjustQuantities _ reason _ \<Rightarrow>
          (case data b of
             Some (InventoryAdjustQuantitiesData resp) \<Rightarrow>
               if \<not> hasInvalidReason resp \<or> reason = ''other'' then [resp] else []
           | _ \<Rightarrow> [])
      | _ \<Rightarrow> [])"

definition returnedAdjustErrors :: "(request \<times> body) list \<Rightarrow> userError list" where
  "returnedAdjustErrors log =
     concat (map (\<lambda>resp. orEmpty (adjust_userErrors resp)) (returnedAdjustAnswers log))"

text \<open>The products fetched by the archive run, the archive mutations, their user-errors.\<close>

definition fetchedProducts :: "(request \<times> body) list \<Rightarrow> product list" where
  "fetchedProducts =
     logMap (\<lambda>req b. case req of
        ProductsByVendor _ _ \<Rightarrow>
          (case data b of Some (ProductsData prods) \<Rightarrow> nodes prods | _ \<Rightarrow> [])
      | _ \<Rightarrow> [])"

definition archiveRequests :: "(request \<times> body) list \<Rightarrow> string list" where
  "archiveRequests =
     logMap (\<lambda>req b. case req of ArchiveProduct p \<Rightarrow> [p] | _ \<Rightarrow> [])"

definition archiveAnswers :: "(request \<times> body) list \<Rightarrow> userError list list" where
  "archiveAnswers =
     logMap (\<lambda>req b. case req of
        ArchiveProduct _ \<Rightarrow>
          (case data b of
             Some (ProductUpdateData res) \<Rightarrow> [orEmpty (productUpdate_userErrors res)]
           | _ \<Rightarrow> [])
      | _ \<Rightarrow> [])"

text \<open>The variants fetched by the policy scan.\<close>

definition fetchedScanVariants :: "(request \<times> body) list \<Rightarrow> scanVariant list" where
  "fetchedScanVariants =
     logMap (\<lambda>req b. case req of
        InventoryPolicyScanVariants _ \<Rightarrow>
          (case data b of Some (ScanVariantsData pv) \<Rightarrow> nodes pv | _ \<Rightarrow> [])
      | _ \<Rightarrow> [])"

text \<open>
  The accounts of an inventory reset over a stretch of its log: how the counters and
  the ok flag of the result after the stretch stand to those before it.
\<close>

definition resetAccounts ::
  "InventoryResetResult \<Rightarrow> (request \<times> body) list \<Rightarrow> InventoryResetResult \<Rightarrow> bool" where
  "resetAccounts r new r' \<longleftrightarrow>
     inventoryAdjustCalls r' = inventoryAdjustCalls r + length (returnedAdjustAnswers new)
     \<and> inventoryAdjustUserErrors r' = inventoryAdjustUserErrors r
          + length (filter (\<lambda>e. code e \<noteq> Some ''ITEM_NOT_STOCKED_AT_LOCATION'')
                      (returnedAdjustErrors new))
     \<and> inventoryAdjustIgnoredNotStockedErrors r' = inventoryAdjustIgnoredNotStockedErrors r
          + length (filter (\<lambda>e. code e = Some ''ITEM_NOT_STOCKED_AT_LOCATION'')
                      (returnedAdjustErrors new))
     \<and> policyUpdateCalls r' = policyUpdateCalls r + length (denyPolicyRequests new)
     \<and> policyUpdatedVariants r' = policyUpdatedVariants r
          + length (concat (map snd (denyPolicyRequests new)))
     \<and> policyUpdateUserErrors r' = policyUpdateUserErrors r + length (denyPolicyErrors new)
     \<and> (ok r' \<longleftrightarrow>
          ok r
          \<and> filter (\<lambda>e. code e \<noteq> Some ''ITEM_NOT_STOCKED_AT_LOCATION'')
               (returnedAdjustErrors new) = []
          \<and> denyPolicyErrors new = [])
     \<and> locations r' = locations r"


text \<open>
  The page queries of the three orchestrators, each with the cursor it was sent with
  and the page it was answered with.
\<close>

definition variantQueries :: "(request \<times> body) list \<Rightarrow> (string option \<times> resetVariant page) list" where
  "variantQueries =
     logMap (\<lambda>req b. case req of
        InventoryResetVariants after \<Rightarrow>
          (case data b of Some (ProductVariantsData pv) \<Rightarrow> [(after, pv)] | _ \<Rightarrow> [])
      | _ \<Rightarrow> [])"

definition productQueries :: "(request \<times> body) list \<Rightarrow> (string option \<times> product page) list" where
  "productQueries =
     logMap (\<lambda>req b. case req of
        ProductsByVendor after _ \<Rightarrow>
          (case data b of Some (ProductsData prods) \<Rightarrow> [(after, prods)] | _ \<Rightarrow> [])
      | _ \<Rightarrow> [])"

definition scanQueries :: "(request \<times> body) list \<Rightarrow> (string option \<times> scanVariant page) list" where
  "scanQueries =
     logMap (\<lambda>req b. case req of
        InventoryPolicyScanVariants after \<Rightarrow>
          (case data b of Some (ScanVariantsData pv) \<Rightarrow> [(after, pv)] | _ \<Rightarrow> [])
      | _ \<Rightarrow> [])"

text \<open>
  A pagination that starts at the cursor \<open>after\<close> and runs to the end: the first query
  was sent with \<open>after\<close>; if its page reports \<open>hasNextPage\<close>, the queries after it are
  a pagination from the end cursor of the page, and otherwise no query follows.
\<close>

fun pagination :: "string option \<Rightarrow> (string option \<times> 'a page) list \<Rightarrow> bool" where
  "pagination after [] = False"
| "pagination after ((cursor, p) # rest) =
     (cursor = after
      \<and> (if hasNextPage p then pagination (orNull (endCursor p)) rest else rest = []))"

text \<open>
  The inventory adjustments by their first attempt (the one sent with the first
  fallback reason): the chunks of changes, each as often as it was dispatched.
\<close>

definition firstAdjustAttempts :: "(request \<times> body) list \<Rightarrow> InventoryChangeInputLike list list" where
  "firstAdjustAttempts =
     logMap (\<lambda>req b. case req of
        InventoryResetAdjustQuantities _ reason changes \<Rightarrow>
          if reason = ''correction'' then [changes] else []
      | _ \<Rightarrow> [])"

text \<open>The user-errors of all answers to inventory adjustments, returned or not.\<close>

definition adjustAnswerErrors :: "(request \<times> body) list \<Rightarrow> userError list" where
  "adjustAnswerErrors =
     logMap (\<lambda>req b. case req of
        InventoryResetAdjustQuantities _ _ _ \<Rightarrow>
          (case data b of
             Some (InventoryAdjustQuantitiesData resp) \<Rightarrow> orEmpty (adjust_userErrors resp)
           | _ \<Rightarrow> [])
      | _ \<Rightarrow> [])"

text \<open>The queries for inventory levels, by the chunk of item ids each one carries.\<close>

definition levelRequests :: "(request \<times> body) list \<Rightarrow> string list list" where
  "levelRequests =
     logMap (\<lambda>req b. case req of InventoryResetInventoryLevels ids \<Rightarrow> [ids] | _ \<Rightarrow> [])"

text \<open>
  The turns of an inventory reset: its log cut before every query for a page of
  variants. \<open>splitTurns\<close> gives the exchanges before the first such query and the
  turns after them.
\<close>

definition isVariantsQuery :: "request \<times> body \<Rightarrow> bool" where
  "isVariantsQuery e = (case fst e of InventoryResetVariants _ \<Rightarrow> True | _ \<Rightarrow> False)"

primrec splitTurns ::
  "(request \<times> body) list \<Rightarrow> (request \<times> body) list \<times> (request \<times> body) list list" where
  "splitTurns [] = ([], [])"
| "splitTurns (e # log) =
     (case splitTurns log of
        (before, turns) \<Rightarrow>
          if isVariantsQuery e then ([], (e # before) # turns) else (e # before, turns))"

definition resetTurns :: "(request \<times> body) list \<Rightarrow> (request \<times> body) list list" where
  "resetTurns log = snd (splitTurns log)"

text \<open>
  What one turn of the inventory reset dispatches, given the page of variants and the
  inventory levels fetched in the turn: the level queries for the distinct tracked
  inventory items of the page in chunks of 50, one inventory adjustment for every chunk
  of 250 of the zeroing changes of the fetched levels, and the deny-policy mutations of
  the page.
\<close>

definition expectedLevelRequests :: "resetVariant list \<Rightarrow> string list list" where
  "expectedLevelRequests variants =
     chunkArray (arrayFromSet (snd (fold collectVariant variants ([], [])))) 50"

definition expectedAdjustChunks ::
  "string list \<Rightarrow> (request \<times> body) list \<Rightarrow> InventoryChangeInputLike list list" where
  "expectedAdjustChunks locationIds turn =
     chunkArray (List.map_filter (spec_zeroingChange (set locationIds)) (fetchedLevels turn)) 250"

definition turnDispatch :: "string list \<Rightarrow> (request \<times> body) list \<Rightarrow> bool" where
  "turnDispatch locationIds turn \<longleftrightarrow>
     length (fetchedVariantPages turn) = 1
     \<and> levelRequests turn = concat (map expectedLevelRequests (fetchedVariantPages turn))
     \<and> firstAdjustAttempts turn = expectedAdjustChunks locationIds turn
     \<and> length (returnedAdjustAnswers turn) = length (firstAdjustAttempts turn)
     \<and> denyPolicyRequests turn = concat (map expectedDenyPolicy (fetchedVariantPages turn))"

text \<open>
  The exchanges of an inventory reset by kind: a query answered with a page of
  variants, a query for inventory levels answered with nodes, an inventory adjustment
  and a deny-policy mutation answered with their payloads; anything else is foreign.
\<close>

datatype exchangeKind = VariantsPage | LevelsAnswer | AdjustAnswer | DenyAnswer | Foreign

definition kindOf :: "request \<times> body \<Rightarrow> exchangeKind" where
  "kindOf e =
     (case (fst e, data (snd e)) of
        (InventoryResetVariants _, Some (ProductVariantsData _)) \<Rightarrow> VariantsPage
      | (InventoryResetInventoryLevels _, Some (NodesData _)) \<Rightarrow> LevelsAnswer
      | (InventoryResetAdjustQuantities _ _ _, Some (InventoryAdjustQuantitiesData _)) \<Rightarrow> AdjustAnswer
      | (InventoryResetDenyPolicy _ _, Some (ProductVariantsBulkUpdateData _)) \<Rightarrow> DenyAnswer
      | _ \<Rightarrow> Foreign)"
section \<open>Properties of chunkArray\<close>

lemma concat_chunkArray_loop:
  "0 < chunkSize \<Longrightarrow> concat (chunkArray_loop arr chunkSize i out) = concat out @ drop i arr"
proof (induction arr chunkSize i out rule: chunkArray_loop.induct)
  case (1 arr chunkSize i out)
  show ?case
  proof (cases "i < length arr")
    case True
    have split: "take (nat chunkSize) (drop i arr) @ drop (i + nat chunkSize) arr = drop i arr"
      by (metis append_take_drop_id drop_drop add.commute)
    from True "1.prems" have
      "concat (chunkArray_loop arr chunkSize i out)
         = concat (chunkArray_loop arr chunkSize (i + nat chunkSize)
                    (out @ [slice arr i (i + nat chunkSize)]))"
      by (subst chunkArray_loop.simps) simp
    also have "\<dots> = concat (out @ [slice arr i (i + nat chunkSize)]) @ drop (i + nat chunkSize) arr"
      using "1.IH" True "1.prems" by simp
    also have "\<dots> = concat out @ drop i arr"
      using split by (simp add: slice_def)
    finally show ?thesis .
  next
    case False
    then show ?thesis
      by (subst chunkArray_loop.simps) simp
  qed
qed

lemma length_chunkArray_loop:
  "0 < chunkSize \<Longrightarrow>
   length (chunkArray_loop arr chunkSize i out)
     = length out + (length arr - i + nat chunkSize - 1) div nat chunkSize"
proof (induction arr chunkSize i out rule: chunkArray_loop.induct)
  case (1 arr chunkSize i out)
  define n where "n = nat chunkSize"
  have n: "0 < n" using "1.prems" by (simp add: n_def)
  show ?case
  proof (cases "i < length arr")
    case True
    have "length (chunkArray_loop arr chunkSize i out)
         = length (chunkArray_loop arr chunkSize (i + n) (out @ [slice arr i (i + n)]))"
      using True "1.prems" unfolding n_def by (subst chunkArray_loop.simps) simp
    also have "\<dots> = Suc (length out) + (length arr - (i + n) + n - 1) div n"
      using "1.IH" True "1.prems" unfolding n_def by simp
    also have "\<dots> = length out + (length arr - i + n - 1) div n"
    proof (cases "i + n \<le> length arr")
      case True
      define m where "m = length arr - (i + n) + n - 1"
      from True n have "length arr - i + n - 1 = m + n" by (simp add: m_def)
      moreover have "(m + n) div n = Suc (m div n)" using n by (simp add: div_add_self2)
      ultimately show ?thesis by (simp add: m_def)
    next
      case False
      with True n have a: "length arr - (i + n) + n - 1 < n" and b: "length arr - i + n - 1 < 2 * n"
        and c: "n \<le> length arr - i + n - 1" by simp_all
      from c b n have "(length arr - i + n - 1) div n = 1"
        by (intro div_nat_eqI) simp_all
      with a show ?thesis by simp
    qed
    finally show ?thesis unfolding n_def .
  next
    case False
    then have "length arr - i + n - 1 < n" using n by simp
    then show ?thesis using False unfolding n_def
      by (subst chunkArray_loop.simps) simp
  qed
qed

lemma nth_chunkArray_loop:
  "0 < chunkSize \<Longrightarrow> i = length out * nat chunkSize \<Longrightarrow>
   (\<forall>k < length out. out ! k = slice arr (k * nat chunkSize) (k * nat chunkSize + nat chunkSize)) \<Longrightarrow>
   k < length (chunkArray_loop arr chunkSize i out) \<Longrightarrow>
   chunkArray_loop arr chunkSize i out ! k
     = slice arr (k * nat chunkSize) (k * nat chunkSize + nat chunkSize)"
proof (induction arr chunkSize i out rule: chunkArray_loop.induct)
  case (1 arr chunkSize i out)
  show ?case
  proof (cases "i < length arr")
    case True
    let ?out = "out @ [slice arr i (i + nat chunkSize)]"
    have eq: "chunkArray_loop arr chunkSize i out
         = chunkArray_loop arr chunkSize (i + nat chunkSize) ?out"
      using True "1.prems"(1) by (subst chunkArray_loop.simps) simp
    have inv: "\<forall>k < length ?out. ?out ! k
        = slice arr (k * nat chunkSize) (k * nat chunkSize + nat chunkSize)"
      using "1.prems"(2,3) by (auto simp: nth_append less_Suc_eq)
    have "i + nat chunkSize = length ?out * nat chunkSize"
      using "1.prems"(2) by simp
    with "1.IH" True "1.prems"(1,4) inv eq show ?thesis by simp
  next
    case False
    then have "chunkArray_loop arr chunkSize i out = out"
      by (subst chunkArray_loop.simps) simp
    with "1.prems" show ?thesis by simp
  qed
qed


lemma length_chunkArray:
  "0 < n \<Longrightarrow> length (chunkArray arr n) = (length arr + nat n - 1) div nat n"
  by (simp add: chunkArray_def length_chunkArray_loop)

lemma nth_chunkArray:
  "0 < n \<Longrightarrow> k < length (chunkArray arr n) \<Longrightarrow>
   chunkArray arr n ! k = slice arr (k * nat n) (k * nat n + nat n)"
  using nth_chunkArray_loop [of n 0 "[]" arr k] by (simp add: chunkArray_def)

lemma chunk_start_in_range:
  assumes "0 < n" and "k < length (chunkArray arr n)"
  shows "k * nat n < length arr"
proof -
  define m where "m = nat n"
  have m: "0 < m" using assms(1) by (simp add: m_def)
  from assms have "Suc k \<le> (length arr + m - 1) div m"
    by (simp add: length_chunkArray m_def)
  then have "Suc k * m \<le> length arr + m - 1"
    using m by (simp add: less_eq_div_iff_mult_less_eq)
  then show ?thesis using m unfolding m_def [symmetric] by simp
qed

lemma chunk_full_before_last:
  assumes "0 < n" and "Suc k < length (chunkArray arr n)"
  shows "k * nat n + nat n \<le> length arr"
  using chunk_start_in_range [OF assms] by simp

text \<open>
  Claim C7. For every array and every chunk size \<open>n > 0\<close>, chunkArray returns
  contiguous slices in order (the \<open>k\<close>-th chunk is the slice from \<open>k * n\<close> to
  \<open>k * n + n\<close>) whose concatenation is the array; every chunk is non-empty and has at
  most \<open>n\<close> elements, and every chunk but the last has exactly \<open>n\<close>. An array of 530
  elements with \<open>n = 250\<close> gives chunks of lengths 250, 250, 30. For \<open>n \<le> 0\<close> the
  result is the single chunk holding the whole array.
\<close>

theorem chunkArray_partition:
  fixes arr :: "'a list" and n :: int
  shows "(0 < n \<longrightarrow>
            concat (chunkArray arr n) = arr
          \<and> (\<forall>k < length (chunkArray arr n).
                chunkArray arr n ! k = slice arr (k * nat n) (k * nat n + nat n)
              \<and> 0 < length (chunkArray arr n ! k)
              \<and> length (chunkArray arr n ! k) \<le> nat n
              \<and> (Suc k < length (chunkArray arr n) \<longrightarrow> length (chunkArray arr n ! k) = nat n)))
       \<and> (length arr = 530 \<longrightarrow> map length (chunkArray arr 250) = [250, 250, 30])
       \<and> (n \<le> 0 \<longrightarrow> chunkArray arr n = [arr])"
proof (intro conjI impI allI)
  assume n: "0 < n"
  show "concat (chunkArray arr n) = arr"
    using n by (simp add: chunkArray_def concat_chunkArray_loop)
next
  fix k assume n: "0 < n" and k: "k < length (chunkArray arr n)"
  show "chunkArray arr n ! k = slice arr (k * nat n) (k * nat n + nat n)"
    by (rule nth_chunkArray [OF n k])
  show "0 < length (chunkArray arr n ! k)"
    using chunk_start_in_range [OF n k] n by (simp add: nth_chunkArray [OF n k] slice_def)
  show "length (chunkArray arr n ! k) \<le> nat n"
    by (simp add: nth_chunkArray [OF n k] slice_def)
next
  fix k assume n: "0 < n" and k: "k < length (chunkArray arr n)"
    and k': "Suc k < length (chunkArray arr n)"
  show "length (chunkArray arr n ! k) = nat n"
    using chunk_full_before_last [OF n k'] by (simp add: nth_chunkArray [OF n k] slice_def)
next
  assume "length arr = 530"
  then show "map length (chunkArray arr 250) = [250, 250, 30]"
    by (simp add: chunkArray_def chunkArray_loop.simps slice_def)
next
  assume "n \<le> 0"
  then show "chunkArray arr n = [arr]"
    by (simp add: chunkArray_def)
qed

theorem chunkArray_partition_witness:
  "(0::int) < 3
   \<and> chunkArray [1, 2, 3, 4, 5, 6, 7 :: nat] 3 = [[1, 2, 3], [4, 5, 6], [7]]
   \<and> concat (chunkArray [1, 2, 3, 4, 5, 6, 7 :: nat] 3) = [1, 2, 3, 4, 5, 6, 7]
   \<and> Suc 0 < length (chunkArray [1, 2, 3, 4, 5, 6, 7 :: nat] 3)
   \<and> length (chunkArray [1, 2, 3, 4, 5, 6, 7 :: nat] 3 ! 0) = 3
   \<and> length (replicate 530 (0::nat)) = 530
   \<and> map length (chunkArray (replicate 530 (0::nat)) 250) = [250, 250, 30]
   \<and> (0::int) \<le> 0
   \<and> chunkArray [1, 2 :: nat] 0 = [[1, 2]]"
  using chunkArray_partition [of 3 "[1, 2, 3, 4, 5, 6, 7 :: nat]"]
    chunkArray_partition [of 250 "replicate 530 (0::nat)"]
    chunkArray_partition [of 0 "[1, 2 :: nat]"]
  by (simp add: chunkArray_def chunkArray_loop.simps slice_def)

section \<open>The remote API under a log\<close>

lemma graphqlJson_logged:
  "graphqlJson (logged admin) req (log, s)
     = (case admin req s of
          (b, s') \<Rightarrow>
            (case data b of
               None \<Rightarrow> (Inl (GraphQLRequestFailed b), (log @ [(req, b)], s'))
             | Some d \<Rightarrow> (Inr d, (log @ [(req, b)], s'))))"
  by (simp add: graphqlJson_def logged_def split: prod.splits option.splits)

lemma hasInvalidReason_adjustResponse:
  "hasInvalidReason (adjustResponse g es) = (\<exists>e \<in> set es. code e = Some ''INVALID_REASON'')"
  by (simp add: hasInvalidReason_def adjustResponse_def orEmpty_def list_ex_iff)

lemma data_adjustBody: "data (adjustBody g es) = Some (InventoryAdjustQuantitiesData (adjustResponse g es))"
  by (simp add: adjustBody_def body_of_def)

lemma code_userError_of: "code (userError_of c) = Some c"
  by (simp add: userError_of_def)

section \<open>Aggregation of user-errors\<close>

lemma fold_absorbInventoryAdjust_ignored:
  "inventoryAdjustIgnoredNotStockedErrors (fold absorbInventoryAdjustError es r)
     = inventoryAdjustIgnoredNotStockedErrors r
       + length (filter (\<lambda>e. code e = Some ''ITEM_NOT_STOCKED_AT_LOCATION'') es)"
  by (induction es arbitrary: r) (simp_all add: absorbInventoryAdjustError_def)

lemma fold_absorbInventoryAdjust_failures:
  "inventoryAdjustUserErrors (fold absorbInventoryAdjustError es r)
     = inventoryAdjustUserErrors r
       + length (filter (\<lambda>e. code e \<noteq> Some ''ITEM_NOT_STOCKED_AT_LOCATION'') es)"
  by (induction es arbitrary: r) (simp_all add: absorbInventoryAdjustError_def)

lemma fold_absorbInventoryAdjust_ok:
  "ok (fold absorbInventoryAdjustError es r)
     = (ok r \<and> filter (\<lambda>e. code e \<noteq> Some ''ITEM_NOT_STOCKED_AT_LOCATION'') es = [])"
  by (induction es arbitrary: r) (simp_all add: absorbInventoryAdjustError_def)



section \<open>The reason fallback\<close>

text \<open>
  Claim C4. inventoryAdjustQuantitiesWithReasonFallback sends the mutation with the
  reasons correction, cycle_count, other in that order, one remote call per attempt
  (the log of the remote API grows by exactly the calls shown). It returns the first
  response whose user-errors hold no INVALID_REASON code, whatever other codes they
  hold, without a further call; when the first two responses report INVALID_REASON it
  makes the third call and returns its response, whether that one reports
  INVALID_REASON or not.
\<close>

theorem reasonFallback_attempts:
  fixes admin :: "'s admin"
  shows
  "(admin (InventoryResetAdjustQuantities name ''correction'' changes) s = (ba, sa)
      \<and> data ba = Some (InventoryAdjustQuantitiesData ra)
      \<and> \<not> hasInvalidReason ra \<longrightarrow>
    inventoryAdjustQuantitiesWithReasonFallback (logged admin) name changes (log, s)
      = (Inr (Some ra),
         (log @ [(InventoryResetAdjustQuantities name ''correction'' changes, ba)], sa)))
   \<and> (admin (InventoryResetAdjustQuantities name ''correction'' changes) s = (ba, sa)
      \<and> data ba = Some (InventoryAdjustQuantitiesData ra)
      \<and> hasInvalidReason ra
      \<and> admin (InventoryResetAdjustQuantities name ''cycle_count'' changes) sa = (bb, sb)
      \<and> data bb = Some (InventoryAdjustQuantitiesData rb)
      \<and> \<not> hasInvalidReason rb \<longrightarrow>
    inventoryAdjustQuantitiesWithReasonFallback (logged admin) name changes (log, s)
      = (Inr (Some rb),
         (log @ [(InventoryResetAdjustQuantities name ''correction'' changes, ba),
                 (InventoryResetAdjustQuantities name ''cycle_count'' changes, bb)], sb)))
   \<and> (admin (InventoryResetAdjustQuantities name ''correction'' changes) s = (ba, sa)
      \<and> data ba = Some (InventoryAdjustQuantitiesData ra)
      \<and> hasInvalidReason ra
      \<and> admin (InventoryResetAdjustQuantities name ''cycle_count'' changes) sa = (bb, sb)
      \<and> data bb = Some (InventoryAdjustQuantitiesData rb)
      \<and> hasInvalidReason rb
      \<and> admin (InventoryResetAdjustQuantities name ''other'' changes) sb = (bc, sc)
      \<and> data bc = Some (InventoryAdjustQuantitiesData rc) \<longrightarrow>
    inventoryAdjustQuantitiesWithReasonFallback (logged admin) name changes (log, s)
      = (Inr (Some rc),
         (log @ [(InventoryResetAdjustQuantities name ''correction'' changes, ba),
                 (InventoryResetAdjustQuantities name ''cycle_count'' changes, bb),
                 (InventoryResetAdjustQuantities name ''other'' changes, bc)], sc)))
   \<and> (hasInvalidReason ra \<longleftrightarrow>
        (\<exists>e \<in> set (orEmpty (adjust_userErrors ra)). code e = Some ''INVALID_REASON''))"
  by (simp add: inventoryAdjustQuantitiesWithReasonFallback_def reasonFallbacks_def
        graphqlJson_logged data_inventoryAdjustQuantities_def hasInvalidReason_def
        list_ex_iff)

theorem reasonFallback_attempts_witness:
  "inventoryAdjustQuantitiesWithReasonFallback (logged scripted) ''available'' [change7]
     ([], [adjustBody ''g1'' [userError_of ''ITEM_NOT_STOCKED_AT_LOCATION''],
           adjustBody ''g2'' []])
     = (Inr (Some (adjustResponse ''g1'' [userError_of ''ITEM_NOT_STOCKED_AT_LOCATION''])),
        ([(InventoryResetAdjustQuantities ''available'' ''correction'' [change7],
           adjustBody ''g1'' [userError_of ''ITEM_NOT_STOCKED_AT_LOCATION''])],
         [adjustBody ''g2'' []]))
   \<and> inventoryAdjustQuantitiesWithReasonFallback (logged scripted) ''available'' [change7]
     ([], [adjustBody ''g1'' [userError_of ''INVALID_REASON''],
           adjustBody ''g2'' [],
           adjustBody ''g3'' []])
     = (Inr (Some (adjustResponse ''g2'' [])),
        ([(InventoryResetAdjustQuantities ''available'' ''correction'' [change7],
           adjustBody ''g1'' [userError_of ''INVALID_REASON'']),
          (InventoryResetAdjustQuantities ''available'' ''cycle_count'' [change7],
           adjustBody ''g2'' [])],
         [adjustBody ''g3'' []]))
   \<and> inventoryAdjustQuantitiesWithReasonFallback (logged scripted) ''available'' [change7]
     ([], [adjustBody ''g1'' [userError_of ''INVALID_REASON''],
           adjustBody ''g2'' [userError_of ''INVALID_REASON''],
           adjustBody ''g3'' []])
     = (Inr (Some (adjustResponse ''g3'' [])),
        ([(InventoryResetAdjustQuantities ''available'' ''correction'' [change7],
           adjustBody ''g1'' [userError_of ''INVALID_REASON'']),
          (InventoryResetAdjustQuantities ''available'' ''cycle_count'' [change7],
           adjustBody ''g2'' [userError_of ''INVALID_REASON'']),
          (InventoryResetAdjustQuantities ''available'' ''other'' [change7],
           adjustBody ''g3'' [])],
         []))
   \<and> inventoryAdjustQuantitiesWithReasonFallback (logged scripted) ''available'' [change7]
     ([], [adjustBody ''g1'' [userError_of ''INVALID_REASON''],
           adjustBody ''g2'' [userError_of ''INVALID_REASON''],
           adjustBody ''g3'' [userError_of ''INVALID_REASON'']])
     = (Inr (Some (adjustResponse ''g3'' [userError_of ''INVALID_REASON''])),
        ([(InventoryResetAdjustQuantities ''available'' ''correction'' [change7],
           adjustBody ''g1'' [userError_of ''INVALID_REASON'']),
          (InventoryResetAdjustQuantities ''available'' ''cycle_count'' [change7],
           adjustBody ''g2'' [userError_of ''INVALID_REASON'']),
          (InventoryResetAdjustQuantities ''available'' ''other'' [change7],
           adjustBody ''g3'' [userError_of ''INVALID_REASON''])],
         []))"
proof -
  let ?inv = "[userError_of ''INVALID_REASON'']"
  let ?ns = "[userError_of ''ITEM_NOT_STOCKED_AT_LOCATION'']"
  note facts = hasInvalidReason_adjustResponse data_adjustBody code_userError_of scripted_def
  have first: "inventoryAdjustQuantitiesWithReasonFallback (logged scripted) ''available'' [change7]
     ([], [adjustBody ''g1'' ?ns, adjustBody ''g2'' []])
     = (Inr (Some (adjustResponse ''g1'' ?ns)),
        ([] @ [(InventoryResetAdjustQuantities ''available'' ''correction'' [change7],
           adjustBody ''g1'' ?ns)],
         [adjustBody ''g2'' []]))"
    using reasonFallback_attempts [where admin = scripted and name = "''available''"
        and changes = "[change7]" and log = "[]"
        and s = "[adjustBody ''g1'' ?ns, adjustBody ''g2'' []]"
        and ba = "adjustBody ''g1'' ?ns" and sa = "[adjustBody ''g2'' []]"
        and ra = "adjustResponse ''g1'' ?ns"]
    by (simp add: facts)
  have second: "inventoryAdjustQuantitiesWithReasonFallback (logged scripted) ''available'' [change7]
     ([], [adjustBody ''g1'' ?inv, adjustBody ''g2'' [], adjustBody ''g3'' []])
     = (Inr (Some (adjustResponse ''g2'' [])),
        ([] @ [(InventoryResetAdjustQuantities ''available'' ''correction'' [change7],
           adjustBody ''g1'' ?inv),
          (InventoryResetAdjustQuantities ''available'' ''cycle_count'' [change7],
           adjustBody ''g2'' [])],
         [adjustBody ''g3'' []]))"
    using reasonFallback_attempts [where admin = scripted and name = "''available''"
        and changes = "[change7]" and log = "[]"
        and s = "[adjustBody ''g1'' ?inv, adjustBody ''g2'' [], adjustBody ''g3'' []]"
        and ba = "adjustBody ''g1'' ?inv"
        and sa = "[adjustBody ''g2'' [], adjustBody ''g3'' []]"
        and ra = "adjustResponse ''g1'' ?inv"
        and bb = "adjustBody ''g2'' []" and sb = "[adjustBody ''g3'' []]"
        and rb = "adjustResponse ''g2'' []"]
    by (simp add: facts)
  have third: "inventoryAdjustQuantitiesWithReasonFallback (logged scripted) ''available'' [change7]
     ([], [adjustBody ''g1'' ?inv, adjustBody ''g2'' ?inv, adjustBody ''g3'' es])
     = (Inr (Some (adjustResponse ''g3'' es)),
        ([] @ [(InventoryResetAdjustQuantities ''available'' ''correction'' [change7],
           adjustBody ''g1'' ?inv),
          (InventoryResetAdjustQuantities ''available'' ''cycle_count'' [change7],
           adjustBody ''g2'' ?inv),
          (InventoryResetAdjustQuantities ''available'' ''other'' [change7],
           adjustBody ''g3'' es)],
         []))" for es
    using reasonFallback_attempts [where admin = scripted and name = "''available''"
        and changes = "[change7]" and log = "[]"
        and s = "[adjustBody ''g1'' ?inv, adjustBody ''g2'' ?inv, adjustBody ''g3'' es]"
        and ba = "adjustBody ''g1'' ?inv"
        and sa = "[adjustBody ''g2'' ?inv, adjustBody ''g3'' es]"
        and ra = "adjustResponse ''g1'' ?inv"
        and bb = "adjustBody ''g2'' ?inv" and sb = "[adjustBody ''g3'' es]"
        and rb = "adjustResponse ''g2'' ?inv"
        and bc = "adjustBody ''g3'' es" and sc = "[]"
        and rc = "adjustResponse ''g3'' es"]
    by (simp add: facts)
  from first second third [of "[]"] third [of ?inv] show ?thesis by simp
qed

section \<open>Webhook verification and ingestion\<close>

lemma orNull_Some_iff: "orNull x = Some v \<longleftrightarrow> x = Some v \<and> v \<noteq> []"
  by (auto simp: orNull_def split: option.splits)

lemma orNull_None_iff: "orNull x = None \<longleftrightarrow> x = None \<or> x = Some []"
  by (auto simp: orNull_def split: option.splits)

text \<open>
  Claim C2. verifyShopifyWebhookRequest fails with status 500 when the shared secret is
  not configured (unset or empty); with status 401 when the signature header is absent
  (or empty); with status 401 and the message Invalid HMAC when the digest of the raw
  body differs from the supplied header in length or in content; with status 400 when
  the signature matches but the topic or the shop header is missing; and otherwise
  succeeds with the topic, the shop and the optional webhook id and API version. The
  comparison is the length check followed by \<open>timingSafeEqual\<close>, of which only the
  result is modelled.
\<close>

theorem verifyShopifyWebhookRequest_cases:
  "(orNull (SHOPIFY_API_SECRET env) = None \<longrightarrow>
      verifyShopifyWebhookRequest env request = AuthFailed 500 ''Missing SHOPIFY_API_SECRET'')
   \<and> (orNull (SHOPIFY_API_SECRET env) = Some secret
        \<and> orNull (getHeader (headers_get request) ''X-Shopify-Hmac-Sha256'') = None \<longrightarrow>
      verifyShopifyWebhookRequest env request = AuthFailed 401 ''Missing HMAC header'')
   \<and> (orNull (SHOPIFY_API_SECRET env) = Some secret
        \<and> orNull (getHeader (headers_get request) ''X-Shopify-Hmac-Sha256'') = Some hmacHeader
        \<and> (length (hmacSha256Base64 env secret (text_body request)) \<noteq> length hmacHeader
             \<or> hmacSha256Base64 env secret (text_body request) \<noteq> hmacHeader) \<longrightarrow>
      verifyShopifyWebhookRequest env request = AuthFailed 401 ''Invalid HMAC'')
   \<and> (orNull (SHOPIFY_API_SECRET env) = Some secret
        \<and> orNull (getHeader (headers_get request) ''X-Shopify-Hmac-Sha256'')
            = Some (hmacSha256Base64 env secret (text_body request))
        \<and> (orNull (getHeader (headers_get request) ''X-Shopify-Topic'') = None
             \<or> orNull (getHeader (headers_get request) ''X-Shopify-Shop-Domain'') = None) \<longrightarrow>
      verifyShopifyWebhookRequest env request = AuthFailed 400 ''Missing topic/shop headers'')
   \<and> (orNull (SHOPIFY_API_SECRET env) = Some secret
        \<and> orNull (getHeader (headers_get request) ''X-Shopify-Hmac-Sha256'')
            = Some (hmacSha256Base64 env secret (text_body request))
        \<and> orNull (getHeader (headers_get request) ''X-Shopify-Topic'') = Some topic_header
        \<and> orNull (getHeader (headers_get request) ''X-Shopify-Shop-Domain'') = Some shop_header \<longrightarrow>
      verifyShopifyWebhookRequest env request
        = AuthOk topic_header shop_header
            (orNull (getHeader (headers_get request) ''X-Shopify-Webhook-Id''))
            (orNull (getHeader (headers_get request) ''X-Shopify-Api-Version'')))"
proof (intro conjI impI)
  assume "orNull (SHOPIFY_API_SECRET env) = None"
  then show "verifyShopifyWebhookRequest env request = AuthFailed 500 ''Missing SHOPIFY_API_SECRET''"
    by (simp add: verifyShopifyWebhookRequest_def)
next
  assume "orNull (SHOPIFY_API_SECRET env) = Some secret
        \<and> orNull (getHeader (headers_get request) ''X-Shopify-Hmac-Sha256'') = None"
  then show "verifyShopifyWebhookRequest env request = AuthFailed 401 ''Missing HMAC header''"
    by (simp add: verifyShopifyWebhookRequest_def)
next
  assume "orNull (SHOPIFY_API_SECRET env) = Some secret
        \<and> orNull (getHeader (headers_get request) ''X-Shopify-Hmac-Sha256'') = Some hmacHeader
        \<and> (length (hmacSha256Base64 env secret (text_body request)) \<noteq> length hmacHeader
             \<or> hmacSha256Base64 env secret (text_body request) \<noteq> hmacHeader)"
  then show "verifyShopifyWebhookRequest env request = AuthFailed 401 ''Invalid HMAC''"
    by (auto simp: verifyShopifyWebhookRequest_def timingSafeEqual_def Let_def)
next
  assume "orNull (SHOPIFY_API_SECRET env) = Some secret
        \<and> orNull (getHeader (headers_get request) ''X-Shopify-Hmac-Sha256'')
            = Some (hmacSha256Base64 env secret (text_body request))
        \<and> (orNull (getHeader (headers_get request) ''X-Shopify-Topic'') = None
             \<or> orNull (getHeader (headers_get request) ''X-Shopify-Shop-Domain'') = None)"
  then show "verifyShopifyWebhookRequest env request = AuthFailed 400 ''Missing topic/shop headers''"
    by (auto simp: verifyShopifyWebhookRequest_def timingSafeEqual_def Let_def orEmpty_def)
next
  assume "orNull (SHOPIFY_API_SECRET env) = Some secret
        \<and> orNull (getHeader (headers_get request) ''X-Shopify-Hmac-Sha256'')
            = Some (hmacSha256Base64 env secret (text_body request))
        \<and> orNull (getHeader (headers_get request) ''X-Shopify-Topic'') = Some topic_header
        \<and> orNull (getHeader (headers_get request) ''X-Shopify-Shop-Domain'') = Some shop_header"
  moreover from this have "topic_header \<noteq> []" and "shop_header \<noteq> []"
    by (simp_all add: orNull_Some_iff)
  ultimately show "verifyShopifyWebhookRequest env request
        = AuthOk topic_header shop_header
            (orNull (getHeader (headers_get request) ''X-Shopify-Webhook-Id''))
            (orNull (getHeader (headers_get request) ''X-Shopify-Api-Version''))"
    by (simp add: verifyShopifyWebhookRequest_def timingSafeEqual_def Let_def orEmpty_def)
qed

lemma toLowerCase_hmac: "toLowerCase ''X-Shopify-Hmac-Sha256'' = ''x-shopify-hmac-sha256''"
  by code_simp
lemma toLowerCase_topic: "toLowerCase ''X-Shopify-Topic'' = ''x-shopify-topic''"
  by code_simp
lemma toLowerCase_shop: "toLowerCase ''X-Shopify-Shop-Domain'' = ''x-shopify-shop-domain''"
  by code_simp
lemma toLowerCase_webhookId: "toLowerCase ''X-Shopify-Webhook-Id'' = ''x-shopify-webhook-id''"
  by code_simp
lemma toLowerCase_apiVersion: "toLowerCase ''X-Shopify-Api-Version'' = ''x-shopify-api-version''"
  by code_simp

lemmas toLowerCase_names = toLowerCase_hmac toLowerCase_topic toLowerCase_shop
  toLowerCase_webhookId toLowerCase_apiVersion

lemma getHeader_testRequest:
  "getHeader (headers_get (testRequest h b)) ''X-Shopify-Hmac-Sha256'' = Some h"
  "getHeader (headers_get (testRequest h b)) ''X-Shopify-Topic'' = Some ''customers/data_request''"
  "getHeader (headers_get (testRequest h b)) ''X-Shopify-Shop-Domain'' = Some ''demo.myshopify.com''"
  "getHeader (headers_get (testRequest h b)) ''X-Shopify-Webhook-Id'' = Some ''wh_1''"
  "getHeader (headers_get (testRequest h b)) ''X-Shopify-Api-Version'' = None"
  by (simp_all add: getHeader_def testRequest_def toLowerCase_names orNull_def)


lemma text_body_testRequest: "text_body (testRequest h b) = b"
  by (simp add: testRequest_def)

lemma verify_testRequest_ok:
  "verifyShopifyWebhookRequest testPlatform (testRequest (''mac:shh:'' @ b) b)
     = AuthOk ''customers/data_request'' ''demo.myshopify.com'' (Some ''wh_1'') None"
  by (simp add: verifyShopifyWebhookRequest_def getHeader_testRequest orNull_def orEmpty_def
        timingSafeEqual_def testPlatform_def text_body_testRequest)

theorem verifyShopifyWebhookRequest_cases_witness:
  "verifyShopifyWebhookRequest (testPlatform\<lparr>SHOPIFY_API_SECRET := None\<rparr>)
       (testRequest ''mac:shh:{}'' ''{}'')
     = AuthFailed 500 ''Missing SHOPIFY_API_SECRET''
   \<and> verifyShopifyWebhookRequest testPlatform (testRequest [] ''{}'')
     = AuthFailed 401 ''Missing HMAC header''
   \<and> verifyShopifyWebhookRequest testPlatform (testRequest ''mac:shh:{'' ''{}'')
     = AuthFailed 401 ''Invalid HMAC''
   \<and> verifyShopifyWebhookRequest testPlatform (testRequest ''mac:shh:{]'' ''{}'')
     = AuthFailed 401 ''Invalid HMAC''
   \<and> verifyShopifyWebhookRequest testPlatform
       ((testRequest ''mac:shh:{}'' ''{}'')
          \<lparr>headers_get := map_of [(''x-shopify-hmac-sha256'', ''mac:shh:{}'')]\<rparr>)
     = AuthFailed 400 ''Missing topic/shop headers''
   \<and> verifyShopifyWebhookRequest testPlatform (testRequest ''mac:shh:{}'' ''{}'')
     = AuthOk ''customers/data_request'' ''demo.myshopify.com'' (Some ''wh_1'') None"
proof -
  note ev = getHeader_testRequest orNull_def testPlatform_def
  have a: "verifyShopifyWebhookRequest (testPlatform\<lparr>SHOPIFY_API_SECRET := None\<rparr>)
       (testRequest ''mac:shh:{}'' ''{}'') = AuthFailed 500 ''Missing SHOPIFY_API_SECRET''"
    using verifyShopifyWebhookRequest_cases
      [where env = "testPlatform\<lparr>SHOPIFY_API_SECRET := None\<rparr>"
         and request = "testRequest ''mac:shh:{}'' ''{}''"]
    by (simp add: ev)
  have b: "verifyShopifyWebhookRequest testPlatform (testRequest [] ''{}'')
     = AuthFailed 401 ''Missing HMAC header''"
    using verifyShopifyWebhookRequest_cases
      [where env = testPlatform and request = "testRequest [] ''{}''" and secret = "''shh''"]
    by (simp add: ev)
  have c: "verifyShopifyWebhookRequest testPlatform (testRequest h ''{}'')
     = AuthFailed 401 ''Invalid HMAC''" if "h \<noteq> []" "h \<noteq> ''mac:shh:{}''" for h
    using that verifyShopifyWebhookRequest_cases
      [where env = testPlatform and request = "testRequest h ''{}''" and secret = "''shh''"
         and hmacHeader = h]
    by (auto simp: ev text_body_testRequest)
  have d: "verifyShopifyWebhookRequest testPlatform
       ((testRequest ''mac:shh:{}'' ''{}'')
          \<lparr>headers_get := map_of [(''x-shopify-hmac-sha256'', ''mac:shh:{}'')]\<rparr>)
     = AuthFailed 400 ''Missing topic/shop headers''"
    using verifyShopifyWebhookRequest_cases
      [where env = testPlatform
         and request = "(testRequest ''mac:shh:{}'' ''{}'')
          \<lparr>headers_get := map_of [(''x-shopify-hmac-sha256'', ''mac:shh:{}'')]\<rparr>"
         and secret = "''shh''"]
    by (simp add: orNull_def testPlatform_def testRequest_def getHeader_def toLowerCase_names)
  have e: "verifyShopifyWebhookRequest testPlatform (testRequest ''mac:shh:{}'' ''{}'')
     = AuthOk ''customers/data_request'' ''demo.myshopify.com'' (Some ''wh_1'') None"
    using verifyShopifyWebhookRequest_cases
      [where env = testPlatform and request = "testRequest ''mac:shh:{}'' ''{}''"
         and secret = "''shh''" and topic_header = "''customers/data_request''"
         and shop_header = "''demo.myshopify.com''"]
    by (simp add: ev text_body_testRequest)
  from a b c [of "''mac:shh:{''"] c [of "''mac:shh:{]''"] d e show ?thesis by simp
qed

lemma verify_failed_status:
  "verifyShopifyWebhookRequest env request = AuthFailed st msg \<Longrightarrow> st = 500 \<or> st = 401 \<or> st = 400"
  by (auto simp: verifyShopifyWebhookRequest_def Let_def split: option.splits if_splits)

text \<open>
  Claim C1. For every request, the ingestion handler either appends exactly one row to
  the WebhookEvent table, with status PENDING and attempts 0, and answers 200 with the
  body OK, or leaves the table as it was and does not answer 200. When the
  verification fails, the handler answers with the verifier's message and status (400,
  401 or 500, never 200) and inserts nothing. When the verification succeeds, the body
  is read and the database accepts the insert, the one inserted row carries the
  verified topic, shop, webhook id and API version and the parsed payload. When the
  verification succeeds and the body is not JSON, or the database rejects the insert,
  the handler throws the error, with no row inserted, which the framework answers with
  a server error.
\<close>

theorem action_all_or_nothing:
  "((\<exists>row. action env request db = (Response ''OK'' 200, db @ [row])
          \<and> status row = PENDING \<and> attempts row = 0)
    \<or> (\<exists>out. action env request db = (out, db) \<and> (\<forall>b. out \<noteq> Response b 200)))
   \<and> (verifyShopifyWebhookRequest env request = AuthFailed auth_status auth_message \<longrightarrow>
        action env request db = (Response auth_message auth_status, db) \<and> auth_status \<noteq> 200)
   \<and> (verifyShopifyWebhookRequest env request = AuthOk t sh w a
        \<and> readShopifyWebhookJson env request = Inr (raw, json)
        \<and> databaseUp env \<longrightarrow>
        action env request db
          = (Response ''OK'' 200,
             db @ [\<lparr>event_id = newId env, topic = t, shop = sh, webhookId = w, apiVersion = a,
                    payload = json, status = PENDING, attempts = 0, lastError = None,
                    createdAt = currentTimestamp env, processedAt = None\<rparr>]))
   \<and> (verifyShopifyWebhookRequest env request = AuthOk t sh w a
        \<and> readShopifyWebhookJson env request = Inl e \<longrightarrow>
        action env request db = (Thrown e, db))
   \<and> (verifyShopifyWebhookRequest env request = AuthOk t sh w a
        \<and> readShopifyWebhookJson env request = Inr (raw, json)
        \<and> \<not> databaseUp env \<longrightarrow>
        action env request db = (Thrown DatabaseError, db))"
proof (intro conjI impI)
  show "(\<exists>row. action env request db = (Response ''OK'' 200, db @ [row])
          \<and> status row = PENDING \<and> attempts row = 0)
    \<or> (\<exists>out. action env request db = (out, db) \<and> (\<forall>b. out \<noteq> Response b 200))"
  proof (cases "verifyShopifyWebhookRequest env request")
    case (AuthFailed st msg)
    from verify_failed_status [OF this] have "st \<noteq> 200" by auto
    with AuthFailed show ?thesis by (simp add: action_def)
  next
    case (AuthOk t sh w a)
    show ?thesis
    proof (cases "readShopifyWebhookJson env request")
      case (Inl e)
      with AuthOk show ?thesis by (simp add: action_def)
    next
      case (Inr p)
      with AuthOk show ?thesis
        by (cases p; cases "databaseUp env") (simp_all add: action_def webhookEvent_create_def)
    qed
  qed
next
  assume h: "verifyShopifyWebhookRequest env request = AuthFailed auth_status auth_message"
  from verify_failed_status [OF h] have "auth_status \<noteq> 200" by auto
  with h show "action env request db = (Response auth_message auth_status, db)"
    and "auth_status \<noteq> 200"
    by (simp_all add: action_def)
next
  assume "verifyShopifyWebhookRequest env request = AuthOk t sh w a
        \<and> readShopifyWebhookJson env request = Inr (raw, json)
        \<and> databaseUp env"
  then show "action env request db
          = (Response ''OK'' 200,
             db @ [\<lparr>event_id = newId env, topic = t, shop = sh, webhookId = w, apiVersion = a,
                    payload = json, status = PENDING, attempts = 0, lastError = None,
                    createdAt = currentTimestamp env, processedAt = None\<rparr>])"
    by (simp add: action_def webhookEvent_create_def)
next
  assume "verifyShopifyWebhookRequest env request = AuthOk t sh w a
        \<and> readShopifyWebhookJson env request = Inl e"
  then show "action env request db = (Thrown e, db)"
    by (simp add: action_def)
next
  assume "verifyShopifyWebhookRequest env request = AuthOk t sh w a
        \<and> readShopifyWebhookJson env request = Inr (raw, json)
        \<and> \<not> databaseUp env"
  then show "action env request db = (Thrown DatabaseError, db)"
    by (simp add: action_def webhookEvent_create_def)
qed

lemma read_testRequest:
  "readShopifyWebhookJson (testPlatform\<lparr>databaseUp := up\<rparr>) (testRequest h (CHR ''{'' # b))
     = Inr (CHR ''{'' # b, CHR ''{'' # b)"
  "readShopifyWebhookJson (testPlatform\<lparr>databaseUp := up\<rparr>) (testRequest h ''oops'')
     = Inl SyntaxError"
  by (simp_all add: readShopifyWebhookJson_def text_body_testRequest testPlatform_def Let_def)

lemma verify_testRequest_database:
  "verifyShopifyWebhookRequest (testPlatform\<lparr>databaseUp := up\<rparr>) (testRequest h b)
     = verifyShopifyWebhookRequest testPlatform (testRequest h b)"
  by (simp add: verifyShopifyWebhookRequest_def Let_def cong: option.case_cong if_cong)

lemma testPlatform_up: "testPlatform\<lparr>databaseUp := True\<rparr> = testPlatform"
  by (simp add: testPlatform_def)

theorem action_all_or_nothing_witness:
  \<open>action testPlatform (testRequest ''mac:shh:{"a":1}'' ''{"a":1}'') []
     = (Response ''OK'' 200,
        [\<lparr>event_id = ''evt_1'', topic = ''customers/data_request'',
          shop = ''demo.myshopify.com'', webhookId = Some ''wh_1'', apiVersion = None,
          payload = ''{"a":1}'', status = PENDING, attempts = 0, lastError = None,
          createdAt = 1000, processedAt = None\<rparr>])
   \<and> action testPlatform (testRequest ''mac:shh:{"a":2}'' ''{"a":1}'') []
     = (Response ''Invalid HMAC'' 401, [])
   \<and> action testPlatform (testRequest ''mac:shh:oops'' ''oops'') []
     = (Thrown SyntaxError, [])
   \<and> action (testPlatform\<lparr>databaseUp := False\<rparr>)
        (testRequest ''mac:shh:{"a":1}'' ''{"a":1}'') []
     = (Thrown DatabaseError, [])\<close>
proof -
  have ok: \<open>verifyShopifyWebhookRequest (testPlatform\<lparr>databaseUp := up\<rparr>)
        (testRequest ''mac:shh:{"a":1}'' ''{"a":1}'')
      = AuthOk ''customers/data_request'' ''demo.myshopify.com'' (Some ''wh_1'') None\<close> for up
    using verify_testRequest_ok [of \<open>''{"a":1}''\<close>] by (simp add: verify_testRequest_database)
  have ok': "verifyShopifyWebhookRequest testPlatform (testRequest ''mac:shh:oops'' ''oops'')
      = AuthOk ''customers/data_request'' ''demo.myshopify.com'' (Some ''wh_1'') None"
    using verify_testRequest_ok [of "''oops''"] by simp
  have bad: \<open>verifyShopifyWebhookRequest testPlatform (testRequest ''mac:shh:{"a":2}'' ''{"a":1}'')
      = AuthFailed 401 ''Invalid HMAC''\<close>
    by (simp add: verifyShopifyWebhookRequest_def getHeader_testRequest orNull_def
          timingSafeEqual_def testPlatform_def text_body_testRequest)
  have up: "databaseUp testPlatform" "\<not> databaseUp (testPlatform\<lparr>databaseUp := False\<rparr>)"
    by (simp_all add: testPlatform_def)
  have a: \<open>action testPlatform (testRequest ''mac:shh:{"a":1}'' ''{"a":1}'') []
     = (Response ''OK'' 200,
        [] @ [\<lparr>event_id = newId testPlatform, topic = ''customers/data_request'',
          shop = ''demo.myshopify.com'', webhookId = Some ''wh_1'', apiVersion = None,
          payload = ''{"a":1}'', status = PENDING, attempts = 0, lastError = None,
          createdAt = currentTimestamp testPlatform, processedAt = None\<rparr>])\<close>
    using action_all_or_nothing
      [where env = testPlatform and request = \<open>testRequest ''mac:shh:{"a":1}'' ''{"a":1}''\<close>
         and db = "[]" and t = "''customers/data_request''" and sh = "''demo.myshopify.com''"
         and w = "Some ''wh_1''" and a = None and raw = \<open>''{"a":1}''\<close>
         and json = \<open>''{"a":1}''\<close>]
      ok [of True] up(1)
      read_testRequest(1) [of True \<open>''mac:shh:{"a":1}''\<close> \<open>''"a":1}''\<close>]
    by (simp add: testPlatform_up)
  have b: \<open>action testPlatform (testRequest ''mac:shh:{"a":2}'' ''{"a":1}'') []
     = (Response ''Invalid HMAC'' 401, [])\<close>
    using action_all_or_nothing
      [where env = testPlatform and request = \<open>testRequest ''mac:shh:{"a":2}'' ''{"a":1}''\<close>
         and db = "[]" and auth_status = 401 and auth_message = "''Invalid HMAC''"]
      bad
    by simp
  have c: "action testPlatform (testRequest ''mac:shh:oops'' ''oops'') [] = (Thrown SyntaxError, [])"
    using action_all_or_nothing
      [where env = testPlatform and request = "testRequest ''mac:shh:oops'' ''oops''"
         and db = "[]" and t = "''customers/data_request''" and sh = "''demo.myshopify.com''"
         and w = "Some ''wh_1''" and a = None and e = SyntaxError]
      ok' read_testRequest(2) [of True "''mac:shh:oops''"]
    by (simp add: testPlatform_up)
  have d: \<open>action (testPlatform\<lparr>databaseUp := False\<rparr>)
        (testRequest ''mac:shh:{"a":1}'' ''{"a":1}'') [] = (Thrown DatabaseError, [])\<close>
    using action_all_or_nothing
      [where env = "testPlatform\<lparr>databaseUp := False\<rparr>"
         and request = \<open>testRequest ''mac:shh:{"a":1}'' ''{"a":1}''\<close>
         and db = "[]" and t = "''customers/data_request''" and sh = "''demo.myshopify.com''"
         and w = "Some ''wh_1''" and a = None and raw = \<open>''{"a":1}''\<close>
         and json = \<open>''{"a":1}''\<close>]
      ok [of False] up(2)
      read_testRequest(1) [of False \<open>''mac:shh:{"a":1}''\<close> \<open>''"a":1}''\<close>]
    by simp
  from a b c d show ?thesis by (simp add: testPlatform_def)
qed

section \<open>Inventory zeroing changes\<close>

lemma map_filter_append: "List.map_filter f (xs @ ys) = List.map_filter f xs @ List.map_filter f ys"
  by (simp add: List.map_filter_def)

lemma find_filter: "find P xs = (case filter P xs of [] \<Rightarrow> None | x # _ \<Rightarrow> Some x)"
  by (induction xs) simp_all

lemma zeroLevel_spec:
  "zeroLevel allowed item level changes
     = changes @ (case spec_zeroingChange allowed (item, level) of None \<Rightarrow> [] | Some c \<Rightarrow> [c])"
  by (simp add: zeroLevel_def spec_zeroingChange_def find_filter split: list.splits)

lemma fold_zeroLevel:
  "fold (zeroLevel allowed item) levels changes
     = changes @ List.map_filter (spec_zeroingChange allowed) (map (Pair item) levels)"
  by (induction levels arbitrary: changes)
     (simp_all add: zeroLevel_spec List.map_filter_simps split: option.splits)

lemma zeroNode_spec:
  "zeroNode allowed n changes = Inr changes' \<Longrightarrow>
   changes' = changes @ List.map_filter (spec_zeroingChange allowed) (node_levels n)"
  by (cases n)
     (auto simp: zeroNode_def node_levels_def fold_zeroLevel List.map_filter_simps
        split: if_splits)

lemma zeroNodes_spec:
  "zeroNodes allowed ns changes = Inr changes' \<Longrightarrow>
   changes' = changes @ List.map_filter (spec_zeroingChange allowed) (concat (map node_levels ns))"
proof (induction ns arbitrary: changes)
  case Nil
  then show ?case by (simp add: List.map_filter_simps)
next
  case (Cons n ns)
  from Cons.prems obtain mid where
    n: "zeroNode allowed n changes = Inr mid" and rest: "zeroNodes allowed ns mid = Inr changes'"
    by (auto split: sum.splits)
  from zeroNode_spec [OF n] Cons.IH [OF rest] show ?case
    by (simp add: map_filter_append)
qed

lemma fetchedLevels_append: "fetchedLevels (xs @ ys) = fetchedLevels xs @ fetchedLevels ys"
  by (simp add: fetchedLevels_def)

lemma fetchedLevels_nodes:
  "data b = Some (NodesData ns) \<Longrightarrow> fetchedLevels [(req, b)] = concat (map node_levels ns)"
  by (simp add: fetchedLevels_def)

lemma zeroingChunks_logged:
  "zeroingChunks (logged admin) allowed chunks changes0 (log0, s) = (Inr changes, (log, s')) \<Longrightarrow>
   \<exists>new. log = log0 @ new
     \<and> changes = changes0 @ List.map_filter (spec_zeroingChange allowed) (fetchedLevels new)
     \<and> map fst new = map InventoryResetInventoryLevels chunks"
proof (induction chunks arbitrary: changes0 log0 s)
  case Nil
  then show ?case by (simp add: fetchedLevels_def List.map_filter_simps)
next
  case (Cons chunk rest)
  obtain b s1 where call: "admin (InventoryResetInventoryLevels chunk) s = (b, s1)"
    by (cases "admin (InventoryResetInventoryLevels chunk) s")
  from Cons.prems call obtain ns mid where
    d: "data b = Some (NodesData ns)"
    and z: "zeroNodes allowed ns changes0 = Inr mid"
    and r: "zeroingChunks (logged admin) allowed rest mid
              (log0 @ [(InventoryResetInventoryLevels chunk, b)], s1) = (Inr changes, (log, s'))"
    by (auto simp: graphqlJson_logged data_nodes_def split: option.splits gqlData.splits sum.splits)
  from Cons.IH [OF r] obtain new where
    new: "log = (log0 @ [(InventoryResetInventoryLevels chunk, b)]) @ new"
      "changes = mid @ List.map_filter (spec_zeroingChange allowed) (fetchedLevels new)"
      "map fst new = map InventoryResetInventoryLevels rest"
    by blast
  let ?new = "(InventoryResetInventoryLevels chunk, b) # new"
  have "log = log0 @ ?new" using new(1) by simp
  moreover have "changes = changes0 @ List.map_filter (spec_zeroingChange allowed) (fetchedLevels ?new)"
    using new(2) zeroNodes_spec [OF z] fetchedLevels_nodes [OF d, of "InventoryResetInventoryLevels chunk"]
      fetchedLevels_append [of "[(InventoryResetInventoryLevels chunk, b)]" new]
    by (simp add: map_filter_append)
  moreover have "map fst ?new = map InventoryResetInventoryLevels (chunk # rest)"
    using new(3) by simp
  ultimately show ?case by blast
qed



section \<open>Pagination\<close>

lemma getAllLocationIds_loop_trace:
  assumes "getAllLocationIds_loop (logged admin) acc after (log0, s) = Some (Inr ids, (log, s'))"
  shows "\<exists>pages new. log = log0 @ new \<and> pages \<noteq> []
           \<and> map (data \<circ> snd) new = map (\<lambda>p. Some (LocationsData p)) pages
           \<and> map fst new
               = map InventoryResetLocations (after # map (\<lambda>p. orNull (endCursor p)) (butlast pages))
           \<and> (\<forall>p \<in> set (butlast pages). hasNextPage p)
           \<and> \<not> hasNextPage (last pages)
           \<and> ids = acc @ concat (map (\<lambda>p. map location_id (nodes p)) pages)"
proof -
  let ?Q = "\<lambda>acc after log0 ids log.
     \<exists>pages new. log = log0 @ new \<and> pages \<noteq> []
           \<and> map (data \<circ> snd) new = map (\<lambda>p. Some (LocationsData p)) pages
           \<and> map fst new
               = map InventoryResetLocations (after # map (\<lambda>p. orNull (endCursor p)) (butlast pages))
           \<and> (\<forall>p \<in> set (butlast pages). hasNextPage p)
           \<and> \<not> hasNextPage (last pages)
           \<and> ids = acc @ concat (map (\<lambda>p. map location_id (nodes p)) pages)"
  have "\<forall>log0 s ids log s'. a = logged admin \<longrightarrow> ls = (log0, s) \<longrightarrow> y = (Inr ids, (log, s'))
            \<longrightarrow> ?Q acc after log0 ids log"
    if run: "getAllLocationIds_loop a acc after ls = Some y" for a acc after ls y
  proof (induction a acc after ls y rule: getAllLocationIds_loop.raw_induct)
    case (1 f a acc after ls y)
    show ?case
    proof (intro allI impI)
      fix log0 s ids log s'
      assume a: "a = logged admin" and ls: "ls = (log0, s)" and y: "y = (Inr ids, (log, s'))"
      let ?req = "InventoryResetLocations after"
      obtain b s1 where call: "admin ?req s = (b, s1)"
        by (cases "admin ?req s")
      from "1.hyps" a ls y call obtain p where
        d: "data b = Some (LocationsData p)"
        and body: "(if \<not> hasNextPage p
                    then Some (Inr (acc @ map location_id (nodes p)), (log0 @ [(?req, b)], s1))
                    else f (logged admin) (acc @ map location_id (nodes p))
                           (orNull (endCursor p)) (log0 @ [(?req, b)], s1))
                 = Some (Inr ids, (log, s'))"
        by (auto simp: graphqlJson_logged data_locations_def Let_def
              split: option.splits gqlData.splits)
      show "?Q acc after log0 ids log"
      proof (cases "hasNextPage p")
        case False
        with body have "log = log0 @ [(?req, b)]" and "ids = acc @ map location_id (nodes p)"
          by simp_all
        with d False show ?thesis
          by (intro exI [of _ "[p]"] exI [of _ "[(?req, b)]"]) simp
      next
        case True
        with body have "f (logged admin) (acc @ map location_id (nodes p))
                           (orNull (endCursor p)) (log0 @ [(?req, b)], s1)
                 = Some (Inr ids, (log, s'))" by simp
        from "1.IH" [OF this] obtain pages new where
          r: "log = (log0 @ [(?req, b)]) @ new" "pages \<noteq> []"
             "map (data \<circ> snd) new = map (\<lambda>p. Some (LocationsData p)) pages"
             "map fst new = map InventoryResetLocations
                 (orNull (endCursor p) # map (\<lambda>p. orNull (endCursor p)) (butlast pages))"
             "\<forall>p \<in> set (butlast pages). hasNextPage p"
             "\<not> hasNextPage (last pages)"
             "ids = (acc @ map location_id (nodes p)) @ concat (map (\<lambda>p. map location_id (nodes p)) pages)"
          by blast
        from r d True show ?thesis
          by (intro exI [of _ "p # pages"] exI [of _ "(?req, b) # new"]) simp
      qed
    qed
  qed (fact run)
  from this [OF assms] show ?thesis by blast
qed

lemma getAllLocationIds_loop_last:
  "admin (InventoryResetLocations after) s = (b, s1) \<Longrightarrow> data b = Some (LocationsData p) \<Longrightarrow>
   \<not> hasNextPage p \<Longrightarrow>
   getAllLocationIds_loop admin acc after s = Some (Inr (acc @ map location_id (nodes p)), s1)"
  by (subst getAllLocationIds_loop.simps) (simp add: graphqlJson_def data_locations_def)

lemma getAllLocationIds_loop_next:
  "admin (InventoryResetLocations after) s = (b, s1) \<Longrightarrow> data b = Some (LocationsData p) \<Longrightarrow>
   hasNextPage p \<Longrightarrow>
   getAllLocationIds_loop admin acc after s
     = getAllLocationIds_loop admin (acc @ map location_id (nodes p)) (orNull (endCursor p)) s1"
  by (subst getAllLocationIds_loop.simps) (simp add: graphqlJson_def data_locations_def)

lemma logged_scripted_Cons:
  "logged scripted req (log, b # bs) = (b, (log @ [(req, b)], bs))"
  by (simp add: logged_def scripted_def)

lemma locationsBody_simps:
  "data (locationsBody ids hasMore c)
     = Some (LocationsData \<lparr>nodes = map (\<lambda>i. \<lparr>location_id = i, location_name = ''name of '' @ i\<rparr>) ids,
                             hasNextPage = hasMore, endCursor = c\<rparr>)"
  by (simp add: locationsBody_def body_of_def)

lemma getAllLocationIds_loop_scripted:
  "getAllLocationIds_loop (logged scripted) acc after (log, locationsBody ids hasMore c # bs)
     = (if hasMore
        then getAllLocationIds_loop (logged scripted) (acc @ ids) (orNull c)
               (log @ [(InventoryResetLocations after, locationsBody ids hasMore c)], bs)
        else Some (Inr (acc @ ids),
               (log @ [(InventoryResetLocations after, locationsBody ids hasMore c)], bs)))"
  by (subst getAllLocationIds_loop.simps)
     (simp add: graphqlJson_logged scripted_def locationsBody_simps data_locations_def o_def)

lemma getAllLocationIds_three_pages:
  "getAllLocationIds (logged scripted)
       ([], [locationsBody [''A'', ''B''] True (Some ''c1''),
             locationsBody [''C''] True (Some ''c2''),
             locationsBody [] False None])
     = Some (Inr [''A'', ''B'', ''C''],
             ([(InventoryResetLocations None, locationsBody [''A'', ''B''] True (Some ''c1'')),
               (InventoryResetLocations (Some ''c1''), locationsBody [''C''] True (Some ''c2'')),
               (InventoryResetLocations (Some ''c2''), locationsBody [] False None)],
              []))"
  by (simp add: getAllLocationIds_def getAllLocationIds_loop_scripted orNull_def)

text \<open>
  Claim C6. A run of the pagination loop of getAllLocationIds that returns has sent
  its first request with a null cursor and every later request with the end cursor of
  the page before it; every page but the last reported \<open>hasNextPage\<close>, the last did
  not; and the result is the ids of the nodes of all pages, in order. After a page,
  the loop returns if the page does not report \<open>hasNextPage\<close> and otherwise goes on
  with the cursor set to the page's end cursor. On the pages [A, B], [C], [] with
  \<open>hasNextPage\<close> true, true, false it returns [A, B, C] after exactly three calls.
\<close>

theorem getAllLocationIds_pagination:
  "(getAllLocationIds (logged admin) ([], s) = Some (Inr ids, (log, s')) \<longrightarrow>
      (\<exists>pages. pages \<noteq> []
         \<and> map (data \<circ> snd) log = map (\<lambda>p. Some (LocationsData p)) pages
         \<and> map fst log
             = map InventoryResetLocations (None # map (\<lambda>p. orNull (endCursor p)) (butlast pages))
         \<and> (\<forall>p \<in> set (butlast pages). hasNextPage p)
         \<and> \<not> hasNextPage (last pages)
         \<and> ids = concat (map (\<lambda>p. map location_id (nodes p)) pages)))
   \<and> (admin (InventoryResetLocations after) s = (b, t) \<and> data b = Some (LocationsData p)
        \<and> \<not> hasNextPage p \<longrightarrow>
      getAllLocationIds_loop admin acc after s = Some (Inr (acc @ map location_id (nodes p)), t))
   \<and> (admin (InventoryResetLocations after) s = (b, t) \<and> data b = Some (LocationsData p)
        \<and> hasNextPage p \<longrightarrow>
      getAllLocationIds_loop admin acc after s
        = getAllLocationIds_loop admin (acc @ map location_id (nodes p)) (orNull (endCursor p)) t)
   \<and> getAllLocationIds (logged scripted)
       ([], [locationsBody [''A'', ''B''] True (Some ''c1''),
             locationsBody [''C''] True (Some ''c2''),
             locationsBody [] False None])
     = Some (Inr [''A'', ''B'', ''C''],
             ([(InventoryResetLocations None, locationsBody [''A'', ''B''] True (Some ''c1'')),
               (InventoryResetLocations (Some ''c1''), locationsBody [''C''] True (Some ''c2'')),
               (InventoryResetLocations (Some ''c2''), locationsBody [] False None)],
              []))"
proof (intro conjI impI)
  assume "getAllLocationIds (logged admin) ([], s) = Some (Inr ids, (log, s'))"
  from getAllLocationIds_loop_trace [OF this [unfolded getAllLocationIds_def]]
  show "\<exists>pages. pages \<noteq> []
         \<and> map (data \<circ> snd) log = map (\<lambda>p. Some (LocationsData p)) pages
         \<and> map fst log
             = map InventoryResetLocations (None # map (\<lambda>p. orNull (endCursor p)) (butlast pages))
         \<and> (\<forall>p \<in> set (butlast pages). hasNextPage p)
         \<and> \<not> hasNextPage (last pages)
         \<and> ids = concat (map (\<lambda>p. map location_id (nodes p)) pages)"
    by auto
next
  assume "admin (InventoryResetLocations after) s = (b, t) \<and> data b = Some (LocationsData p)
        \<and> \<not> hasNextPage p"
  then show "getAllLocationIds_loop admin acc after s
      = Some (Inr (acc @ map location_id (nodes p)), t)"
    by (simp add: getAllLocationIds_loop_last)
next
  assume "admin (InventoryResetLocations after) s = (b, t) \<and> data b = Some (LocationsData p)
        \<and> hasNextPage p"
  then show "getAllLocationIds_loop admin acc after s
        = getAllLocationIds_loop admin (acc @ map location_id (nodes p)) (orNull (endCursor p)) t"
    by (simp add: getAllLocationIds_loop_next)
next
  show "getAllLocationIds (logged scripted)
       ([], [locationsBody [''A'', ''B''] True (Some ''c1''),
             locationsBody [''C''] True (Some ''c2''),
             locationsBody [] False None])
     = Some (Inr [''A'', ''B'', ''C''],
             ([(InventoryResetLocations None, locationsBody [''A'', ''B''] True (Some ''c1'')),
               (InventoryResetLocations (Some ''c1''), locationsBody [''C''] True (Some ''c2'')),
               (InventoryResetLocations (Some ''c2''), locationsBody [] False None)],
              []))"
    by (rule getAllLocationIds_three_pages)
qed

theorem getAllLocationIds_pagination_witness:
  "(\<exists>pages. pages \<noteq> []
      \<and> map (data \<circ> snd)
            [(InventoryResetLocations None, locationsBody [''A'', ''B''] True (Some ''c1'')),
             (InventoryResetLocations (Some ''c1''), locationsBody [''C''] True (Some ''c2'')),
             (InventoryResetLocations (Some ''c2''), locationsBody [] False None)]
          = map (\<lambda>p. Some (LocationsData p)) pages
      \<and> \<not> hasNextPage (last pages)
      \<and> [''A'', ''B'', ''C''] = concat (map (\<lambda>p. map location_id (nodes p)) pages))
   \<and> getAllLocationIds_loop scripted [''A''] (Some ''c1'') [locationsBody [''C''] False None]
     = Some (Inr [''A'', ''C''], [])
   \<and> getAllLocationIds_loop scripted [''A''] None
       [locationsBody [''B''] True (Some ''c1''), locationsBody [''C''] False None]
     = getAllLocationIds_loop scripted [''A'', ''B''] (Some ''c1'') [locationsBody [''C''] False None]"
proof -
  let ?bs = "[locationsBody [''A'', ''B''] True (Some ''c1''),
             locationsBody [''C''] True (Some ''c2''),
             locationsBody [] False None]"
  let ?log = "[(InventoryResetLocations None, locationsBody [''A'', ''B''] True (Some ''c1'')),
             (InventoryResetLocations (Some ''c1''), locationsBody [''C''] True (Some ''c2'')),
             (InventoryResetLocations (Some ''c2''), locationsBody [] False None)]"
  have run: "getAllLocationIds (logged scripted) ([], ?bs) = Some (Inr [''A'', ''B'', ''C''], (?log, []))"
    by (rule getAllLocationIds_three_pages)
  have a: "\<exists>pages. pages \<noteq> []
      \<and> map (data \<circ> snd) ?log = map (\<lambda>p. Some (LocationsData p)) pages
      \<and> \<not> hasNextPage (last pages)
      \<and> [''A'', ''B'', ''C''] = concat (map (\<lambda>p. map location_id (nodes p)) pages)"
    using getAllLocationIds_pagination [where admin = scripted and s = ?bs
        and ids = "[''A'', ''B'', ''C'']" and log = ?log and s' = "[]"] run
    by blast
  have b: "getAllLocationIds_loop scripted [''A''] (Some ''c1'') [locationsBody [''C''] False None]
     = Some (Inr [''A'', ''C''], [])"
    using getAllLocationIds_pagination [where admin = scripted
        and s = "[locationsBody [''C''] False None]" and after = "Some ''c1''"
        and b = "locationsBody [''C''] False None" and t = "[]" and acc = "[''A'']"
        and p = "\<lparr>nodes = [\<lparr>location_id = ''C'', location_name = ''name of C''\<rparr>],
                  hasNextPage = False, endCursor = None\<rparr>"]
    by (simp add: scripted_def locationsBody_simps)
  have c: "getAllLocationIds_loop scripted [''A''] None
       [locationsBody [''B''] True (Some ''c1''), locationsBody [''C''] False None]
     = getAllLocationIds_loop scripted [''A'', ''B''] (Some ''c1'') [locationsBody [''C''] False None]"
    using getAllLocationIds_pagination [where admin = scripted
        and s = "[locationsBody [''B''] True (Some ''c1''), locationsBody [''C''] False None]"
        and after = None
        and b = "locationsBody [''B''] True (Some ''c1'')"
        and t = "[locationsBody [''C''] False None]" and acc = "[''A'']"
        and p = "\<lparr>nodes = [\<lparr>location_id = ''B'', location_name = ''name of B''\<rparr>],
                  hasNextPage = True, endCursor = Some ''c1''\<rparr>"]
    by (simp add: scripted_def locationsBody_simps orNull_def)
  from a b c show ?thesis by blast
qed

section \<open>The policy updates of the inventory reset\<close>

lemma fold_absorbPolicyUpdate_calls:
  "policyUpdateCalls (fold absorbPolicyUpdateError es r) = policyUpdateCalls r"
  by (induction es arbitrary: r) (simp_all add: absorbPolicyUpdateError_def)

lemma fold_absorbPolicyUpdate_variants:
  "policyUpdatedVariants (fold absorbPolicyUpdateError es r) = policyUpdatedVariants r"
  by (induction es arbitrary: r) (simp_all add: absorbPolicyUpdateError_def)

lemma fold_absorbPolicyUpdate_failures:
  "policyUpdateUserErrors (fold absorbPolicyUpdateError es r) = policyUpdateUserErrors r + length es"
  by (induction es arbitrary: r) (simp_all add: absorbPolicyUpdateError_def)

lemma denyChunks_counts:
  "denyChunks admin productId chunks r s = (Inr r', t) \<Longrightarrow>
   policyUpdatedVariants r' = policyUpdatedVariants r + length (concat chunks)
   \<and> policyUpdateCalls r' = policyUpdateCalls r + length chunks"
proof (induction chunks arbitrary: r s)
  case Nil
  then show ?case by simp
next
  case (Cons chunk rest)
  from Cons.prems obtain d s1 res where
    "graphqlJson admin (InventoryResetDenyPolicy productId (map (\<lambda>v. (v, DENY)) chunk)) s = (Inr d, s1)"
    and "data_productVariantsBulkUpdate d = Some res"
    and rest: "denyChunks admin productId rest
       (fold absorbPolicyUpdateError (orEmpty (bulkUpdate_userErrors res))
          (r\<lparr>policyUpdateCalls := policyUpdateCalls r + 1,
             policyUpdatedVariants := policyUpdatedVariants r + length chunk\<rparr>)) s1 = (Inr r', t)"
    by (auto split: prod.splits sum.splits option.splits)
  from Cons.IH [OF rest] show ?case
    by (simp add: fold_absorbPolicyUpdate_calls fold_absorbPolicyUpdate_variants)
qed

lemma concat_chunkArray: "concat (chunkArray arr n) = arr"
  by (cases "0 < n") (simp_all add: chunkArray_def concat_chunkArray_loop)

lemma denyProducts_counts:
  "denyProducts admin policyByProduct r s = (Inr r', t) \<Longrightarrow>
   policyUpdatedVariants r' = policyUpdatedVariants r + length (concat (map snd policyByProduct))"
proof (induction policyByProduct arbitrary: r s)
  case Nil
  then show ?case by simp
next
  case (Cons entry rest)
  obtain productId variantsForProduct where entry: "entry = (productId, variantsForProduct)"
    by (cases entry)
  from Cons.prems entry obtain mid s1 where
    c: "denyChunks admin productId (chunkArray variantsForProduct 250) r s = (Inr mid, s1)"
    and rest: "denyProducts admin rest mid s1 = (Inr r', t)"
    by (auto split: prod.splits sum.splits)
  from denyChunks_counts [OF c] Cons.IH [OF rest] entry show ?case
    by (simp add: concat_chunkArray)
qed

lemma denyChunks_single:
  "admin (InventoryResetDenyPolicy productId (map (\<lambda>v. (v, DENY)) chunk)) s = (b, t) \<Longrightarrow>
   data b = Some (ProductVariantsBulkUpdateData res) \<Longrightarrow>
   denyChunks admin productId [chunk] r s
     = (Inr (fold absorbPolicyUpdateError (orEmpty (bulkUpdate_userErrors res))
          (r\<lparr>policyUpdateCalls := policyUpdateCalls r + 1,
             policyUpdatedVariants := policyUpdatedVariants r + length chunk\<rparr>)), t)"
  by (simp add: graphqlJson_def data_productVariantsBulkUpdate_def)

lemmas reset_eval =
  graphqlJson_logged scripted_def body_of_def variantsBody_def bulkUpdateBody_def
  bulkUpdateResponse_def adjustBody_def adjustResponse_def nodesBody_def levelWith_def
  variantOf_def userError_of_def change7_def
  data_productVariants_def data_nodes_def data_inventoryAdjustQuantities_def
  data_productVariantsBulkUpdate_def
  resetPage_def collectVariant_def arrayFromSet_def setAdd_def getInventoryZeroingChanges_def
  zeroNode_def zeroLevel_def
  inventoryAdjustQuantitiesWithReasonFallback_def reasonFallbacks_def hasInvalidReason_def
  chunkArray_def chunkArray_loop.simps slice_def orEmpty_def orNull_def
  absorbPolicyUpdateError_def absorbInventoryAdjustError_def pushSample_def

lemma run_policy_update_failed:
  "runInventoryReset (logged scripted) [''loc1'']
     ([], [variantsBody [variantOf ''v1'' CONTINUE ''p1'' None] False None,
           bulkUpdateBody [] [userError_of ''PRODUCT_SUSPENDED'']])
   = Some (Inr \<lparr>ok = False, locations = 1, variantsScanned = 1, inventoryAdjustCalls = 0,
        inventoryAdjustUserErrors = 0, inventoryAdjustIgnoredNotStockedErrors = 0,
        policyUpdateCalls = 1, policyUpdatedVariants = 1, policyUpdateUserErrors = 1,
        sampleErrors = [\<lparr>scope = ''productVariantsBulkUpdate'',
           sample_message = ''error PRODUCT_SUSPENDED'', sample_code = Some ''PRODUCT_SUSPENDED''\<rparr>]\<rparr>,
      ([(InventoryResetVariants None, variantsBody [variantOf ''v1'' CONTINUE ''p1'' None] False None),
        (InventoryResetDenyPolicy ''p1'' [(''v1'', DENY)], bulkUpdateBody [] [userError_of ''PRODUCT_SUSPENDED''])],
       []))"
  unfolding runInventoryReset_def
  by (subst runInventoryReset_loop.simps) (simp add: reset_eval)

text \<open>
  Claim C10. In runInventoryReset, every dispatched productVariantsBulkUpdate chunk
  adds the full length of the chunk to policyUpdatedVariants, whatever user-errors its
  response carries, so that over the policy updates of a page the counter grows by the
  number of variants sent. The count therefore includes variants whose update failed:
  in the run shown, one variant is sent, the response reports a user-error and no
  updated variant, and the result has policyUpdatedVariants 1 with
  policyUpdateUserErrors 1.
\<close>

theorem policyUpdatedVariants_counts_sent:
  "(admin (InventoryResetDenyPolicy productId (map (\<lambda>v. (v, DENY)) chunk)) s = (b, t)
      \<and> data b = Some (ProductVariantsBulkUpdateData res) \<longrightarrow>
      (\<exists>r'. denyChunks admin productId [chunk] r s = (Inr r', t)
         \<and> policyUpdateCalls r' = policyUpdateCalls r + 1
         \<and> policyUpdatedVariants r' = policyUpdatedVariants r + length chunk
         \<and> policyUpdateUserErrors r' = policyUpdateUserErrors r
               + length (orEmpty (bulkUpdate_userErrors res))))
   \<and> (denyProducts admin policyByProduct r s = (Inr r'', t') \<longrightarrow>
      policyUpdatedVariants r'' = policyUpdatedVariants r + length (concat (map snd policyByProduct)))
   \<and> runInventoryReset (logged scripted) [''loc1'']
       ([], [variantsBody [variantOf ''v1'' CONTINUE ''p1'' None] False None,
             bulkUpdateBody [] [userError_of ''PRODUCT_SUSPENDED'']])
     = Some (Inr \<lparr>ok = False, locations = 1, variantsScanned = 1, inventoryAdjustCalls = 0,
          inventoryAdjustUserErrors = 0, inventoryAdjustIgnoredNotStockedErrors = 0,
          policyUpdateCalls = 1, policyUpdatedVariants = 1, policyUpdateUserErrors = 1,
          sampleErrors = [\<lparr>scope = ''productVariantsBulkUpdate'',
             sample_message = ''error PRODUCT_SUSPENDED'',
             sample_code = Some ''PRODUCT_SUSPENDED''\<rparr>]\<rparr>,
        ([(InventoryResetVariants None,
           variantsBody [variantOf ''v1'' CONTINUE ''p1'' None] False None),
          (InventoryResetDenyPolicy ''p1'' [(''v1'', DENY)],
           bulkUpdateBody [] [userError_of ''PRODUCT_SUSPENDED''])],
         []))
   \<and> updated_productVariants (bulkUpdateResponse [] [userError_of ''PRODUCT_SUSPENDED'']) = Some []"
proof (intro conjI impI)
  assume h: "admin (InventoryResetDenyPolicy productId (map (\<lambda>v. (v, DENY)) chunk)) s = (b, t)
      \<and> data b = Some (ProductVariantsBulkUpdateData res)"
  from h denyChunks_single [of admin productId chunk s b t res r]
  have "denyChunks admin productId [chunk] r s
     = (Inr (fold absorbPolicyUpdateError (orEmpty (bulkUpdate_userErrors res))
          (r\<lparr>policyUpdateCalls := policyUpdateCalls r + 1,
             policyUpdatedVariants := policyUpdatedVariants r + length chunk\<rparr>)), t)"
    by blast
  then show "\<exists>r'. denyChunks admin productId [chunk] r s = (Inr r', t)
         \<and> policyUpdateCalls r' = policyUpdateCalls r + 1
         \<and> policyUpdatedVariants r' = policyUpdatedVariants r + length chunk
         \<and> policyUpdateUserErrors r' = policyUpdateUserErrors r
               + length (orEmpty (bulkUpdate_userErrors res))"
    by (simp add: fold_absorbPolicyUpdate_calls fold_absorbPolicyUpdate_variants
          fold_absorbPolicyUpdate_failures)
next
  assume "denyProducts admin policyByProduct r s = (Inr r'', t')"
  then show "policyUpdatedVariants r'' = policyUpdatedVariants r + length (concat (map snd policyByProduct))"
    by (rule denyProducts_counts)
next
  show "updated_productVariants (bulkUpdateResponse [] [userError_of ''PRODUCT_SUSPENDED'']) = Some []"
    by (simp add: bulkUpdateResponse_def)
qed (rule run_policy_update_failed)

theorem policyUpdatedVariants_counts_sent_witness:
  "(\<exists>r'. denyChunks scripted ''p1'' [[''v1'', ''v2'']]
            \<lparr>ok = True, locations = 1, variantsScanned = 2, inventoryAdjustCalls = 0,
             inventoryAdjustUserErrors = 0, inventoryAdjustIgnoredNotStockedErrors = 0,
             policyUpdateCalls = 0, policyUpdatedVariants = 0, policyUpdateUserErrors = 0,
             sampleErrors = []\<rparr>
            [bulkUpdateBody [(''v1'', ''DENY'')] [userError_of ''PRODUCT_SUSPENDED'']]
          = (Inr r', [])
      \<and> policyUpdateCalls r' = 1 \<and> policyUpdatedVariants r' = 2 \<and> policyUpdateUserErrors r' = 1)
   \<and> (\<exists>r'. denyProducts scripted [(''p1'', [''v1'', ''v2''])]
            \<lparr>ok = True, locations = 1, variantsScanned = 2, inventoryAdjustCalls = 0,
             inventoryAdjustUserErrors = 0, inventoryAdjustIgnoredNotStockedErrors = 0,
             policyUpdateCalls = 0, policyUpdatedVariants = 0, policyUpdateUserErrors = 0,
             sampleErrors = []\<rparr>
            [bulkUpdateBody [(''v1'', ''DENY'')] [userError_of ''PRODUCT_SUSPENDED'']]
          = (Inr r', [])
      \<and> policyUpdatedVariants r' = 2)"
proof -
  let ?r = "\<lparr>ok = True, locations = 1, variantsScanned = 2, inventoryAdjustCalls = 0,
             inventoryAdjustUserErrors = 0, inventoryAdjustIgnoredNotStockedErrors = 0,
             policyUpdateCalls = 0, policyUpdatedVariants = 0, policyUpdateUserErrors = 0,
             sampleErrors = []\<rparr>"
  let ?b = "bulkUpdateBody [(''v1'', ''DENY'')] [userError_of ''PRODUCT_SUSPENDED'']"
  let ?r' = "?r\<lparr>ok := False, policyUpdateCalls := 1, policyUpdatedVariants := 2,
      policyUpdateUserErrors := 1,
      sampleErrors := [\<lparr>scope = ''productVariantsBulkUpdate'',
             sample_message = ''error PRODUCT_SUSPENDED'',
             sample_code = Some ''PRODUCT_SUSPENDED''\<rparr>]\<rparr>"
  have hyp: "scripted (InventoryResetDenyPolicy ''p1'' (map (\<lambda>v. (v, DENY)) [''v1'', ''v2''])) [?b]
        = (?b, [])
      \<and> data ?b = Some (ProductVariantsBulkUpdateData
            (bulkUpdateResponse [(''v1'', ''DENY'')] [userError_of ''PRODUCT_SUSPENDED'']))"
    by (simp add: scripted_def bulkUpdateBody_def body_of_def)
  have a: "\<exists>r'. denyChunks scripted ''p1'' [[''v1'', ''v2'']] ?r [?b] = (Inr r', [])
      \<and> policyUpdateCalls r' = 1 \<and> policyUpdatedVariants r' = 2 \<and> policyUpdateUserErrors r' = 1"
    using mp [OF conjunct1 [OF policyUpdatedVariants_counts_sent [where admin = scripted
        and productId = "''p1''" and chunk = "[''v1'', ''v2'']" and s = "[?b]" and b = ?b
        and t = "[]" and r = ?r
        and res = "bulkUpdateResponse [(''v1'', ''DENY'')] [userError_of ''PRODUCT_SUSPENDED'']"]]
      hyp]
    by (auto simp add: bulkUpdateResponse_def orEmpty_def simp del: denyChunks.simps)
  have run: "denyProducts scripted [(''p1'', [''v1'', ''v2''])] ?r [?b] = (Inr ?r', [])"
    by (simp add: graphqlJson_def reset_eval)
  have b: "policyUpdatedVariants ?r' = 2"
    using mp [OF conjunct1 [OF conjunct2 [OF policyUpdatedVariants_counts_sent [where admin = scripted
        and policyByProduct = "[(''p1'', [''v1'', ''v2''])]" and s = "[?b]" and r = ?r
        and r'' = ?r' and t' = "[]"]]] run]
    by simp
  from a b run show ?thesis by blast
qed

section \<open>Whole runs of the orchestrators\<close>

subsection \<open>Archive by vendor\<close>

lemma logMap_Nil: "logMap f [] = []"
  by (simp add: logMap_def)

lemma logMap_Cons: "logMap f ((req, b) # log) = f req b @ logMap f log"
  by (simp add: logMap_def)

lemma logMap_append: "logMap f (xs @ ys) = logMap f xs @ logMap f ys"
  by (simp add: logMap_def)

lemmas logMap_simps = logMap_Nil logMap_Cons logMap_append

lemmas archive_readings = fetchedProducts_def archiveRequests_def archiveAnswers_def

lemma archiveProductsByVendor_loop_rule:
  assumes run: "archiveProductsByVendor_loop admin q r after s = Some (Inr r', s')"
    and init: "Inv r s"
    and step: "\<And>r s after d s1 prods r2 s2.
       Inv r s \<Longrightarrow> graphqlJson admin (ProductsByVendor after q) s = (Inr d, s1) \<Longrightarrow>
       data_products d = Some prods \<Longrightarrow>
       archiveProducts admin (nodes prods) r s1 = (Inr r2, s2) \<Longrightarrow> Inv r2 s2"
  shows "Inv r' s'"
proof -
  have "\<forall>r' s'. a = admin \<longrightarrow> l = q \<longrightarrow> y = (Inr r', s') \<longrightarrow> Inv r s \<longrightarrow> Inv r' s'"
    if "archiveProductsByVendor_loop a l r after s = Some y" for a l r after s y
  proof (induction a l r after s y rule: archiveProductsByVendor_loop.raw_induct)
    case (1 f a l r after s y)
    show ?case
    proof (intro allI impI)
      fix r' s'
      assume a: "a = admin" and l: "l = q" and y: "y = (Inr r', s')" and inv: "Inv r s"
      from "1.hyps" a l y obtain d s1 prods r2 s2 where
        q: "graphqlJson admin (ProductsByVendor after q) s = (Inr d, s1)"
        and pv: "data_products d = Some prods"
        and page: "archiveProducts admin (nodes prods) r s1 = (Inr r2, s2)"
        and rest: "(if \<not> hasNextPage prods then Some (Inr r2, s2)
                    else f admin q r2 (orNull (endCursor prods)) s2) = Some (Inr r', s')"
        by (auto split: prod.splits sum.splits option.splits)
      from step [OF inv q pv page] have inv2: "Inv r2 s2" .
      show "Inv r' s'"
      proof (cases "hasNextPage prods")
        case False
        with rest inv2 show ?thesis by simp
      next
        case True
        with rest have "f admin q r2 (orNull (endCursor prods)) s2 = Some (Inr r', s')"
          by simp
        from "1.IH" [OF this] inv2 show ?thesis by blast
      qed
    qed
  qed (fact that)
  from this [OF run] init show ?thesis by blast
qed

text \<open>What one product adds to the log and to the result.\<close>

lemma archiveProduct_logged:
  assumes "archiveProduct (logged admin) p r (log0, s) = (Inr r', (log, s'))"
  shows "\<exists>new. log = log0 @ new
     \<and> fetchedProducts new = []
     \<and> archiveRequests new = (if prod_status p = ''ARCHIVED'' then [] else [prod_id p])
     \<and> (archive_ok r' \<longleftrightarrow> archive_ok r \<and> concat (archiveAnswers new) = [])
     \<and> userErrors r' = userErrors r + length (concat (archiveAnswers new))
     \<and> scanned r' = Suc (scanned r)
     \<and> alreadyArchived r' = alreadyArchived r + (if prod_status p = ''ARCHIVED'' then 1 else 0)
     \<and> archived r' = archived r + length (filter (\<lambda>es. es = []) (archiveAnswers new))"
proof (cases "prod_status p = ''ARCHIVED''")
  case True
  with assms show ?thesis
    by (intro exI [of _ "[]"]) (auto simp: archiveProduct_def Let_def archive_readings logMap_simps)
next
  case False
  obtain b s1 where call: "admin (ArchiveProduct (prod_id p)) s = (b, s1)"
    by (cases "admin (ArchiveProduct (prod_id p)) s")
  from assms False call obtain res where
    d: "data b = Some (ProductUpdateData res)"
    by (auto simp: archiveProduct_def Let_def graphqlJson_logged data_productUpdate_def
          split: option.splits gqlData.splits if_splits)
  from assms False call d show ?thesis
    by (intro exI [of _ "[(ArchiveProduct (prod_id p), b)]"])
       (auto simp: archiveProduct_def Let_def graphqlJson_logged data_productUpdate_def
          archive_readings logMap_simps split: if_splits)
qed

lemma archiveProducts_logged:
  "archiveProducts (logged admin) ps r (log0, s) = (Inr r', (log, s')) \<Longrightarrow>
   \<exists>new. log = log0 @ new
     \<and> fetchedProducts new = []
     \<and> archiveRequests new = map prod_id (filter (\<lambda>p. prod_status p \<noteq> ''ARCHIVED'') ps)
     \<and> (archive_ok r' \<longleftrightarrow> archive_ok r \<and> concat (archiveAnswers new) = [])
     \<and> userErrors r' = userErrors r + length (concat (archiveAnswers new))
     \<and> scanned r' = scanned r + length ps
     \<and> alreadyArchived r' = alreadyArchived r + length (filter (\<lambda>p. prod_status p = ''ARCHIVED'') ps)
     \<and> archived r' = archived r + length (filter (\<lambda>es. es = []) (archiveAnswers new))"
proof (induction ps arbitrary: r log0 s)
  case Nil
  then show ?case
    by (intro exI [of _ "[]"]) (simp add: archive_readings logMap_simps)
next
  case (Cons p ps)
  from Cons.prems obtain mid log1 s1 where
    one: "archiveProduct (logged admin) p r (log0, s) = (Inr mid, (log1, s1))"
    and rest: "archiveProducts (logged admin) ps mid (log1, s1) = (Inr r', (log, s'))"
    by (auto split: prod.splits sum.splits)
  from archiveProduct_logged [OF one] obtain n1 where n1:
    "log1 = log0 @ n1" "fetchedProducts n1 = []"
    "archiveRequests n1 = (if prod_status p = ''ARCHIVED'' then [] else [prod_id p])"
    "archive_ok mid \<longleftrightarrow> archive_ok r \<and> concat (archiveAnswers n1) = []"
    "userErrors mid = userErrors r + length (concat (archiveAnswers n1))"
    "scanned mid = Suc (scanned r)"
    "alreadyArchived mid = alreadyArchived r + (if prod_status p = ''ARCHIVED'' then 1 else 0)"
    "archived mid = archived r + length (filter (\<lambda>es. es = []) (archiveAnswers n1))"
    by blast
  from Cons.IH [OF rest] obtain n2 where n2:
    "log = log1 @ n2" "fetchedProducts n2 = []"
    "archiveRequests n2 = map prod_id (filter (\<lambda>p. prod_status p \<noteq> ''ARCHIVED'') ps)"
    "archive_ok r' \<longleftrightarrow> archive_ok mid \<and> concat (archiveAnswers n2) = []"
    "userErrors r' = userErrors mid + length (concat (archiveAnswers n2))"
    "scanned r' = scanned mid + length ps"
    "alreadyArchived r' = alreadyArchived mid + length (filter (\<lambda>p. prod_status p = ''ARCHIVED'') ps)"
    "archived r' = archived mid + length (filter (\<lambda>es. es = []) (archiveAnswers n2))"
    by blast
  have app: "fetchedProducts (n1 @ n2) = fetchedProducts n1 @ fetchedProducts n2"
    "archiveRequests (n1 @ n2) = archiveRequests n1 @ archiveRequests n2"
    "archiveAnswers (n1 @ n2) = archiveAnswers n1 @ archiveAnswers n2"
    by (simp_all add: archive_readings logMap_append)
  show ?case
  proof (intro exI [of _ "n1 @ n2"] conjI)
    show "log = log0 @ n1 @ n2" using n1(1) n2(1) by simp
    show "fetchedProducts (n1 @ n2) = []" using n1(2) n2(2) app by simp
    show "archiveRequests (n1 @ n2) = map prod_id (filter (\<lambda>p. prod_status p \<noteq> ''ARCHIVED'') (p # ps))"
      using n1(3) n2(3) app by simp
    show "archive_ok r' \<longleftrightarrow> archive_ok r \<and> concat (archiveAnswers (n1 @ n2)) = []"
      using n1(4) n2(4) app by simp
    show "userErrors r' = userErrors r + length (concat (archiveAnswers (n1 @ n2)))"
      using n1(5) n2(5) app by simp
    show "scanned r' = scanned r + length (p # ps)" using n1(6) n2(6) by simp
    show "alreadyArchived r' = alreadyArchived r
            + length (filter (\<lambda>p. prod_status p = ''ARCHIVED'') (p # ps))"
      using n1(7) n2(7) by simp
    show "archived r' = archived r + length (filter (\<lambda>es. es = []) (archiveAnswers (n1 @ n2)))"
      using n1(8) n2(8) app by simp
  qed
qed

lemma archiveProductsByVendor_logged:
  assumes "archiveProductsByVendor (logged admin) vendor ([], s) = Some (Inr r, (log, s'))"
  shows "(archive_ok r \<longleftrightarrow> userErrors r = 0)
     \<and> userErrors r = length (concat (archiveAnswers log))
     \<and> archiveRequests log
         = map prod_id (filter (\<lambda>p. prod_status p \<noteq> ''ARCHIVED'') (fetchedProducts log))
     \<and> scanned r = length (fetchedProducts log)
     \<and> alreadyArchived r = length (filter (\<lambda>p. prod_status p = ''ARCHIVED'') (fetchedProducts log))
     \<and> archived r = length (filter (\<lambda>es. es = []) (archiveAnswers log))"
proof -
  let ?Inv = "\<lambda>r ls. (archive_ok r \<longleftrightarrow> userErrors r = 0)
     \<and> userErrors r = length (concat (archiveAnswers (fst ls)))
     \<and> archiveRequests (fst ls)
         = map prod_id (filter (\<lambda>p. prod_status p \<noteq> ''ARCHIVED'') (fetchedProducts (fst ls)))
     \<and> scanned r = length (fetchedProducts (fst ls))
     \<and> alreadyArchived r
         = length (filter (\<lambda>p. prod_status p = ''ARCHIVED'') (fetchedProducts (fst ls)))
     \<and> archived r = length (filter (\<lambda>es. es = []) (archiveAnswers (fst ls)))"
  have "?Inv r (log, s')"
  proof (rule archiveProductsByVendor_loop_rule
      [where Inv = ?Inv, OF assms [unfolded archiveProductsByVendor_def]])
    show "?Inv \<lparr>archive_ok = True, scanned = 0, archived = 0, alreadyArchived = 0,
        userErrors = 0, archive_sampleErrors = []\<rparr> ([], s)"
      by (simp add: archive_readings logMap_simps)
  next
    fix r ls after d ls1 prods r2 ls2
    assume inv: "?Inv r ls"
      and q: "graphqlJson (logged admin) (ProductsByVendor after (''vendor:'' @ vendor)) ls = (Inr d, ls1)"
      and d: "data_products d = Some prods"
      and page: "archiveProducts (logged admin) (nodes prods) r ls1 = (Inr r2, ls2)"
    obtain log0 s0 where ls: "ls = (log0, s0)" by (cases ls)
    obtain log1 s1 where ls1: "ls1 = (log1, s1)" by (cases ls1)
    obtain log2 s2 where ls2: "ls2 = (log2, s2)" by (cases ls2)
    from q ls ls1 d obtain b where
      b: "log1 = log0 @ [(ProductsByVendor after (''vendor:'' @ vendor), b)]"
        "data b = Some (ProductsData prods)"
      by (auto simp: graphqlJson_logged data_products_def
            split: prod.splits option.splits gqlData.splits)
    from archiveProducts_logged [OF page [unfolded ls1 ls2]] obtain new where new:
      "log2 = log1 @ new" "fetchedProducts new = []"
      "archiveRequests new = map prod_id (filter (\<lambda>p. prod_status p \<noteq> ''ARCHIVED'') (nodes prods))"
      "archive_ok r2 \<longleftrightarrow> archive_ok r \<and> concat (archiveAnswers new) = []"
      "userErrors r2 = userErrors r + length (concat (archiveAnswers new))"
      "scanned r2 = scanned r + length (nodes prods)"
      "alreadyArchived r2 = alreadyArchived r
         + length (filter (\<lambda>p. prod_status p = ''ARCHIVED'') (nodes prods))"
      "archived r2 = archived r + length (filter (\<lambda>es. es = []) (archiveAnswers new))"
      by blast
    have page_readings:
      "fetchedProducts log2 = fetchedProducts log0 @ nodes prods"
      "archiveRequests log2 = archiveRequests log0 @ archiveRequests new"
      "archiveAnswers log2 = archiveAnswers log0 @ archiveAnswers new"
      using new(1,2) b by (simp_all add: archive_readings logMap_simps)
    from inv new(3-) page_readings show "?Inv r2 ls2"
      unfolding ls ls2 by auto
  qed
  then show ?thesis by simp
qed

subsection \<open>Policy scan\<close>

lemma scanInventoryPolicies_loop_rule:
  assumes run: "scanInventoryPolicies_loop admin st after s = Some (Inr res, s')"
    and init: "Inv st s"
    and step: "\<And>st s after d s1 pv.
       Inv st s \<Longrightarrow> graphqlJson admin (InventoryPolicyScanVariants after) s = (Inr d, s1) \<Longrightarrow>
       data_scanVariants d = Some pv \<Longrightarrow> Inv (scanPage (nodes pv) st) s1"
  shows "\<exists>st'. res = scanFinish st' \<and> Inv st' s'"
proof -
  have "\<forall>res s'. a = admin \<longrightarrow> y = (Inr res, s') \<longrightarrow> Inv st s \<longrightarrow> (\<exists>st'. res = scanFinish st' \<and> Inv st' s')"
    if "scanInventoryPolicies_loop a st after s = Some y" for a st after s y
  proof (induction a st after s y rule: scanInventoryPolicies_loop.raw_induct)
    case (1 f a st after s y)
    show ?case
    proof (intro allI impI)
      fix res s'
      assume a: "a = admin" and y: "y = (Inr res, s')" and inv: "Inv st s"
      from "1.hyps" a y obtain d s1 pv where
        q: "graphqlJson admin (InventoryPolicyScanVariants after) s = (Inr d, s1)"
        and pv: "data_scanVariants d = Some pv"
        and rest: "(if \<not> hasNextPage pv then Some (Inr (scanFinish (scanPage (nodes pv) st)), s1)
                    else f admin (scanPage (nodes pv) st) (orNull (endCursor pv)) s1)
                   = Some (Inr res, s')"
        by (auto simp: Let_def split: prod.splits sum.splits option.splits)
      from step [OF inv q pv] have inv2: "Inv (scanPage (nodes pv) st) s1" .
      show "\<exists>st'. res = scanFinish st' \<and> Inv st' s'"
      proof (cases "hasNextPage pv")
        case False
        with rest inv2 show ?thesis by auto
      next
        case True
        with rest have "f admin (scanPage (nodes pv) st) (orNull (endCursor pv)) s1 = Some (Inr res, s')"
          by simp
        from "1.IH" [OF this] inv2 show ?thesis by blast
      qed
    qed
  qed (fact that)
  from this [OF run] init show ?thesis by blast
qed

lemma scanVariantStep_result:
  "scan_ok (scan_result (scanVariantStep v st))
     = (scan_ok (scan_result st) \<and> scan_inventoryPolicy v \<noteq> CONTINUE)"
  "variantsWithContinue (scan_result (scanVariantStep v st))
     = variantsWithContinue (scan_result st) + (if scan_inventoryPolicy v = CONTINUE then 1 else 0)"
  "scan_variantsScanned (scan_result (scanVariantStep v st)) = scan_variantsScanned (scan_result st)"
  by (simp_all add: scanVariantStep_def Let_def)

lemma fold_scanVariantStep_result:
  "scan_ok (scan_result (fold scanVariantStep vs st))
     = (scan_ok (scan_result st) \<and> filter (\<lambda>v. scan_inventoryPolicy v = CONTINUE) vs = [])"
  "variantsWithContinue (scan_result (fold scanVariantStep vs st))
     = variantsWithContinue (scan_result st)
       + length (filter (\<lambda>v. scan_inventoryPolicy v = CONTINUE) vs)"
  "scan_variantsScanned (scan_result (fold scanVariantStep vs st)) = scan_variantsScanned (scan_result st)"
  by (induction vs arbitrary: st) (auto simp: scanVariantStep_result)

lemma scanPage_result:
  "scan_ok (scan_result (scanPage vs st))
     = (scan_ok (scan_result st) \<and> filter (\<lambda>v. scan_inventoryPolicy v = CONTINUE) vs = [])"
  "variantsWithContinue (scan_result (scanPage vs st))
     = variantsWithContinue (scan_result st)
       + length (filter (\<lambda>v. scan_inventoryPolicy v = CONTINUE) vs)"
  "scan_variantsScanned (scan_result (scanPage vs st))
     = scan_variantsScanned (scan_result st) + length vs"
  by (simp_all add: scanPage_def fold_scanVariantStep_result)

lemma scanInventoryPolicies_logged:
  assumes "scanInventoryPolicies (logged admin) ([], s) = Some (Inr r, (log, s'))"
  shows "(scan_ok r \<longleftrightarrow> variantsWithContinue r = 0)
     \<and> variantsWithContinue r
         = length (filter (\<lambda>v. scan_inventoryPolicy v = CONTINUE) (fetchedScanVariants log))
     \<and> scan_variantsScanned r = length (fetchedScanVariants log)"
proof -
  let ?Inv = "\<lambda>(st::scanState) ls. (scan_ok (scan_result st) \<longleftrightarrow> variantsWithContinue (scan_result st) = 0)
     \<and> variantsWithContinue (scan_result st)
         = length (filter (\<lambda>v. scan_inventoryPolicy v = CONTINUE) (fetchedScanVariants (fst ls)))
     \<and> scan_variantsScanned (scan_result st) = length (fetchedScanVariants (fst ls))"
  have "\<exists>st'. r = scanFinish st' \<and> ?Inv st' (log, s')"
  proof (rule scanInventoryPolicies_loop_rule
      [where Inv = ?Inv, OF assms [unfolded scanInventoryPolicies_def]])
    show "?Inv \<lparr>scan_result =
          \<lparr>scan_ok = True, productsScanned = 0, scan_variantsScanned = 0,
           productsWithContinue = 0, variantsWithContinue = 0, sampleOffenders = []\<rparr>,
        productIds = [], productIdsWithContinue = []\<rparr> ([], s)"
      by (simp add: fetchedScanVariants_def logMap_simps)
  next
    fix st :: scanState and ls after d ls1 pv
    assume inv: "?Inv st ls"
      and q: "graphqlJson (logged admin) (InventoryPolicyScanVariants after) ls = (Inr d, ls1)"
      and d: "data_scanVariants d = Some pv"
    obtain log0 s0 where ls: "ls = (log0, s0)" by (cases ls)
    obtain log1 s1 where ls1: "ls1 = (log1, s1)" by (cases ls1)
    from q ls ls1 d obtain b where
      b: "log1 = log0 @ [(InventoryPolicyScanVariants after, b)]"
        "data b = Some (ScanVariantsData pv)"
      by (auto simp: graphqlJson_logged data_scanVariants_def
            split: prod.splits option.splits gqlData.splits)
    then have "fetchedScanVariants log1 = fetchedScanVariants log0 @ nodes pv"
      by (simp add: fetchedScanVariants_def logMap_simps)
    with inv show "?Inv (scanPage (nodes pv) st) ls1"
      unfolding ls ls1 by (auto simp: scanPage_result)
  qed
  then show ?thesis by (auto simp: scanFinish_def)
qed

subsection \<open>Inventory reset\<close>

lemma runInventoryReset_loop_rule:
  assumes run: "runInventoryReset_loop admin locationIds r after s = Some (Inr r', s')"
    and init: "Inv r s"
    and step: "\<And>r s after d s1 pv r2 s2.
       Inv r s \<Longrightarrow> graphqlJson admin (InventoryResetVariants after) s = (Inr d, s1) \<Longrightarrow>
       data_productVariants d = Some pv \<Longrightarrow>
       resetPage admin locationIds (nodes pv) r s1 = (Inr r2, s2) \<Longrightarrow> Inv r2 s2"
  shows "Inv r' s'"
proof -
  have "\<forall>r' s'. a = admin \<longrightarrow> l = locationIds \<longrightarrow> y = (Inr r', s') \<longrightarrow> Inv r s \<longrightarrow> Inv r' s'"
    if "runInventoryReset_loop a l r after s = Some y" for a l r after s y
  proof (induction a l r after s y rule: runInventoryReset_loop.raw_induct)
    case (1 f a l r after s y)
    show ?case
    proof (intro allI impI)
      fix r' s'
      assume a: "a = admin" and l: "l = locationIds" and y: "y = (Inr r', s')" and inv: "Inv r s"
      from "1.hyps" a l y obtain d s1 pv r2 s2 where
        q: "graphqlJson admin (InventoryResetVariants after) s = (Inr d, s1)"
        and pv: "data_productVariants d = Some pv"
        and page: "resetPage admin locationIds (nodes pv) r s1 = (Inr r2, s2)"
        and rest: "(if \<not> hasNextPage pv then Some (Inr r2, s2)
                    else f admin locationIds r2 (orNull (endCursor pv)) s2) = Some (Inr r', s')"
        by (auto split: prod.splits sum.splits option.splits)
      from step [OF inv q pv page] have inv2: "Inv r2 s2" .
      show "Inv r' s'"
      proof (cases "hasNextPage pv")
        case False
        with rest inv2 show ?thesis by simp
      next
        case True
        with rest have "f admin locationIds r2 (orNull (endCursor pv)) s2 = Some (Inr r', s')"
          by simp
        from "1.IH" [OF this] inv2 show ?thesis by blast
      qed
    qed
  qed (fact that)
  from this [OF run] init show ?thesis by blast
qed

lemmas reset_readings =
  fetchedVariantPages_def denyPolicyRequests_def denyPolicyErrors_def adjustRequests_def
  returnedAdjustAnswers_def

lemma returnedAdjustErrors_simps:
  "returnedAdjustErrors [] = []"
  "returnedAdjustErrors (xs @ ys) = returnedAdjustErrors xs @ returnedAdjustErrors ys"
  by (simp_all add: returnedAdjustErrors_def returnedAdjustAnswers_def logMap_simps)

lemma reset_readings_append:
  "fetchedVariantPages (xs @ ys) = fetchedVariantPages xs @ fetchedVariantPages ys"
  "denyPolicyRequests (xs @ ys) = denyPolicyRequests xs @ denyPolicyRequests ys"
  "denyPolicyErrors (xs @ ys) = denyPolicyErrors xs @ denyPolicyErrors ys"
  "adjustRequests (xs @ ys) = adjustRequests xs @ adjustRequests ys"
  "returnedAdjustAnswers (xs @ ys) = returnedAdjustAnswers xs @ returnedAdjustAnswers ys"
  by (simp_all add: reset_readings logMap_simps)

lemma reset_readings_Nil:
  "fetchedVariantPages [] = []" "denyPolicyRequests [] = []" "denyPolicyErrors [] = []"
  "adjustRequests [] = []" "returnedAdjustAnswers [] = []"
  by (simp_all add: reset_readings logMap_simps)

lemma resetAccounts_refl: "resetAccounts r [] r"
  by (simp add: resetAccounts_def reset_readings_Nil returnedAdjustErrors_simps)

lemma resetAccounts_trans:
  "resetAccounts r n1 m \<Longrightarrow> resetAccounts m n2 r' \<Longrightarrow> resetAccounts r (n1 @ n2) r'"
  by (auto simp: resetAccounts_def reset_readings_append returnedAdjustErrors_simps)

text \<open>The queries for inventory levels leave every reading of the reset untouched.\<close>

lemma levels_requests_readings:
  "map fst new = map InventoryResetInventoryLevels cs \<Longrightarrow>
   fetchedVariantPages new = [] \<and> denyPolicyRequests new = [] \<and> denyPolicyErrors new = []
   \<and> adjustRequests new = [] \<and> returnedAdjustAnswers new = []"
proof (induction new arbitrary: cs)
  case Nil
  then show ?case by (simp add: reset_readings_Nil)
next
  case (Cons e new)
  then obtain c cs' where cs: "cs = c # cs'" by (cases cs) auto
  obtain req b where e: "e = (req, b)" by (cases e)
  from Cons.prems cs e have req: "req = InventoryResetInventoryLevels c"
    and rest: "map fst new = map InventoryResetInventoryLevels cs'" by auto
  from Cons.IH [OF rest] e req show ?case
    by (simp add: reset_readings logMap_simps)
qed

lemma getInventoryZeroingChanges_accounts:
  assumes "getInventoryZeroingChanges (logged admin) ids allowed (log0, s) = (Inr changes, (log, s'))"
  shows "\<exists>new. log = log0 @ new \<and> fetchedVariantPages new = [] \<and> denyPolicyRequests new = []
           \<and> adjustRequests new = [] \<and> resetAccounts r new r"
proof -
  from zeroingChunks_logged [OF assms [unfolded getInventoryZeroingChanges_def]]
  obtain new where new: "log = log0 @ new"
    "map fst new = map InventoryResetInventoryLevels (chunkArray ids 50)"
    by blast
  from levels_requests_readings [OF new(2)] new(1) show ?thesis
    by (intro exI [of _ new]) (simp add: resetAccounts_def returnedAdjustErrors_def)
qed

lemma adjust_entry_readings:
  "fetchedVariantPages [(InventoryResetAdjustQuantities name reason changes, b)] = []"
  "denyPolicyRequests [(InventoryResetAdjustQuantities name reason changes, b)] = []"
  "denyPolicyErrors [(InventoryResetAdjustQuantities name reason changes, b)] = []"
  "adjustRequests [(InventoryResetAdjustQuantities name reason changes, b)] = [(reason, changes)]"
  "data b = Some (InventoryAdjustQuantitiesData resp) \<Longrightarrow>
   returnedAdjustAnswers [(InventoryResetAdjustQuantities name reason changes, b)]
     = (if \<not> hasInvalidReason resp \<or> reason = ''other'' then [resp] else [])"
  by (simp_all add: reset_readings logMap_simps)

lemma reasonFallback_logged:
  assumes run: "inventoryAdjustQuantitiesWithReasonFallback (logged admin) name changes (log0, s)
            = (Inr ro, (log, s'))"
  shows "\<exists>new resp. ro = Some resp \<and> log = log0 @ new
     \<and> returnedAdjustAnswers new = [resp]
     \<and> fetchedVariantPages new = [] \<and> denyPolicyRequests new = [] \<and> denyPolicyErrors new = []
     \<and> adjustRequests new = map (\<lambda>reason. (reason, changes)) (take (length new) reasonFallbacks)
     \<and> new \<noteq> [] \<and> length new \<le> 3"
proof -
  let ?q = "\<lambda>reason. InventoryResetAdjustQuantities name reason changes"
  note unf = inventoryAdjustQuantitiesWithReasonFallback_def reasonFallbacks_def
    graphqlJson_logged data_inventoryAdjustQuantities_def
  obtain b1 s1 where c1: "admin (?q ''correction'') s = (b1, s1)"
    by (cases "admin (?q ''correction'') s")
  from run c1 obtain r1 where d1: "data b1 = Some (InventoryAdjustQuantitiesData r1)"
    by (auto simp: unf split: option.splits gqlData.splits if_splits prod.splits)
  show ?thesis
  proof (cases "hasInvalidReason r1")
    case False
    with run c1 d1 have "ro = Some r1" and "log = log0 @ [(?q ''correction'', b1)]"
      by (simp_all add: unf)
    with d1 False show ?thesis
      by (intro exI [of _ "[(?q ''correction'', b1)]"] exI [of _ r1])
         (simp add: adjust_entry_readings reasonFallbacks_def)
  next
    case i1: True
    obtain b2 s2 where c2: "admin (?q ''cycle_count'') s1 = (b2, s2)"
      by (cases "admin (?q ''cycle_count'') s1")
    from run c1 d1 i1 c2 obtain r2 where d2: "data b2 = Some (InventoryAdjustQuantitiesData r2)"
      by (auto simp: unf split: option.splits gqlData.splits if_splits prod.splits)
    show ?thesis
    proof (cases "hasInvalidReason r2")
      case False
      with run c1 d1 i1 c2 d2 have "ro = Some r2"
        and "log = log0 @ [(?q ''correction'', b1), (?q ''cycle_count'', b2)]"
        by (simp_all add: unf)
      moreover have "returnedAdjustAnswers ([(?q ''correction'', b1)] @ [(?q ''cycle_count'', b2)]) = [r2]"
        "fetchedVariantPages ([(?q ''correction'', b1)] @ [(?q ''cycle_count'', b2)]) = []"
        "denyPolicyRequests ([(?q ''correction'', b1)] @ [(?q ''cycle_count'', b2)]) = []"
        "denyPolicyErrors ([(?q ''correction'', b1)] @ [(?q ''cycle_count'', b2)]) = []"
        "adjustRequests ([(?q ''correction'', b1)] @ [(?q ''cycle_count'', b2)])
           = [(''correction'', changes), (''cycle_count'', changes)]"
        using d1 d2 i1 False
        by (simp_all only: reset_readings_append adjust_entry_readings) simp_all
      ultimately show ?thesis
        by (intro exI [of _ "[(?q ''correction'', b1), (?q ''cycle_count'', b2)]"] exI [of _ r2])
           (simp add: reasonFallbacks_def)
    next
      case i2: True
      obtain b3 s3 where c3: "admin (?q ''other'') s2 = (b3, s3)"
        by (cases "admin (?q ''other'') s2")
      from run c1 d1 i1 c2 d2 i2 c3 obtain r3 where d3: "data b3 = Some (InventoryAdjustQuantitiesData r3)"
        by (auto simp: unf split: option.splits gqlData.splits if_splits prod.splits)
      from run c1 d1 i1 c2 d2 i2 c3 d3 have "ro = Some r3"
        and "log = log0 @ [(?q ''correction'', b1), (?q ''cycle_count'', b2), (?q ''other'', b3)]"
        by (auto simp: unf split: if_splits)
      moreover have
        "returnedAdjustAnswers ([(?q ''correction'', b1)] @ [(?q ''cycle_count'', b2)] @ [(?q ''other'', b3)]) = [r3]"
        "fetchedVariantPages ([(?q ''correction'', b1)] @ [(?q ''cycle_count'', b2)] @ [(?q ''other'', b3)]) = []"
        "denyPolicyRequests ([(?q ''correction'', b1)] @ [(?q ''cycle_count'', b2)] @ [(?q ''other'', b3)]) = []"
        "denyPolicyErrors ([(?q ''correction'', b1)] @ [(?q ''cycle_count'', b2)] @ [(?q ''other'', b3)]) = []"
        "adjustRequests ([(?q ''correction'', b1)] @ [(?q ''cycle_count'', b2)] @ [(?q ''other'', b3)])
           = [(''correction'', changes), (''cycle_count'', changes), (''other'', changes)]"
        using d1 d2 d3 i1 i2
        by (simp_all only: reset_readings_append adjust_entry_readings) simp_all
      ultimately show ?thesis
        by (intro exI [of _ "[(?q ''correction'', b1), (?q ''cycle_count'', b2), (?q ''other'', b3)]"]
              exI [of _ r3])
           (simp add: reasonFallbacks_def)
    qed
  qed
qed

lemma fold_absorbInventoryAdjust_frame:
  "policyUpdateCalls (fold absorbInventoryAdjustError es r) = policyUpdateCalls r"
  "policyUpdatedVariants (fold absorbInventoryAdjustError es r) = policyUpdatedVariants r"
  "policyUpdateUserErrors (fold absorbInventoryAdjustError es r) = policyUpdateUserErrors r"
  "inventoryAdjustCalls (fold absorbInventoryAdjustError es r) = inventoryAdjustCalls r"
  "variantsScanned (fold absorbInventoryAdjustError es r) = variantsScanned r"
  "locations (fold absorbInventoryAdjustError es r) = locations r"
  by (induction es arbitrary: r) (simp_all add: absorbInventoryAdjustError_def)

lemma fold_absorbPolicyUpdate_frame:
  "ok (fold absorbPolicyUpdateError es r) = (ok r \<and> es = [])"
  "inventoryAdjustCalls (fold absorbPolicyUpdateError es r) = inventoryAdjustCalls r"
  "inventoryAdjustUserErrors (fold absorbPolicyUpdateError es r) = inventoryAdjustUserErrors r"
  "inventoryAdjustIgnoredNotStockedErrors (fold absorbPolicyUpdateError es r)
     = inventoryAdjustIgnoredNotStockedErrors r"
  "variantsScanned (fold absorbPolicyUpdateError es r) = variantsScanned r"
  "locations (fold absorbPolicyUpdateError es r) = locations r"
  by (induction es arbitrary: r) (simp_all add: absorbPolicyUpdateError_def)

lemma adjust_step_accounts:
  assumes "returnedAdjustAnswers new = [resp]" "denyPolicyRequests new = []" "denyPolicyErrors new = []"
  shows "resetAccounts r new
           (fold absorbInventoryAdjustError (orEmpty (adjust_userErrors resp))
              (r\<lparr>inventoryAdjustCalls := inventoryAdjustCalls r + 1\<rparr>))"
  using assms
  by (simp add: resetAccounts_def returnedAdjustErrors_def fold_absorbInventoryAdjust_frame
        fold_absorbInventoryAdjust_ignored fold_absorbInventoryAdjust_failures
        fold_absorbInventoryAdjust_ok)

lemma adjustChunks_accounts:
  "adjustChunks (logged admin) chunks r (log0, s) = (Inr r', (log, s')) \<Longrightarrow>
   \<exists>new. log = log0 @ new \<and> fetchedVariantPages new = [] \<and> denyPolicyRequests new = []
     \<and> resetAccounts r new r' \<and> variantsScanned r' = variantsScanned r
     \<and> length (returnedAdjustAnswers new) = length chunks
     \<and> length (adjustRequests new) \<le> 3 * length chunks"
proof (induction chunks arbitrary: r log0 s)
  case Nil
  then show ?case
    by (intro exI [of _ "[]"]) (simp add: reset_readings_Nil resetAccounts_refl)
next
  case (Cons chunk rest)
  from Cons.prems obtain resp log1 s1 where
    one: "inventoryAdjustQuantitiesWithReasonFallback (logged admin) ''available'' chunk (log0, s)
            = (Inr (Some resp), (log1, s1))"
    and more: "adjustChunks (logged admin) rest
         (fold absorbInventoryAdjustError (orEmpty (adjust_userErrors resp))
            (r\<lparr>inventoryAdjustCalls := inventoryAdjustCalls r + 1\<rparr>)) (log1, s1)
         = (Inr r', (log, s'))"
    by (auto split: prod.splits sum.splits option.splits)
  let ?mid = "fold absorbInventoryAdjustError (orEmpty (adjust_userErrors resp))
            (r\<lparr>inventoryAdjustCalls := inventoryAdjustCalls r + 1\<rparr>)"
  from reasonFallback_logged [OF one] obtain n1 where n1:
    "log1 = log0 @ n1" "returnedAdjustAnswers n1 = [resp]" "fetchedVariantPages n1 = []"
    "denyPolicyRequests n1 = []" "denyPolicyErrors n1 = []"
    "adjustRequests n1 = map (\<lambda>reason. (reason, chunk)) (take (length n1) reasonFallbacks)"
    "length n1 \<le> 3"
    by auto
  from Cons.IH [OF more] obtain n2 where n2:
    "log = log1 @ n2" "fetchedVariantPages n2 = []" "denyPolicyRequests n2 = []"
    "resetAccounts ?mid n2 r'" "variantsScanned r' = variantsScanned ?mid"
    "length (returnedAdjustAnswers n2) = length rest"
    "length (adjustRequests n2) \<le> 3 * length rest"
    by blast
  have acc: "resetAccounts r (n1 @ n2) r'"
    by (rule resetAccounts_trans [OF adjust_step_accounts [OF n1(2,4,5)] n2(4)])
  have "length (adjustRequests n1) \<le> 3" using n1(6,7) by simp
  with n1 n2 acc show ?case
    by (intro exI [of _ "n1 @ n2"])
       (simp add: reset_readings_append fold_absorbInventoryAdjust_frame)
qed

lemma deny_entry_readings:
  "fetchedVariantPages [(InventoryResetDenyPolicy p vs, b)] = []"
  "denyPolicyRequests [(InventoryResetDenyPolicy p vs, b)] = [(p, vs)]"
  "adjustRequests [(InventoryResetDenyPolicy p vs, b)] = []"
  "returnedAdjustAnswers [(InventoryResetDenyPolicy p vs, b)] = []"
  "data b = Some (ProductVariantsBulkUpdateData res) \<Longrightarrow>
   denyPolicyErrors [(InventoryResetDenyPolicy p vs, b)] = orEmpty (bulkUpdate_userErrors res)"
  by (simp_all add: reset_readings logMap_simps)

lemma deny_step_accounts:
  assumes "data b = Some (ProductVariantsBulkUpdateData res)"
  shows "resetAccounts r [(InventoryResetDenyPolicy p (map (\<lambda>v. (v, DENY)) chunk), b)]
           (fold absorbPolicyUpdateError (orEmpty (bulkUpdate_userErrors res))
              (r\<lparr>policyUpdateCalls := policyUpdateCalls r + 1,
                 policyUpdatedVariants := policyUpdatedVariants r + length chunk\<rparr>))"
  using assms
  by (simp add: resetAccounts_def returnedAdjustErrors_def deny_entry_readings
        fold_absorbPolicyUpdate_frame fold_absorbPolicyUpdate_calls
        fold_absorbPolicyUpdate_variants fold_absorbPolicyUpdate_failures)

lemma denyChunks_accounts:
  "denyChunks (logged admin) productId chunks r (log0, s) = (Inr r', (log, s')) \<Longrightarrow>
   \<exists>new. log = log0 @ new \<and> fetchedVariantPages new = [] \<and> adjustRequests new = []
     \<and> denyPolicyRequests new = map (\<lambda>chunk. (productId, map (\<lambda>v. (v, DENY)) chunk)) chunks
     \<and> resetAccounts r new r' \<and> variantsScanned r' = variantsScanned r"
proof (induction chunks arbitrary: r log0 s)
  case Nil
  then show ?case
    by (intro exI [of _ "[]"]) (simp add: reset_readings_Nil resetAccounts_refl)
next
  case (Cons chunk rest)
  let ?req = "InventoryResetDenyPolicy productId (map (\<lambda>v. (v, DENY)) chunk)"
  obtain b s1 where call: "admin ?req s = (b, s1)" by (cases "admin ?req s")
  from Cons.prems call obtain res where
    d: "data b = Some (ProductVariantsBulkUpdateData res)"
    by (auto simp: graphqlJson_logged data_productVariantsBulkUpdate_def
          split: option.splits gqlData.splits)
  let ?mid = "fold absorbPolicyUpdateError (orEmpty (bulkUpdate_userErrors res))
              (r\<lparr>policyUpdateCalls := policyUpdateCalls r + 1,
                 policyUpdatedVariants := policyUpdatedVariants r + length chunk\<rparr>)"
  from Cons.prems call d have
    more: "denyChunks (logged admin) productId rest ?mid (log0 @ [(?req, b)], s1) = (Inr r', (log, s'))"
    by (simp add: graphqlJson_logged data_productVariantsBulkUpdate_def)
  from Cons.IH [OF more] obtain n2 where n2:
    "log = (log0 @ [(?req, b)]) @ n2" "fetchedVariantPages n2 = []" "adjustRequests n2 = []"
    "denyPolicyRequests n2 = map (\<lambda>chunk. (productId, map (\<lambda>v. (v, DENY)) chunk)) rest"
    "resetAccounts ?mid n2 r'" "variantsScanned r' = variantsScanned ?mid"
    by blast
  have acc: "resetAccounts r ([(?req, b)] @ n2) r'"
    by (rule resetAccounts_trans [OF deny_step_accounts [OF d] n2(5)])
  have rd: "fetchedVariantPages ([(?req, b)] @ n2) = []" "adjustRequests ([(?req, b)] @ n2) = []"
    "denyPolicyRequests ([(?req, b)] @ n2)
       = map (\<lambda>chunk. (productId, map (\<lambda>v. (v, DENY)) chunk)) (chunk # rest)"
    using n2(2-4) by (simp_all only: reset_readings_append deny_entry_readings) simp_all
  from rd n2(1,6) acc show ?case
    by (intro exI [of _ "[(?req, b)] @ n2"]) (simp add: fold_absorbPolicyUpdate_frame)
qed

lemma denyProducts_accounts:
  "denyProducts (logged admin) policyByProduct r (log0, s) = (Inr r', (log, s')) \<Longrightarrow>
   \<exists>new. log = log0 @ new \<and> fetchedVariantPages new = [] \<and> adjustRequests new = []
     \<and> denyPolicyRequests new
         = concat (map (\<lambda>(productId, variantsForProduct).
                          map (\<lambda>chunk. (productId, map (\<lambda>v. (v, DENY)) chunk))
                            (chunkArray variantsForProduct 250)) policyByProduct)
     \<and> resetAccounts r new r' \<and> variantsScanned r' = variantsScanned r"
proof (induction policyByProduct arbitrary: r log0 s)
  case Nil
  then show ?case
    by (intro exI [of _ "[]"]) (simp add: reset_readings_Nil resetAccounts_refl)
next
  case (Cons entry rest)
  obtain productId variantsForProduct where entry: "entry = (productId, variantsForProduct)"
    by (cases entry)
  from Cons.prems entry obtain mid log1 s1 where
    c: "denyChunks (logged admin) productId (chunkArray variantsForProduct 250) r (log0, s)
          = (Inr mid, (log1, s1))"
    and more: "denyProducts (logged admin) rest mid (log1, s1) = (Inr r', (log, s'))"
    by (auto split: prod.splits sum.splits)
  from denyChunks_accounts [OF c] obtain n1 where n1:
    "log1 = log0 @ n1" "fetchedVariantPages n1 = []" "adjustRequests n1 = []"
    "denyPolicyRequests n1 = map (\<lambda>chunk. (productId, map (\<lambda>v. (v, DENY)) chunk))
        (chunkArray variantsForProduct 250)"
    "resetAccounts r n1 mid" "variantsScanned mid = variantsScanned r"
    by blast
  from Cons.IH [OF more] obtain n2 where n2:
    "log = log1 @ n2" "fetchedVariantPages n2 = []" "adjustRequests n2 = []"
    "denyPolicyRequests n2
         = concat (map (\<lambda>(productId, variantsForProduct).
                          map (\<lambda>chunk. (productId, map (\<lambda>v. (v, DENY)) chunk))
                            (chunkArray variantsForProduct 250)) rest)"
    "resetAccounts mid n2 r'" "variantsScanned r' = variantsScanned mid"
    by blast
  from n1 n2 entry resetAccounts_trans [OF n1(5) n2(5)] show ?case
    by (intro exI [of _ "n1 @ n2"]) (simp add: reset_readings_append)
qed

lemma resetPage_accounts:
  assumes "resetPage (logged admin) locationIds variants r (log0, s) = (Inr r', (log, s'))"
  shows "\<exists>new. log = log0 @ new \<and> fetchedVariantPages new = []
     \<and> denyPolicyRequests new = expectedDenyPolicy variants
     \<and> resetAccounts r new r'
     \<and> variantsScanned r' = variantsScanned r + length variants
     \<and> length (adjustRequests new) \<le> 3 * length (returnedAdjustAnswers new)"
proof -
  let ?r1 = "r\<lparr>variantsScanned := variantsScanned r + length variants\<rparr>"
  let ?pbp = "fst (fold collectVariant variants ([], []))"
  let ?ids = "arrayFromSet (snd (fold collectVariant variants ([], [])))"
  from assms obtain changes log1 s1 r2 log2 s2 where
    z: "getInventoryZeroingChanges (logged admin) ?ids (set locationIds) (log0, s)
          = (Inr changes, (log1, s1))"
    and a: "adjustChunks (logged admin) (chunkArray changes 250) ?r1 (log1, s1) = (Inr r2, (log2, s2))"
    and d: "denyProducts (logged admin) ?pbp r2 (log2, s2) = (Inr r', (log, s'))"
    by (auto simp: resetPage_def Let_def split: prod.splits sum.splits)
  from getInventoryZeroingChanges_accounts [OF z, of ?r1] obtain n1 where n1:
    "log1 = log0 @ n1" "fetchedVariantPages n1 = []" "denyPolicyRequests n1 = []"
    "adjustRequests n1 = []" "resetAccounts ?r1 n1 ?r1"
    by blast
  from adjustChunks_accounts [OF a] obtain n2 where n2:
    "log2 = log1 @ n2" "fetchedVariantPages n2 = []" "denyPolicyRequests n2 = []"
    "resetAccounts ?r1 n2 r2" "variantsScanned r2 = variantsScanned ?r1"
    "length (returnedAdjustAnswers n2) = length (chunkArray changes 250)"
    "length (adjustRequests n2) \<le> 3 * length (chunkArray changes 250)"
    by blast
  from denyProducts_accounts [OF d] obtain n3 where n3:
    "log = log2 @ n3" "fetchedVariantPages n3 = []" "adjustRequests n3 = []"
    "denyPolicyRequests n3 = expectedDenyPolicy variants"
    "resetAccounts r2 n3 r'" "variantsScanned r' = variantsScanned r2"
    unfolding expectedDenyPolicy_def by blast
  have "resetAccounts r [] ?r1" by (simp add: resetAccounts_def reset_readings_Nil returnedAdjustErrors_simps)
  from resetAccounts_trans [OF this resetAccounts_trans [OF n1(5) resetAccounts_trans [OF n2(4) n3(5)]]]
  have acc: "resetAccounts r (n1 @ n2 @ n3) r'" by simp
  have "length (adjustRequests (n1 @ n2 @ n3)) \<le> 3 * length (returnedAdjustAnswers (n1 @ n2 @ n3))"
    using n1(4) n2(6,7) n3(3) by (simp add: reset_readings_append)
  with n1 n2 n3 acc show ?thesis
    by (intro exI [of _ "n1 @ n2 @ n3"]) (simp add: reset_readings_append)
qed

lemma variants_entry_readings:
  "denyPolicyRequests [(InventoryResetVariants after, b)] = []"
  "denyPolicyErrors [(InventoryResetVariants after, b)] = []"
  "adjustRequests [(InventoryResetVariants after, b)] = []"
  "returnedAdjustAnswers [(InventoryResetVariants after, b)] = []"
  "data b = Some (ProductVariantsData pv) \<Longrightarrow>
   fetchedVariantPages [(InventoryResetVariants after, b)] = [nodes pv]"
  by (simp_all add: reset_readings logMap_simps)

lemma variants_entry_accounts: "resetAccounts r [(InventoryResetVariants after, b)] r"
  by (simp add: resetAccounts_def variants_entry_readings returnedAdjustErrors_def)

lemma runInventoryReset_loop_logged:
  assumes run: "runInventoryReset_loop (logged admin) locationIds r0 after0 (log0, s)
            = Some (Inr r, (log, s'))"
  shows "\<exists>new. log = log0 @ new
     \<and> resetAccounts r0 new r
     \<and> variantsScanned r = variantsScanned r0 + length (concat (fetchedVariantPages new))
     \<and> denyPolicyRequests new = concat (map expectedDenyPolicy (fetchedVariantPages new))
     \<and> length (adjustRequests new) \<le> 3 * length (returnedAdjustAnswers new)"
proof -
  let ?Inv = "\<lambda>r ls. \<exists>new. fst ls = log0 @ new
     \<and> resetAccounts r0 new r
     \<and> variantsScanned r = variantsScanned r0 + length (concat (fetchedVariantPages new))
     \<and> denyPolicyRequests new = concat (map expectedDenyPolicy (fetchedVariantPages new))
     \<and> length (adjustRequests new) \<le> 3 * length (returnedAdjustAnswers new)"
  have "?Inv r (log, s')"
  proof (rule runInventoryReset_loop_rule [where Inv = ?Inv, OF run])
    show "?Inv r0 (log0, s)"
      by (intro exI [of _ "[]"]) (simp add: resetAccounts_refl reset_readings_Nil)
  next
    fix r ls after d ls1 pv r2 ls2
    assume inv: "?Inv r ls"
      and q: "graphqlJson (logged admin) (InventoryResetVariants after) ls = (Inr d, ls1)"
      and d: "data_productVariants d = Some pv"
      and page: "resetPage (logged admin) locationIds (nodes pv) r ls1 = (Inr r2, ls2)"
    obtain logA sA where ls: "ls = (logA, sA)" by (cases ls)
    obtain logB sB where ls1: "ls1 = (logB, sB)" by (cases ls1)
    obtain logC sC where ls2: "ls2 = (logC, sC)" by (cases ls2)
    let ?e = "(InventoryResetVariants after, b)"
    from q ls ls1 d obtain b where
      b: "logB = logA @ [(InventoryResetVariants after, b)]" "data b = Some (ProductVariantsData pv)"
      by (auto simp: graphqlJson_logged data_productVariants_def
            split: prod.splits option.splits gqlData.splits)
    from inv ls obtain n0 where n0: "logA = log0 @ n0" "resetAccounts r0 n0 r"
      "variantsScanned r = variantsScanned r0 + length (concat (fetchedVariantPages n0))"
      "denyPolicyRequests n0 = concat (map expectedDenyPolicy (fetchedVariantPages n0))"
      "length (adjustRequests n0) \<le> 3 * length (returnedAdjustAnswers n0)"
      by auto
    from resetPage_accounts [OF page [unfolded ls1 ls2]] obtain n2 where n2:
      "logC = logB @ n2" "fetchedVariantPages n2 = []"
      "denyPolicyRequests n2 = expectedDenyPolicy (nodes pv)"
      "resetAccounts r n2 r2"
      "variantsScanned r2 = variantsScanned r + length (nodes pv)"
      "length (adjustRequests n2) \<le> 3 * length (returnedAdjustAnswers n2)"
      by blast
    let ?n1 = "[(InventoryResetVariants after, b)]"
    have acc: "resetAccounts r0 (n0 @ ?n1 @ n2) r2"
      by (rule resetAccounts_trans [OF n0(2) resetAccounts_trans [OF variants_entry_accounts n2(4)]])
    have rd: "fetchedVariantPages (n0 @ ?n1 @ n2) = fetchedVariantPages n0 @ [nodes pv]"
      "denyPolicyRequests (n0 @ ?n1 @ n2) = denyPolicyRequests n0 @ expectedDenyPolicy (nodes pv)"
      "adjustRequests (n0 @ ?n1 @ n2) = adjustRequests n0 @ adjustRequests n2"
      "returnedAdjustAnswers (n0 @ ?n1 @ n2) = returnedAdjustAnswers n0 @ returnedAdjustAnswers n2"
      using n2(2,3) b(2)
      by (simp_all only: reset_readings_append variants_entry_readings) simp_all
    have "logC = log0 @ (n0 @ ?n1 @ n2)" using n0(1) b(1) n2(1) by simp
    moreover have "variantsScanned r2
        = variantsScanned r0 + length (concat (fetchedVariantPages (n0 @ ?n1 @ n2)))"
      using n0(3) n2(5) rd(1) by simp
    moreover have "denyPolicyRequests (n0 @ ?n1 @ n2)
        = concat (map expectedDenyPolicy (fetchedVariantPages (n0 @ ?n1 @ n2)))"
      using n0(4) rd(1,2) by simp
    moreover have "length (adjustRequests (n0 @ ?n1 @ n2))
        \<le> 3 * length (returnedAdjustAnswers (n0 @ ?n1 @ n2))"
      using n0(5) n2(6) rd(3,4) by simp
    ultimately show "?Inv r2 ls2"
      unfolding ls2 using acc by (intro exI [of _ "n0 @ ?n1 @ n2"]) simp
  qed
  then show ?thesis by simp
qed

subsection \<open>The turns of the inventory reset\<close>

lemmas turn_readings =
  variantQueries_def firstAdjustAttempts_def adjustAnswerErrors_def levelRequests_def

lemma turn_readings_append:
  "variantQueries (xs @ ys) = variantQueries xs @ variantQueries ys"
  "firstAdjustAttempts (xs @ ys) = firstAdjustAttempts xs @ firstAdjustAttempts ys"
  "adjustAnswerErrors (xs @ ys) = adjustAnswerErrors xs @ adjustAnswerErrors ys"
  "levelRequests (xs @ ys) = levelRequests xs @ levelRequests ys"
  by (simp_all add: turn_readings logMap_simps)

lemma turn_readings_Nil:
  "variantQueries [] = []" "firstAdjustAttempts [] = []" "adjustAnswerErrors [] = []"
  "levelRequests [] = []"
  by (simp_all add: turn_readings logMap_simps)

lemma kindOf_cases:
  "kindOf (req, b) = VariantsPage \<longleftrightarrow>
     (\<exists>after pv. req = InventoryResetVariants after \<and> data b = Some (ProductVariantsData pv))"
  "kindOf (req, b) = LevelsAnswer \<longleftrightarrow>
     (\<exists>ids ns. req = InventoryResetInventoryLevels ids \<and> data b = Some (NodesData ns))"
  "kindOf (req, b) = AdjustAnswer \<longleftrightarrow>
     (\<exists>name reason changes resp. req = InventoryResetAdjustQuantities name reason changes
        \<and> data b = Some (InventoryAdjustQuantitiesData resp))"
  "kindOf (req, b) = DenyAnswer \<longleftrightarrow>
     (\<exists>p vs res. req = InventoryResetDenyPolicy p vs
        \<and> data b = Some (ProductVariantsBulkUpdateData res))"
  by (auto simp: kindOf_def split: request.splits option.splits gqlData.splits)

lemma levels_kind_readings:
  "list_all (\<lambda>e. kindOf e = LevelsAnswer) new \<Longrightarrow>
   variantQueries new = [] \<and> firstAdjustAttempts new = [] \<and> adjustAnswerErrors new = []
   \<and> filter isVariantsQuery new = [] \<and> fetchedVariantPages new = []
   \<and> denyPolicyRequests new = [] \<and> adjustRequests new = [] \<and> returnedAdjustAnswers new = []
   \<and> levelRequests new = logMap (\<lambda>req b. case req of InventoryResetInventoryLevels ids \<Rightarrow> [ids] | _ \<Rightarrow> []) new"
proof (induction new)
  case Nil
  then show ?case by (simp add: turn_readings reset_readings logMap_simps)
next
  case (Cons e new)
  obtain req b where e: "e = (req, b)" by (cases e)
  from Cons e show ?case
    by (auto simp: kindOf_cases turn_readings reset_readings logMap_simps isVariantsQuery_def)
qed

lemma adjust_kind_readings:
  "list_all (\<lambda>e. kindOf e = AdjustAnswer) new \<Longrightarrow>
   variantQueries new = [] \<and> levelRequests new = [] \<and> fetchedLevels new = []
   \<and> filter isVariantsQuery new = [] \<and> fetchedVariantPages new = []
   \<and> denyPolicyRequests new = [] \<and> denyPolicyErrors new = []"
proof (induction new)
  case Nil
  then show ?case by (simp add: turn_readings reset_readings logMap_simps fetchedLevels_def)
next
  case (Cons e new)
  obtain req b where e: "e = (req, b)" by (cases e)
  from Cons e show ?case
    by (auto simp: kindOf_cases turn_readings reset_readings logMap_simps isVariantsQuery_def
          fetchedLevels_def)
qed

lemma deny_kind_readings:
  "list_all (\<lambda>e. kindOf e = DenyAnswer) new \<Longrightarrow>
   variantQueries new = [] \<and> levelRequests new = [] \<and> fetchedLevels new = []
   \<and> filter isVariantsQuery new = [] \<and> fetchedVariantPages new = []
   \<and> firstAdjustAttempts new = [] \<and> adjustAnswerErrors new = []
   \<and> adjustRequests new = [] \<and> returnedAdjustAnswers new = []"
proof (induction new)
  case Nil
  then show ?case by (simp add: turn_readings reset_readings logMap_simps fetchedLevels_def)
next
  case (Cons e new)
  obtain req b where e: "e = (req, b)" by (cases e)
  from Cons e show ?case
    by (auto simp: kindOf_cases turn_readings reset_readings logMap_simps isVariantsQuery_def
          fetchedLevels_def)
qed

lemma zeroingChunks_kinds:
  "zeroingChunks (logged admin) allowed chunks changes0 (log0, s) = (Inr changes, (log, s')) \<Longrightarrow>
   \<exists>new. log = log0 @ new \<and> list_all (\<lambda>e. kindOf e = LevelsAnswer) new
     \<and> levelRequests new = chunks"
proof (induction chunks arbitrary: changes0 log0 s)
  case Nil
  then show ?case by (simp add: turn_readings_Nil)
next
  case (Cons chunk rest)
  obtain b s1 where call: "admin (InventoryResetInventoryLevels chunk) s = (b, s1)"
    by (cases "admin (InventoryResetInventoryLevels chunk) s")
  from Cons.prems call obtain ns mid where
    d: "data b = Some (NodesData ns)"
    and r: "zeroingChunks (logged admin) allowed rest mid
              (log0 @ [(InventoryResetInventoryLevels chunk, b)], s1) = (Inr changes, (log, s'))"
    by (auto simp: graphqlJson_logged data_nodes_def split: option.splits gqlData.splits sum.splits)
  from Cons.IH [OF r] obtain new where
    new: "log = (log0 @ [(InventoryResetInventoryLevels chunk, b)]) @ new"
      "list_all (\<lambda>e. kindOf e = LevelsAnswer) new" "levelRequests new = rest"
    by blast
  let ?new = "(InventoryResetInventoryLevels chunk, b) # new"
  have "log = log0 @ ?new" using new(1) by simp
  moreover have "list_all (\<lambda>e. kindOf e = LevelsAnswer) ?new"
    using new(2) d by (simp add: kindOf_cases)
  moreover have "levelRequests ?new = chunk # rest"
    using new(3) by (simp add: levelRequests_def logMap_simps)
  ultimately show ?case by blast
qed

lemma reasonFallback_loop_kinds:
  "reasonFallback_loop (logged admin) name changes reasons lastResponse (log0, s)
     = (Inr ro, (log, s')) \<Longrightarrow>
   \<exists>new. log = log0 @ new \<and> list_all (\<lambda>e. kindOf e = AdjustAnswer) new
     \<and> map fst new
         = map (\<lambda>reason. InventoryResetAdjustQuantities name reason changes)
             (take (length new) reasons)
     \<and> (reasons \<noteq> [] \<longrightarrow> new \<noteq> [])"
proof (induction reasons arbitrary: lastResponse log0 s)
  case Nil
  then show ?case by simp
next
  case (Cons reason rest)
  let ?q = "InventoryResetAdjustQuantities name reason changes"
  obtain b s1 where call: "admin ?q s = (b, s1)" by (cases "admin ?q s")
  from Cons.prems call obtain resp where d: "data b = Some (InventoryAdjustQuantitiesData resp)"
    by (auto simp: graphqlJson_logged data_inventoryAdjustQuantities_def
          split: option.splits gqlData.splits if_splits)
  show ?case
  proof (cases "hasInvalidReason resp")
    case False
    with Cons.prems call d have "log = log0 @ [(?q, b)]"
      by (simp add: graphqlJson_logged data_inventoryAdjustQuantities_def)
    with d show ?thesis
      by (intro exI [of _ "[(?q, b)]"]) (simp add: kindOf_cases)
  next
    case True
    with Cons.prems call d have
      r: "reasonFallback_loop (logged admin) name changes rest (Some resp) (log0 @ [(?q, b)], s1)
            = (Inr ro, (log, s'))"
      by (simp add: graphqlJson_logged data_inventoryAdjustQuantities_def)
    from Cons.IH [OF r] obtain new where new:
      "log = (log0 @ [(?q, b)]) @ new" "list_all (\<lambda>e. kindOf e = AdjustAnswer) new"
      "map fst new = map (\<lambda>reason. InventoryResetAdjustQuantities name reason changes)
             (take (length new) rest)"
      by blast
    with d show ?thesis
      by (intro exI [of _ "(?q, b) # new"]) (simp add: kindOf_cases)
  qed
qed

lemma firstAdjustAttempts_requests:
  "map fst new = map (\<lambda>reason. InventoryResetAdjustQuantities name reason changes) rs \<Longrightarrow>
   firstAdjustAttempts new = map (\<lambda>_. changes) (filter (\<lambda>reason. reason = ''correction'') rs)"
proof (induction new arbitrary: rs)
  case Nil
  then show ?case by (simp add: turn_readings_Nil)
next
  case (Cons e new)
  then obtain r rs' where rs: "rs = r # rs'" by (cases rs) auto
  obtain req b where e: "e = (req, b)" by (cases e)
  from Cons.prems rs e have req: "req = InventoryResetAdjustQuantities name r changes"
    and rest: "map fst new = map (\<lambda>reason. InventoryResetAdjustQuantities name reason changes) rs'"
    by auto
  from Cons.IH [OF rest] e req rs show ?case
    by (simp add: firstAdjustAttempts_def logMap_simps)
qed

lemma reasonFallback_kinds:
  assumes "inventoryAdjustQuantitiesWithReasonFallback (logged admin) name changes (log0, s)
            = (Inr ro, (log, s'))"
  shows "\<exists>new. log = log0 @ new \<and> list_all (\<lambda>e. kindOf e = AdjustAnswer) new
     \<and> firstAdjustAttempts new = [changes]"
proof -
  from reasonFallback_loop_kinds [OF assms [unfolded inventoryAdjustQuantitiesWithReasonFallback_def]]
  obtain new where new: "log = log0 @ new" "list_all (\<lambda>e. kindOf e = AdjustAnswer) new"
    "map fst new = map (\<lambda>reason. InventoryResetAdjustQuantities name reason changes)
             (take (length new) reasonFallbacks)"
    "new \<noteq> []"
    by (auto simp: reasonFallbacks_def)
  from new(4) have "filter (\<lambda>reason. reason = ''correction'') (take (length new) reasonFallbacks)
      = [''correction'']"
    by (cases new) (auto simp: reasonFallbacks_def take_Cons split: nat.splits)
  with firstAdjustAttempts_requests [OF new(3)] have "firstAdjustAttempts new = [changes]"
    by simp
  with new show ?thesis by blast
qed

lemma absorbInventoryAdjust_calls:
  "absorbInventoryAdjustError e (r\<lparr>inventoryAdjustCalls := k\<rparr>)
     = (absorbInventoryAdjustError e r)\<lparr>inventoryAdjustCalls := k\<rparr>"
  by (simp add: absorbInventoryAdjustError_def)

lemma fold_absorbInventoryAdjust_calls:
  "fold absorbInventoryAdjustError es (r\<lparr>inventoryAdjustCalls := k\<rparr>)
     = (fold absorbInventoryAdjustError es r)\<lparr>inventoryAdjustCalls := k\<rparr>"
proof (induction es arbitrary: r)
  case Nil
  show ?case by simp
next
  case (Cons e es)
  have "fold absorbInventoryAdjustError (e # es) (r\<lparr>inventoryAdjustCalls := k\<rparr>)
      = fold absorbInventoryAdjustError es
          ((absorbInventoryAdjustError e r)\<lparr>inventoryAdjustCalls := k\<rparr>)"
    by (simp only: fold_simps absorbInventoryAdjust_calls)
  also have "\<dots> = (fold absorbInventoryAdjustError es (absorbInventoryAdjustError e r))
      \<lparr>inventoryAdjustCalls := k\<rparr>"
    by (rule Cons.IH)
  finally show ?case by simp
qed

lemma adjustChunks_dispatch:
  "adjustChunks (logged admin) chunks r (log0, s) = (Inr r', (log, s')) \<Longrightarrow>
   \<exists>new. log = log0 @ new \<and> list_all (\<lambda>e. kindOf e = AdjustAnswer) new
     \<and> firstAdjustAttempts new = chunks
     \<and> length (returnedAdjustAnswers new) = length chunks
     \<and> r' = fold absorbInventoryAdjustError (returnedAdjustErrors new)
              (r\<lparr>inventoryAdjustCalls := inventoryAdjustCalls r + length chunks\<rparr>)"
proof (induction chunks arbitrary: r log0 s)
  case Nil
  then show ?case
    by (intro exI [of _ "[]"]) (simp add: turn_readings_Nil reset_readings_Nil returnedAdjustErrors_simps)
next
  case (Cons chunk rest)
  from Cons.prems obtain resp log1 s1 where
    one: "inventoryAdjustQuantitiesWithReasonFallback (logged admin) ''available'' chunk (log0, s)
            = (Inr (Some resp), (log1, s1))"
    and more: "adjustChunks (logged admin) rest
         (fold absorbInventoryAdjustError (orEmpty (adjust_userErrors resp))
            (r\<lparr>inventoryAdjustCalls := inventoryAdjustCalls r + 1\<rparr>)) (log1, s1)
         = (Inr r', (log, s'))"
    by (auto split: prod.splits sum.splits option.splits)
  let ?mid = "fold absorbInventoryAdjustError (orEmpty (adjust_userErrors resp))
            (r\<lparr>inventoryAdjustCalls := inventoryAdjustCalls r + 1\<rparr>)"
  from reasonFallback_logged [OF one] obtain n1 where n1:
    "log1 = log0 @ n1" "returnedAdjustAnswers n1 = [resp]"
    by auto
  from reasonFallback_kinds [OF one] n1(1) have k1:
    "list_all (\<lambda>e. kindOf e = AdjustAnswer) n1" "firstAdjustAttempts n1 = [chunk]"
    by auto
  from Cons.IH [OF more] obtain n2 where n2:
    "log = log1 @ n2" "list_all (\<lambda>e. kindOf e = AdjustAnswer) n2"
    "firstAdjustAttempts n2 = rest"
    "length (returnedAdjustAnswers n2) = length rest"
    "r' = fold absorbInventoryAdjustError (returnedAdjustErrors n2)
              (?mid\<lparr>inventoryAdjustCalls := inventoryAdjustCalls ?mid + length rest\<rparr>)"
    by blast
  have errs: "returnedAdjustErrors (n1 @ n2) = orEmpty (adjust_userErrors resp) @ returnedAdjustErrors n2"
    using n1(2) by (simp add: returnedAdjustErrors_def reset_readings_append)
  have "r' = fold absorbInventoryAdjustError (returnedAdjustErrors (n1 @ n2))
              (r\<lparr>inventoryAdjustCalls := inventoryAdjustCalls r + length (chunk # rest)\<rparr>)"
    unfolding errs n2(5)
    by (simp add: fold_absorbInventoryAdjust_calls fold_absorbInventoryAdjust_frame)
  with n1 k1 n2 show ?case
    by (intro exI [of _ "n1 @ n2"]) (simp add: reset_readings_append turn_readings_append)
qed

lemma denyChunks_kinds:
  "denyChunks (logged admin) productId chunks r (log0, s) = (Inr r', (log, s')) \<Longrightarrow>
   \<exists>new. log = log0 @ new \<and> list_all (\<lambda>e. kindOf e = DenyAnswer) new"
proof (induction chunks arbitrary: r log0 s)
  case Nil
  then show ?case by simp
next
  case (Cons chunk rest)
  let ?req = "InventoryResetDenyPolicy productId (map (\<lambda>v. (v, DENY)) chunk)"
  obtain b s1 where call: "admin ?req s = (b, s1)" by (cases "admin ?req s")
  from Cons.prems call obtain res where
    d: "data b = Some (ProductVariantsBulkUpdateData res)"
    by (auto simp: graphqlJson_logged data_productVariantsBulkUpdate_def
          split: option.splits gqlData.splits)
  let ?mid = "fold absorbPolicyUpdateError (orEmpty (bulkUpdate_userErrors res))
              (r\<lparr>policyUpdateCalls := policyUpdateCalls r + 1,
                 policyUpdatedVariants := policyUpdatedVariants r + length chunk\<rparr>)"
  from Cons.prems call d have
    more: "denyChunks (logged admin) productId rest ?mid (log0 @ [(?req, b)], s1) = (Inr r', (log, s'))"
    by (simp add: graphqlJson_logged data_productVariantsBulkUpdate_def)
  from Cons.IH [OF more] obtain n2 where n2:
    "log = (log0 @ [(?req, b)]) @ n2" "list_all (\<lambda>e. kindOf e = DenyAnswer) n2"
    by blast
  with d show ?case
    by (intro exI [of _ "(?req, b) # n2"]) (simp add: kindOf_cases)
qed

lemma denyProducts_kinds:
  "denyProducts (logged admin) policyByProduct r (log0, s) = (Inr r', (log, s')) \<Longrightarrow>
   \<exists>new. log = log0 @ new \<and> list_all (\<lambda>e. kindOf e = DenyAnswer) new"
proof (induction policyByProduct arbitrary: r log0 s)
  case Nil
  then show ?case by simp
next
  case (Cons entry rest)
  obtain productId variantsForProduct where entry: "entry = (productId, variantsForProduct)"
    by (cases entry)
  from Cons.prems entry obtain mid log1 s1 where
    c: "denyChunks (logged admin) productId (chunkArray variantsForProduct 250) r (log0, s)
          = (Inr mid, (log1, s1))"
    and more: "denyProducts (logged admin) rest mid (log1, s1) = (Inr r', (log, s'))"
    by (auto split: prod.splits sum.splits)
  from denyChunks_kinds [OF c] obtain n1 where n1:
    "log1 = log0 @ n1" "list_all (\<lambda>e. kindOf e = DenyAnswer) n1"
    by blast
  from Cons.IH [OF more] obtain n2 where n2:
    "log = log1 @ n2" "list_all (\<lambda>e. kindOf e = DenyAnswer) n2"
    by blast
  from n1 n2 show ?case
    by (intro exI [of _ "n1 @ n2"]) simp
qed

text \<open>What one turn adds to the log, after the query for its page of variants.\<close>

lemma resetPage_dispatch:
  assumes "resetPage (logged admin) locationIds variants r (log0, s) = (Inr r', (log, s'))"
  shows "\<exists>new. log = log0 @ new
     \<and> filter isVariantsQuery new = [] \<and> variantQueries new = [] \<and> fetchedVariantPages new = []
     \<and> levelRequests new = expectedLevelRequests variants
     \<and> firstAdjustAttempts new = expectedAdjustChunks locationIds new
     \<and> length (returnedAdjustAnswers new) = length (firstAdjustAttempts new)
     \<and> denyPolicyRequests new = expectedDenyPolicy variants"
proof -
  let ?r1 = "r\<lparr>variantsScanned := variantsScanned r + length variants\<rparr>"
  let ?pbp = "fst (fold collectVariant variants ([], []))"
  let ?ids = "arrayFromSet (snd (fold collectVariant variants ([], [])))"
  from assms obtain changes log1 s1 r2 log2 s2 where
    z: "getInventoryZeroingChanges (logged admin) ?ids (set locationIds) (log0, s)
          = (Inr changes, (log1, s1))"
    and a: "adjustChunks (logged admin) (chunkArray changes 250) ?r1 (log1, s1) = (Inr r2, (log2, s2))"
    and d: "denyProducts (logged admin) ?pbp r2 (log2, s2) = (Inr r', (log, s'))"
    by (auto simp: resetPage_def Let_def split: prod.splits sum.splits)
  from zeroingChunks_logged [OF z [unfolded getInventoryZeroingChanges_def]] obtain n1 where n1:
    "log1 = log0 @ n1"
    "changes = List.map_filter (spec_zeroingChange (set locationIds)) (fetchedLevels n1)"
    by auto
  from zeroingChunks_kinds [OF z [unfolded getInventoryZeroingChanges_def]] n1(1) have k1:
    "list_all (\<lambda>e. kindOf e = LevelsAnswer) n1" "levelRequests n1 = chunkArray ?ids 50"
    by auto
  from adjustChunks_dispatch [OF a] obtain n2 where n2:
    "log2 = log1 @ n2" "list_all (\<lambda>e. kindOf e = AdjustAnswer) n2"
    "firstAdjustAttempts n2 = chunkArray changes 250"
    "length (returnedAdjustAnswers n2) = length (chunkArray changes 250)"
    by blast
  from denyProducts_accounts [OF d] obtain n3 where n3:
    "log = log2 @ n3" "denyPolicyRequests n3 = expectedDenyPolicy variants"
    unfolding expectedDenyPolicy_def by blast
  from denyProducts_kinds [OF d] n3(1) have k3: "list_all (\<lambda>e. kindOf e = DenyAnswer) n3"
    by auto
  note r1 = levels_kind_readings [OF k1(1)]
  note r2 = adjust_kind_readings [OF n2(2)]
  note r3 = deny_kind_readings [OF k3]
  have levels: "fetchedLevels (n1 @ n2 @ n3) = fetchedLevels n1"
    using r2 r3 by (simp add: fetchedLevels_append)
  show ?thesis
  proof (intro exI [of _ "n1 @ n2 @ n3"] conjI)
    show "log = log0 @ n1 @ n2 @ n3" using n1(1) n2(1) n3(1) by simp
    show "filter isVariantsQuery (n1 @ n2 @ n3) = []" using r1 r2 r3 by simp
    show "variantQueries (n1 @ n2 @ n3) = []" using r1 r2 r3 by (simp add: turn_readings_append)
    show "fetchedVariantPages (n1 @ n2 @ n3) = []" using r1 r2 r3 by (simp add: reset_readings_append)
    show "levelRequests (n1 @ n2 @ n3) = expectedLevelRequests variants"
      using k1(2) r2 r3 by (simp add: turn_readings_append expectedLevelRequests_def)
    show "firstAdjustAttempts (n1 @ n2 @ n3) = expectedAdjustChunks locationIds (n1 @ n2 @ n3)"
      unfolding expectedAdjustChunks_def levels
      using r1 n2(3) r3 n1(2) by (simp add: turn_readings_append)
    show "length (returnedAdjustAnswers (n1 @ n2 @ n3)) = length (firstAdjustAttempts (n1 @ n2 @ n3))"
      using r1 n2(3,4) r3 by (simp add: turn_readings_append reset_readings_append)
    show "denyPolicyRequests (n1 @ n2 @ n3) = expectedDenyPolicy variants"
      using r1 r2 n3(2) by (simp add: reset_readings_append)
  qed
qed

lemma splitTurns_no_query:
  "filter isVariantsQuery xs = [] \<Longrightarrow>
   splitTurns (xs @ ys) = (xs @ fst (splitTurns ys), snd (splitTurns ys))"
  by (induction xs) (auto split: prod.splits if_splits)

lemma splitTurns_turn:
  assumes "isVariantsQuery e" "filter isVariantsQuery xs = []"
  shows "splitTurns (e # xs @ ys) = ([], (e # xs @ fst (splitTurns ys)) # snd (splitTurns ys))"
  using assms by (simp add: splitTurns_no_query)

lemma concat_splitTurns:
  "fst (splitTurns log) @ concat (snd (splitTurns log)) = log"
  by (induction log) (auto split: prod.splits)

lemma pagination_single: "pagination after [(after, p)] \<longleftrightarrow> \<not> hasNextPage p"
  by simp

lemma runInventoryReset_loop_trace_rule:
  assumes run: "runInventoryReset_loop admin locationIds r after s = Some (Inr r', s')"
    and last: "\<And>r after s d s1 pv r2 s2.
       graphqlJson admin (InventoryResetVariants after) s = (Inr d, s1) \<Longrightarrow>
       data_productVariants d = Some pv \<Longrightarrow>
       resetPage admin locationIds (nodes pv) r s1 = (Inr r2, s2) \<Longrightarrow>
       \<not> hasNextPage pv \<Longrightarrow> Post after s s2"
    and step: "\<And>r after s d s1 pv r2 s2 s'.
       graphqlJson admin (InventoryResetVariants after) s = (Inr d, s1) \<Longrightarrow>
       data_productVariants d = Some pv \<Longrightarrow>
       resetPage admin locationIds (nodes pv) r s1 = (Inr r2, s2) \<Longrightarrow>
       hasNextPage pv \<Longrightarrow> Post (orNull (endCursor pv)) s2 s' \<Longrightarrow> Post after s s'"
  shows "Post after s s'"
proof -
  have "\<forall>r' s'. a = admin \<longrightarrow> l = locationIds \<longrightarrow> y = (Inr r', s') \<longrightarrow> Post after s s'"
    if "runInventoryReset_loop a l r after s = Some y" for a l r after s y
  proof (induction a l r after s y rule: runInventoryReset_loop.raw_induct)
    case (1 f a l r after s y)
    show ?case
    proof (intro allI impI)
      fix r' s'
      assume a: "a = admin" and l: "l = locationIds" and y: "y = (Inr r', s')"
      from "1.hyps" a l y obtain d s1 pv r2 s2 where
        q: "graphqlJson admin (InventoryResetVariants after) s = (Inr d, s1)"
        and pv: "data_productVariants d = Some pv"
        and page: "resetPage admin locationIds (nodes pv) r s1 = (Inr r2, s2)"
        and rest: "(if \<not> hasNextPage pv then Some (Inr r2, s2)
                    else f admin locationIds r2 (orNull (endCursor pv)) s2) = Some (Inr r', s')"
        by (auto split: prod.splits sum.splits option.splits)
      show "Post after s s'"
      proof (cases "hasNextPage pv")
        case False
        with rest have "s' = s2" by simp
        with last [OF q pv page False] show ?thesis by simp
      next
        case True
        with rest have "f admin locationIds r2 (orNull (endCursor pv)) s2 = Some (Inr r', s')"
          by simp
        from "1.IH" [OF this] have "Post (orNull (endCursor pv)) s2 s'" by blast
        from step [OF q pv page True this] show ?thesis .
      qed
    qed
  qed (fact that)
  from this [OF run] show ?thesis by blast
qed

lemma variants_entry_turn:
  assumes "data b = Some (ProductVariantsData pv)"
  shows "isVariantsQuery (InventoryResetVariants after, b)"
    "variantQueries [(InventoryResetVariants after, b)] = [(after, pv)]"
    "levelRequests [(InventoryResetVariants after, b)] = []"
    "firstAdjustAttempts [(InventoryResetVariants after, b)] = []"
    "fetchedLevels [(InventoryResetVariants after, b)] = []"
  using assms by (simp_all add: isVariantsQuery_def turn_readings logMap_simps fetchedLevels_def)

lemma turnDispatch_turn:
  assumes b: "data b = Some (ProductVariantsData pv)"
    and new: "fetchedVariantPages new = []"
     "levelRequests new = expectedLevelRequests (nodes pv)"
     "firstAdjustAttempts new = expectedAdjustChunks locationIds new"
     "length (returnedAdjustAnswers new) = length (firstAdjustAttempts new)"
     "denyPolicyRequests new = expectedDenyPolicy (nodes pv)"
  shows "turnDispatch locationIds ((InventoryResetVariants after, b) # new)"
proof -
  let ?e = "(InventoryResetVariants after, b)"
  have c: "?e # new = [?e] @ new" by simp
  have "fetchedLevels (?e # new) = fetchedLevels new"
    unfolding c fetchedLevels_append using variants_entry_turn(5) [OF b] by simp
  then have "expectedAdjustChunks locationIds (?e # new) = expectedAdjustChunks locationIds new"
    by (simp add: expectedAdjustChunks_def)
  with new show ?thesis
    unfolding turnDispatch_def c reset_readings_append turn_readings_append
    using variants_entry_turn [OF b] variants_entry_readings [where after = after and b = b] variants_entry_readings(5) [OF b]
    by simp
qed

lemma runInventoryReset_loop_turns:
  assumes run: "runInventoryReset_loop (logged admin) locationIds r0 after0 (log0, s)
            = Some (Inr r, (log, s'))"
  shows "\<exists>new. log = log0 @ new
     \<and> pagination after0 (variantQueries new)
     \<and> splitTurns new = ([], resetTurns new)
     \<and> list_all (turnDispatch locationIds) (resetTurns new)"
proof -
  let ?Post = "\<lambda>after ls ls'. \<exists>new. fst ls' = fst ls @ new
     \<and> pagination after (variantQueries new)
     \<and> splitTurns new = ([], resetTurns new)
     \<and> list_all (turnDispatch locationIds) (resetTurns new)"
  have "?Post after0 (log0, s) (log, s')"
  proof (rule runInventoryReset_loop_trace_rule [where Post = ?Post, OF run])
    fix r after ls d ls1 pv r2 ls2
    assume q: "graphqlJson (logged admin) (InventoryResetVariants after) ls = (Inr d, ls1)"
      and d: "data_productVariants d = Some pv"
      and page: "resetPage (logged admin) locationIds (nodes pv) r ls1 = (Inr r2, ls2)"
      and fin: "\<not> hasNextPage pv"
    obtain logA sA where ls: "ls = (logA, sA)" by (cases ls)
    obtain logB sB where ls1: "ls1 = (logB, sB)" by (cases ls1)
    obtain logC sC where ls2: "ls2 = (logC, sC)" by (cases ls2)
    from q ls ls1 d obtain b where
      b: "logB = logA @ [(InventoryResetVariants after, b)]" "data b = Some (ProductVariantsData pv)"
      by (auto simp: graphqlJson_logged data_productVariants_def
            split: prod.splits option.splits gqlData.splits)
    from resetPage_dispatch [OF page [unfolded ls1 ls2]] obtain n2 where n2:
      "logC = logB @ n2" "filter isVariantsQuery n2 = []" "variantQueries n2 = []"
      "fetchedVariantPages n2 = []"
      "levelRequests n2 = expectedLevelRequests (nodes pv)"
      "firstAdjustAttempts n2 = expectedAdjustChunks locationIds n2"
      "length (returnedAdjustAnswers n2) = length (firstAdjustAttempts n2)"
      "denyPolicyRequests n2 = expectedDenyPolicy (nodes pv)"
      by blast
    let ?e = "(InventoryResetVariants after, b)"
    have split: "splitTurns (?e # n2 @ []) = ([], [?e # n2])"
      using splitTurns_turn [OF variants_entry_turn(1) [OF b(2)] n2(2), of after "[]"] by simp
    have vq: "variantQueries ([?e] @ n2) = [(after, pv)]"
      unfolding turn_readings_append using variants_entry_turn(2) [OF b(2)] n2(3) by simp
    have td: "turnDispatch locationIds (?e # n2)"
      by (rule turnDispatch_turn [OF b(2) n2(4-8)])
    show "?Post after ls ls2"
      unfolding ls ls2 using b(1) n2(1) split vq td fin
      by (intro exI [of _ "?e # n2"]) (simp add: resetTurns_def)
  next
    fix r after ls d ls1 pv r2 ls2 ls'
    assume q: "graphqlJson (logged admin) (InventoryResetVariants after) ls = (Inr d, ls1)"
      and d: "data_productVariants d = Some pv"
      and page: "resetPage (logged admin) locationIds (nodes pv) r ls1 = (Inr r2, ls2)"
      and more: "hasNextPage pv"
      and post: "?Post (orNull (endCursor pv)) ls2 ls'"
    obtain logA sA where ls: "ls = (logA, sA)" by (cases ls)
    obtain logB sB where ls1: "ls1 = (logB, sB)" by (cases ls1)
    obtain logC sC where ls2: "ls2 = (logC, sC)" by (cases ls2)
    from q ls ls1 d obtain b where
      b: "logB = logA @ [(InventoryResetVariants after, b)]" "data b = Some (ProductVariantsData pv)"
      by (auto simp: graphqlJson_logged data_productVariants_def
            split: prod.splits option.splits gqlData.splits)
    from resetPage_dispatch [OF page [unfolded ls1 ls2]] obtain n2 where n2:
      "logC = logB @ n2" "filter isVariantsQuery n2 = []" "variantQueries n2 = []"
      "fetchedVariantPages n2 = []"
      "levelRequests n2 = expectedLevelRequests (nodes pv)"
      "firstAdjustAttempts n2 = expectedAdjustChunks locationIds n2"
      "length (returnedAdjustAnswers n2) = length (firstAdjustAttempts n2)"
      "denyPolicyRequests n2 = expectedDenyPolicy (nodes pv)"
      by blast
    from post ls2 obtain n3 where n3: "fst ls' = logC @ n3"
      "pagination (orNull (endCursor pv)) (variantQueries n3)"
      "splitTurns n3 = ([], resetTurns n3)"
      "list_all (turnDispatch locationIds) (resetTurns n3)"
      by auto
    let ?e = "(InventoryResetVariants after, b)"
    have split: "splitTurns (?e # n2 @ n3) = ([], (?e # n2) # resetTurns n3)"
      using splitTurns_turn [OF variants_entry_turn(1) [OF b(2)] n2(2), of after n3] n3(3) by simp
    have vq: "variantQueries ([?e] @ n2 @ n3) = (after, pv) # variantQueries n3"
      unfolding turn_readings_append using variants_entry_turn(2) [OF b(2)] n2(3) by simp
    have td: "turnDispatch locationIds (?e # n2)"
      by (rule turnDispatch_turn [OF b(2) n2(4-8)])
    show "?Post after ls ls'"
      unfolding ls using b(1) n2(1) n3 split vq td more
      by (intro exI [of _ "?e # n2 @ n3"]) (simp add: resetTurns_def)
  qed
  then show ?thesis by simp
qed

subsection \<open>Pagination of the archive run and of the policy scan\<close>

lemma archiveProductsByVendor_loop_trace_rule:
  assumes run: "archiveProductsByVendor_loop admin q r after s = Some (Inr r', s')"
    and last: "\<And>r after s d s1 prods r2 s2.
       graphqlJson admin (ProductsByVendor after q) s = (Inr d, s1) \<Longrightarrow>
       data_products d = Some prods \<Longrightarrow>
       archiveProducts admin (nodes prods) r s1 = (Inr r2, s2) \<Longrightarrow>
       \<not> hasNextPage prods \<Longrightarrow> Post after s s2"
    and step: "\<And>r after s d s1 prods r2 s2 s'.
       graphqlJson admin (ProductsByVendor after q) s = (Inr d, s1) \<Longrightarrow>
       data_products d = Some prods \<Longrightarrow>
       archiveProducts admin (nodes prods) r s1 = (Inr r2, s2) \<Longrightarrow>
       hasNextPage prods \<Longrightarrow> Post (orNull (endCursor prods)) s2 s' \<Longrightarrow> Post after s s'"
  shows "Post after s s'"
proof -
  have "\<forall>r' s'. a = admin \<longrightarrow> l = q \<longrightarrow> y = (Inr r', s') \<longrightarrow> Post after s s'"
    if "archiveProductsByVendor_loop a l r after s = Some y" for a l r after s y
  proof (induction a l r after s y rule: archiveProductsByVendor_loop.raw_induct)
    case (1 f a l r after s y)
    show ?case
    proof (intro allI impI)
      fix r' s'
      assume a: "a = admin" and l: "l = q" and y: "y = (Inr r', s')"
      from "1.hyps" a l y obtain d s1 prods r2 s2 where
        q: "graphqlJson admin (ProductsByVendor after q) s = (Inr d, s1)"
        and pv: "data_products d = Some prods"
        and page: "archiveProducts admin (nodes prods) r s1 = (Inr r2, s2)"
        and rest: "(if \<not> hasNextPage prods then Some (Inr r2, s2)
                    else f admin q r2 (orNull (endCursor prods)) s2) = Some (Inr r', s')"
        by (auto split: prod.splits sum.splits option.splits)
      show "Post after s s'"
      proof (cases "hasNextPage prods")
        case False
        with rest have "s' = s2" by simp
        with last [OF q pv page False] show ?thesis by simp
      next
        case True
        with rest have "f admin q r2 (orNull (endCursor prods)) s2 = Some (Inr r', s')"
          by simp
        from "1.IH" [OF this] have "Post (orNull (endCursor prods)) s2 s'" by blast
        from step [OF q pv page True this] show ?thesis .
      qed
    qed
  qed (fact that)
  from this [OF run] show ?thesis by blast
qed

lemma productQueries_append:
  "productQueries (xs @ ys) = productQueries xs @ productQueries ys"
  by (simp add: productQueries_def logMap_simps)

lemma archiveProduct_queries:
  assumes "archiveProduct (logged admin) p r (log0, s) = (Inr r', (log, s'))"
  shows "\<exists>new. log = log0 @ new \<and> productQueries new = []"
proof (cases "prod_status p = ''ARCHIVED''")
  case True
  with assms show ?thesis
    by (intro exI [of _ "[]"]) (auto simp: archiveProduct_def Let_def productQueries_def logMap_simps)
next
  case False
  obtain b s1 where call: "admin (ArchiveProduct (prod_id p)) s = (b, s1)"
    by (cases "admin (ArchiveProduct (prod_id p)) s")
  from assms False call show ?thesis
    by (intro exI [of _ "[(ArchiveProduct (prod_id p), b)]"])
       (auto simp: archiveProduct_def Let_def graphqlJson_logged data_productUpdate_def
          productQueries_def logMap_simps split: if_splits option.splits gqlData.splits)
qed

lemma archiveProducts_queries:
  "archiveProducts (logged admin) ps r (log0, s) = (Inr r', (log, s')) \<Longrightarrow>
   \<exists>new. log = log0 @ new \<and> productQueries new = []"
proof (induction ps arbitrary: r log0 s)
  case Nil
  then show ?case
    by (intro exI [of _ "[]"]) (simp add: productQueries_def logMap_simps)
next
  case (Cons p ps)
  from Cons.prems obtain mid log1 s1 where
    one: "archiveProduct (logged admin) p r (log0, s) = (Inr mid, (log1, s1))"
    and rest: "archiveProducts (logged admin) ps mid (log1, s1) = (Inr r', (log, s'))"
    by (auto split: prod.splits sum.splits)
  from archiveProduct_queries [OF one] obtain n1 where n1:
    "log1 = log0 @ n1" "productQueries n1 = []"
    by blast
  from Cons.IH [OF rest] obtain n2 where n2:
    "log = log1 @ n2" "productQueries n2 = []"
    by blast
  from n1 n2 show ?case
    by (intro exI [of _ "n1 @ n2"]) (simp add: productQueries_append)
qed

lemma archiveProductsByVendor_loop_pagination:
  assumes run: "archiveProductsByVendor_loop (logged admin) q r0 after0 (log0, s)
            = Some (Inr r, (log, s'))"
  shows "\<exists>new. log = log0 @ new \<and> pagination after0 (productQueries new)"
proof -
  let ?Post = "\<lambda>after ls ls'. \<exists>new. fst ls' = fst ls @ new \<and> pagination after (productQueries new)"
  have "?Post after0 (log0, s) (log, s')"
  proof (rule archiveProductsByVendor_loop_trace_rule [where Post = ?Post, OF run])
    fix r after ls d ls1 prods r2 ls2
    assume q: "graphqlJson (logged admin) (ProductsByVendor after q) ls = (Inr d, ls1)"
      and d: "data_products d = Some prods"
      and page: "archiveProducts (logged admin) (nodes prods) r ls1 = (Inr r2, ls2)"
      and fin: "\<not> hasNextPage prods"
    obtain logA sA where ls: "ls = (logA, sA)" by (cases ls)
    obtain logB sB where ls1: "ls1 = (logB, sB)" by (cases ls1)
    obtain logC sC where ls2: "ls2 = (logC, sC)" by (cases ls2)
    from q ls ls1 d obtain b where
      b: "logB = logA @ [(ProductsByVendor after q, b)]" "data b = Some (ProductsData prods)"
      by (auto simp: graphqlJson_logged data_products_def
            split: prod.splits option.splits gqlData.splits)
    from archiveProducts_queries [OF page [unfolded ls1 ls2]] obtain n2 where n2:
      "logC = logB @ n2" "productQueries n2 = []"
      by blast
    have "productQueries ([(ProductsByVendor after q, b)] @ n2) = [(after, prods)]"
      unfolding productQueries_append using b(2) n2(2) by (simp add: productQueries_def logMap_simps)
    with b(1) n2(1) fin show "?Post after ls ls2"
      unfolding ls ls2 by (intro exI [of _ "(ProductsByVendor after q, b) # n2"]) simp
  next
    fix r after ls d ls1 prods r2 ls2 ls'
    assume q: "graphqlJson (logged admin) (ProductsByVendor after q) ls = (Inr d, ls1)"
      and d: "data_products d = Some prods"
      and page: "archiveProducts (logged admin) (nodes prods) r ls1 = (Inr r2, ls2)"
      and more: "hasNextPage prods"
      and post: "?Post (orNull (endCursor prods)) ls2 ls'"
    obtain logA sA where ls: "ls = (logA, sA)" by (cases ls)
    obtain logB sB where ls1: "ls1 = (logB, sB)" by (cases ls1)
    obtain logC sC where ls2: "ls2 = (logC, sC)" by (cases ls2)
    from q ls ls1 d obtain b where
      b: "logB = logA @ [(ProductsByVendor after q, b)]" "data b = Some (ProductsData prods)"
      by (auto simp: graphqlJson_logged data_products_def
            split: prod.splits option.splits gqlData.splits)
    from archiveProducts_queries [OF page [unfolded ls1 ls2]] obtain n2 where n2:
      "logC = logB @ n2" "productQueries n2 = []"
      by blast
    from post ls2 obtain n3 where n3: "fst ls' = logC @ n3"
      "pagination (orNull (endCursor prods)) (productQueries n3)"
      by auto
    have "productQueries ([(ProductsByVendor after q, b)] @ n2 @ n3)
        = (after, prods) # productQueries n3"
      unfolding productQueries_append using b(2) n2(2) by (simp add: productQueries_def logMap_simps)
    with b(1) n2(1) n3 more show "?Post after ls ls'"
      unfolding ls by (intro exI [of _ "(ProductsByVendor after q, b) # n2 @ n3"]) simp
  qed
  then show ?thesis by simp
qed

lemma scanInventoryPolicies_loop_pagination:
  assumes "scanInventoryPolicies_loop (logged admin) st after (log0, s) = Some (Inr res, (log, s'))"
  shows "\<exists>new. log = log0 @ new \<and> pagination after (scanQueries new)"
proof -
  have "\<forall>log0 s res log s'. a = logged admin \<longrightarrow> ls = (log0, s) \<longrightarrow> y = (Inr res, (log, s'))
            \<longrightarrow> (\<exists>new. log = log0 @ new \<and> pagination after (scanQueries new))"
    if run: "scanInventoryPolicies_loop a st after ls = Some y" for a st after ls y
  proof (induction a st after ls y rule: scanInventoryPolicies_loop.raw_induct)
    case (1 f a st after ls y)
    show ?case
    proof (intro allI impI)
      fix log0 s res log s'
      assume a: "a = logged admin" and ls: "ls = (log0, s)" and y: "y = (Inr res, (log, s'))"
      let ?req = "InventoryPolicyScanVariants after"
      obtain b s1 where call: "admin ?req s = (b, s1)"
        by (cases "admin ?req s")
      from "1.hyps" a ls y call obtain pv where
        d: "data b = Some (ScanVariantsData pv)"
        and body: "(if \<not> hasNextPage pv
                    then Some (Inr (scanFinish (scanPage (nodes pv) st)), (log0 @ [(?req, b)], s1))
                    else f (logged admin) (scanPage (nodes pv) st)
                           (orNull (endCursor pv)) (log0 @ [(?req, b)], s1))
                 = Some (Inr res, (log, s'))"
        by (auto simp: graphqlJson_logged data_scanVariants_def Let_def
              split: option.splits gqlData.splits)
      show "\<exists>new. log = log0 @ new \<and> pagination after (scanQueries new)"
      proof (cases "hasNextPage pv")
        case False
        with body have "log = log0 @ [(?req, b)]" by simp
        with d False show ?thesis
          by (intro exI [of _ "[(?req, b)]"]) (simp add: scanQueries_def logMap_simps)
      next
        case True
        with body have "f (logged admin) (scanPage (nodes pv) st)
                           (orNull (endCursor pv)) (log0 @ [(?req, b)], s1)
                 = Some (Inr res, (log, s'))" by simp
        from "1.IH" [OF this] obtain new where
          r: "log = (log0 @ [(?req, b)]) @ new" "pagination (orNull (endCursor pv)) (scanQueries new)"
          by blast
        from r d True show ?thesis
          by (intro exI [of _ "(?req, b) # new"]) (simp add: scanQueries_def logMap_simps)
      qed
    qed
  qed (fact run)
  from this [OF assms] show ?thesis by blast
qed

subsection \<open>Readings of a log by its turns\<close>

lemma logMap_concat: "logMap f (concat xss) = concat (map (logMap f) xss)"
  by (induction xss) (simp_all add: logMap_simps)

lemma turns_cover:
  "splitTurns log = ([], resetTurns log) \<Longrightarrow> concat (resetTurns log) = log"
  using concat_splitTurns [of log] by simp

lemma chunkArray_Nil: "0 < n \<Longrightarrow> chunkArray [] n = []"
  by (simp add: chunkArray_def chunkArray_loop.simps)

lemma turns_answers_attempts:
  "list_all (turnDispatch locationIds) turns \<Longrightarrow>
   length (returnedAdjustAnswers (concat turns)) = length (firstAdjustAttempts (concat turns))"
  by (induction turns)
     (simp_all add: reset_readings_Nil turn_readings_Nil reset_readings_append
        turn_readings_append turnDispatch_def)

lemma turns_no_changes:
  "list_all (turnDispatch locationIds) turns \<Longrightarrow>
   List.map_filter (spec_zeroingChange (set locationIds)) (fetchedLevels (concat turns)) = [] \<Longrightarrow>
   firstAdjustAttempts (concat turns) = []"
proof (induction turns)
  case Nil
  then show ?case by (simp add: turn_readings_Nil)
next
  case (Cons t turns)
  from Cons.prems(2) have
    t: "List.map_filter (spec_zeroingChange (set locationIds)) (fetchedLevels t) = []"
    and rest: "List.map_filter (spec_zeroingChange (set locationIds)) (fetchedLevels (concat turns)) = []"
    by (simp_all add: fetchedLevels_append map_filter_append)
  from Cons.prems(1) t have "firstAdjustAttempts t = []"
    by (simp add: turnDispatch_def expectedAdjustChunks_def chunkArray_Nil)
  with Cons.IH [OF _ rest] Cons.prems(1) show ?case
    by (simp add: turn_readings_append)
qed

subsection \<open>One step of each loop\<close>

lemma archiveProductsByVendor_loop_step:
  "admin (ProductsByVendor after q) s = (b, t) \<Longrightarrow> data b = Some (ProductsData prods) \<Longrightarrow>
   archiveProducts admin (nodes prods) result t = (Inr result', u) \<Longrightarrow>
   archiveProductsByVendor_loop admin q result after s
     = (if hasNextPage prods
        then archiveProductsByVendor_loop admin q result' (orNull (endCursor prods)) u
        else Some (Inr result', u))"
  by (subst archiveProductsByVendor_loop.simps) (simp add: graphqlJson_def data_products_def)

lemma scanInventoryPolicies_loop_step:
  "admin (InventoryPolicyScanVariants after) s = (b, t) \<Longrightarrow> data b = Some (ScanVariantsData pv) \<Longrightarrow>
   scanInventoryPolicies_loop admin st after s
     = (if hasNextPage pv
        then scanInventoryPolicies_loop admin (scanPage (nodes pv) st) (orNull (endCursor pv)) t
        else Some (Inr (scanFinish (scanPage (nodes pv) st)), t))"
  by (subst scanInventoryPolicies_loop.simps)
     (simp add: graphqlJson_def data_scanVariants_def Let_def)

lemma runInventoryReset_loop_step:
  "admin (InventoryResetVariants after) s = (b, t) \<Longrightarrow> data b = Some (ProductVariantsData pv) \<Longrightarrow>
   resetPage admin locationIds (nodes pv) r t = (Inr r', u) \<Longrightarrow>
   runInventoryReset_loop admin locationIds r after s
     = (if hasNextPage pv
        then runInventoryReset_loop admin locationIds r' (orNull (endCursor pv)) u
        else Some (Inr r', u))"
  by (subst runInventoryReset_loop.simps) (simp add: graphqlJson_def data_productVariants_def)

lemma archiveProducts_failed_next:
  "prod_status p \<noteq> ''ARCHIVED'' \<Longrightarrow> admin (ArchiveProduct (prod_id p)) s = (b, t) \<Longrightarrow>
   data b = Some (ProductUpdateData res) \<Longrightarrow> orEmpty (productUpdate_userErrors res) = errs \<Longrightarrow>
   errs \<noteq> [] \<Longrightarrow>
   archiveProducts admin (p # ps) result s
     = archiveProducts admin ps
         (result\<lparr>scanned := scanned result + 1, archive_ok := False,
                 userErrors := userErrors result + length errs,
                 archive_sampleErrors :=
                   fold (pushSample ''productUpdate'') errs (archive_sampleErrors result)\<rparr>) t"
  by (simp add: archiveProduct_def graphqlJson_def data_productUpdate_def Let_def)

lemma denyChunks_next:
  "admin (InventoryResetDenyPolicy productId (map (\<lambda>v. (v, DENY)) chunk)) s = (b, t) \<Longrightarrow>
   data b = Some (ProductVariantsBulkUpdateData res) \<Longrightarrow>
   denyChunks admin productId (chunk # rest) r s
     = denyChunks admin productId rest
         (fold absorbPolicyUpdateError (orEmpty (bulkUpdate_userErrors res))
            (r\<lparr>policyUpdateCalls := policyUpdateCalls r + 1,
               policyUpdatedVariants := policyUpdatedVariants r + length chunk\<rparr>)) t"
  by (simp add: graphqlJson_def data_productVariantsBulkUpdate_def)

lemma denyProducts_next:
  "denyChunks admin productId (chunkArray variantsForProduct 250) r s = (Inr r', t) \<Longrightarrow>
   denyProducts admin ((productId, variantsForProduct) # rest) r s = denyProducts admin rest r' t"
  by simp

subsection \<open>The pages behind the fetched entities\<close>

lemma fetchedProducts_pages:
  "fetchedProducts log = concat (map (\<lambda>q. nodes (snd q)) (productQueries log))"
proof (induction log)
  case Nil
  show ?case by (simp add: fetchedProducts_def productQueries_def logMap_simps)
next
  case (Cons e log)
  obtain req b where e: "e = (req, b)" by (cases e)
  from Cons e show ?case
    by (cases req)
       (auto simp: fetchedProducts_def productQueries_def logMap_simps
          split: option.splits gqlData.splits)
qed

lemma fetchedScanVariants_pages:
  "fetchedScanVariants log = concat (map (\<lambda>q. nodes (snd q)) (scanQueries log))"
proof (induction log)
  case Nil
  show ?case by (simp add: fetchedScanVariants_def scanQueries_def logMap_simps)
next
  case (Cons e log)
  obtain req b where e: "e = (req, b)" by (cases e)
  from Cons e show ?case
    by (cases req)
       (auto simp: fetchedScanVariants_def scanQueries_def logMap_simps
          split: option.splits gqlData.splits)
qed

lemma fetchedVariantPages_pages:
  "fetchedVariantPages log = map (\<lambda>q. nodes (snd q)) (variantQueries log)"
proof (induction log)
  case Nil
  show ?case by (simp add: fetchedVariantPages_def variantQueries_def logMap_simps)
next
  case (Cons e log)
  obtain req b where e: "e = (req, b)" by (cases e)
  from Cons e show ?case
    by (cases req)
       (auto simp: fetchedVariantPages_def variantQueries_def logMap_simps
          split: option.splits gqlData.splits)
qed

section \<open>Runs against scripted answers\<close>




lemma run_all_deny_adjust_failed:
  "runInventoryReset (logged scripted) [''loc1'']
     ([], [variantsBody [variantOf ''v1'' DENY ''p1'' (trackedItem ''item1'')] False None,
           nodesBody [InventoryItemNode ''item1'' [levelWith ''loc1'' 7]],
           adjustBody ''g1'' [userError_of ''INVALID_QUANTITY'']])
   = Some (Inr \<lparr>ok = False, locations = 1, variantsScanned = 1, inventoryAdjustCalls = 1,
        inventoryAdjustUserErrors = 1, inventoryAdjustIgnoredNotStockedErrors = 0,
        policyUpdateCalls = 0, policyUpdatedVariants = 0, policyUpdateUserErrors = 0,
        sampleErrors = [\<lparr>scope = ''inventoryAdjustQuantities'',
           sample_message = ''error INVALID_QUANTITY'', sample_code = Some ''INVALID_QUANTITY''\<rparr>]\<rparr>,
      ([(InventoryResetVariants None,
         variantsBody [variantOf ''v1'' DENY ''p1'' (trackedItem ''item1'')] False None),
        (InventoryResetInventoryLevels [''item1''],
         nodesBody [InventoryItemNode ''item1'' [levelWith ''loc1'' 7]]),
        (InventoryResetAdjustQuantities ''available'' ''correction'' [change7],
         adjustBody ''g1'' [userError_of ''INVALID_QUANTITY''])],
       []))"
  unfolding runInventoryReset_def
  by (subst runInventoryReset_loop.simps) (simp add: reset_eval trackedItem_def)

lemma run_all_deny_adjust_ok:
  "runInventoryReset (logged scripted) [''loc1'']
     ([], [variantsBody [variantOf ''v1'' DENY ''p1'' (trackedItem ''item1'')] False None,
           nodesBody [InventoryItemNode ''item1'' [levelWith ''loc1'' 7]],
           adjustBody ''g1'' []])
   = Some (Inr \<lparr>ok = True, locations = 1, variantsScanned = 1, inventoryAdjustCalls = 1,
        inventoryAdjustUserErrors = 0, inventoryAdjustIgnoredNotStockedErrors = 0,
        policyUpdateCalls = 0, policyUpdatedVariants = 0, policyUpdateUserErrors = 0,
        sampleErrors = []\<rparr>,
      ([(InventoryResetVariants None,
         variantsBody [variantOf ''v1'' DENY ''p1'' (trackedItem ''item1'')] False None),
        (InventoryResetInventoryLevels [''item1''],
         nodesBody [InventoryItemNode ''item1'' [levelWith ''loc1'' 7]]),
        (InventoryResetAdjustQuantities ''available'' ''correction'' [change7],
         adjustBody ''g1'' [])],
       []))"
  unfolding runInventoryReset_def
  by (subst runInventoryReset_loop.simps) (simp add: reset_eval trackedItem_def)

lemma run_invalid_reason_retry:
  "runInventoryReset (logged scripted) [''loc1'']
     ([], [variantsBody [variantOf ''v1'' DENY ''p1'' (trackedItem ''item1'')] False None,
           nodesBody [InventoryItemNode ''item1'' [levelWith ''loc1'' 7]],
           adjustBody ''g1'' [userError_of ''INVALID_REASON''],
           adjustBody ''g2'' []])
   = Some (Inr \<lparr>ok = True, locations = 1, variantsScanned = 1, inventoryAdjustCalls = 1,
        inventoryAdjustUserErrors = 0, inventoryAdjustIgnoredNotStockedErrors = 0,
        policyUpdateCalls = 0, policyUpdatedVariants = 0, policyUpdateUserErrors = 0,
        sampleErrors = []\<rparr>,
      ([(InventoryResetVariants None,
         variantsBody [variantOf ''v1'' DENY ''p1'' (trackedItem ''item1'')] False None),
        (InventoryResetInventoryLevels [''item1''],
         nodesBody [InventoryItemNode ''item1'' [levelWith ''loc1'' 7]]),
        (InventoryResetAdjustQuantities ''available'' ''correction'' [change7],
         adjustBody ''g1'' [userError_of ''INVALID_REASON'']),
        (InventoryResetAdjustQuantities ''available'' ''cycle_count'' [change7],
         adjustBody ''g2'' [])],
       []))"
  unfolding runInventoryReset_def
  by (subst runInventoryReset_loop.simps) (simp add: reset_eval trackedItem_def)

lemma run_all_deny_all_zero:
  "runInventoryReset (logged scripted) [''loc1'']
     ([], [variantsBody [variantOf ''v1'' DENY ''p1'' (trackedItem ''item1'')] False None,
           nodesBody [InventoryItemNode ''item1'' [levelWith ''loc1'' 0]]])
   = Some (Inr \<lparr>ok = True, locations = 1, variantsScanned = 1, inventoryAdjustCalls = 0,
        inventoryAdjustUserErrors = 0, inventoryAdjustIgnoredNotStockedErrors = 0,
        policyUpdateCalls = 0, policyUpdatedVariants = 0, policyUpdateUserErrors = 0,
        sampleErrors = []\<rparr>,
      ([(InventoryResetVariants None,
         variantsBody [variantOf ''v1'' DENY ''p1'' (trackedItem ''item1'')] False None),
        (InventoryResetInventoryLevels [''item1''],
         nodesBody [InventoryItemNode ''item1'' [levelWith ''loc1'' 0]])],
       []))"
  unfolding runInventoryReset_def
  by (subst runInventoryReset_loop.simps) (simp add: reset_eval trackedItem_def)

lemmas index_eval =
  graphqlJson_logged scripted_def body_of_def productsBody_def productUpdateBody_def
  scanVariantsBody_def scanVariantOf_def userError_of_def
  data_products_def data_productUpdate_def data_scanVariants_def
  archiveProduct_def scanPage_def scanVariantStep_def scanFinish_def setAdd_def
  pushSample_def orEmpty_def orNull_def Let_def

lemma run_archive_with_failure:
  "archiveProductsByVendor (logged scripted) ''Peruzzo''
     ([], [productsBody [(''p1'', ''ACTIVE''), (''p2'', ''ARCHIVED''), (''p3'', ''ACTIVE'')] False None,
           productUpdateBody [userError_of ''INVALID''],
           productUpdateBody []])
   = Some (Inr \<lparr>archive_ok = False, scanned = 3, archived = 1, alreadyArchived = 1,
          userErrors = 1,
          archive_sampleErrors =
            [\<lparr>scope = ''productUpdate'', sample_message = ''error INVALID'',
              sample_code = Some ''INVALID''\<rparr>]\<rparr>,
      ([(ProductsByVendor None ''vendor:Peruzzo'',
         productsBody [(''p1'', ''ACTIVE''), (''p2'', ''ARCHIVED''), (''p3'', ''ACTIVE'')] False None),
        (ArchiveProduct ''p1'', productUpdateBody [userError_of ''INVALID'']),
        (ArchiveProduct ''p3'', productUpdateBody [])],
       []))"
  unfolding archiveProductsByVendor_def
  by (subst archiveProductsByVendor_loop.simps) (simp add: index_eval)

lemma run_scan_two_pages:
  "scanInventoryPolicies (logged scripted)
     ([], [scanVariantsBody [scanVariantOf ''v1'' CONTINUE ''p1'', scanVariantOf ''v2'' DENY ''p1'']
             True (Some ''c1''),
           scanVariantsBody [scanVariantOf ''v3'' DENY ''p2''] False None])
   = Some (Inr \<lparr>scan_ok = False, productsScanned = 2, scan_variantsScanned = 3,
          productsWithContinue = 1, variantsWithContinue = 1,
          sampleOffenders =
            [\<lparr>productTitle = ''title of p1'', productHandle = ''handle-of-p1'',
              variantTitle = ''title of v1'', sku = None\<rparr>]\<rparr>,
      ([(InventoryPolicyScanVariants None,
         scanVariantsBody [scanVariantOf ''v1'' CONTINUE ''p1'', scanVariantOf ''v2'' DENY ''p1'']
             True (Some ''c1'')),
        (InventoryPolicyScanVariants (Some ''c1''),
         scanVariantsBody [scanVariantOf ''v3'' DENY ''p2''] False None)],
       []))"
  unfolding scanInventoryPolicies_def
  apply (subst scanInventoryPolicies_loop.simps)
  apply (simp add: index_eval)
  apply (subst scanInventoryPolicies_loop.simps)
  apply (simp add: index_eval)
  done

lemma run_archive_two_pages:
  "archiveProductsByVendor (logged scripted) ''Peruzzo''
     ([], [productsBody [(''p1'', ''ACTIVE''), (''p2'', ''ARCHIVED'')] True (Some ''c1''),
           productUpdateBody [userError_of ''INVALID''],
           productsBody [(''p3'', ''ACTIVE'')] False None,
           productUpdateBody []])
   = Some (Inr \<lparr>archive_ok = False, scanned = 3, archived = 1, alreadyArchived = 1,
          userErrors = 1,
          archive_sampleErrors =
            [\<lparr>scope = ''productUpdate'', sample_message = ''error INVALID'',
              sample_code = Some ''INVALID''\<rparr>]\<rparr>,
      ([(ProductsByVendor None ''vendor:Peruzzo'',
         productsBody [(''p1'', ''ACTIVE''), (''p2'', ''ARCHIVED'')] True (Some ''c1'')),
        (ArchiveProduct ''p1'', productUpdateBody [userError_of ''INVALID'']),
        (ProductsByVendor (Some ''c1'') ''vendor:Peruzzo'',
         productsBody [(''p3'', ''ACTIVE'')] False None),
        (ArchiveProduct ''p3'', productUpdateBody [])],
       []))"
  unfolding archiveProductsByVendor_def
  apply (subst archiveProductsByVendor_loop.simps)
  apply (simp add: index_eval)
  apply (subst archiveProductsByVendor_loop.simps)
  apply (simp add: index_eval)
  done

lemma run_reset_two_pages:
  "runInventoryReset (logged scripted) [''loc1'']
     ([], [variantsBody [variantOf ''v1'' CONTINUE ''p1'' (trackedItem ''item1'')] True (Some ''c1''),
           nodesBody [InventoryItemNode ''item1'' [levelWith ''loc1'' 7]],
           adjustBody ''g1'' [userError_of ''INVALID_QUANTITY''],
           bulkUpdateBody [] [userError_of ''PRODUCT_SUSPENDED''],
           variantsBody [variantOf ''v2'' CONTINUE ''p2'' (trackedItem ''item1'')] False None,
           nodesBody [InventoryItemNode ''item1'' [levelWith ''loc1'' 7]],
           adjustBody ''g2'' [],
           bulkUpdateBody [(''v2'', ''DENY'')] []])
   = Some (Inr \<lparr>ok = False, locations = 1, variantsScanned = 2, inventoryAdjustCalls = 2,
        inventoryAdjustUserErrors = 1, inventoryAdjustIgnoredNotStockedErrors = 0,
        policyUpdateCalls = 2, policyUpdatedVariants = 2, policyUpdateUserErrors = 1,
        sampleErrors =
          [\<lparr>scope = ''inventoryAdjustQuantities'', sample_message = ''error INVALID_QUANTITY'',
            sample_code = Some ''INVALID_QUANTITY''\<rparr>,
           \<lparr>scope = ''productVariantsBulkUpdate'', sample_message = ''error PRODUCT_SUSPENDED'',
            sample_code = Some ''PRODUCT_SUSPENDED''\<rparr>]\<rparr>,
      ([(InventoryResetVariants None,
         variantsBody [variantOf ''v1'' CONTINUE ''p1'' (trackedItem ''item1'')] True (Some ''c1'')),
        (InventoryResetInventoryLevels [''item1''],
         nodesBody [InventoryItemNode ''item1'' [levelWith ''loc1'' 7]]),
        (InventoryResetAdjustQuantities ''available'' ''correction'' [change7],
         adjustBody ''g1'' [userError_of ''INVALID_QUANTITY'']),
        (InventoryResetDenyPolicy ''p1'' [(''v1'', DENY)],
         bulkUpdateBody [] [userError_of ''PRODUCT_SUSPENDED'']),
        (InventoryResetVariants (Some ''c1''),
         variantsBody [variantOf ''v2'' CONTINUE ''p2'' (trackedItem ''item1'')] False None),
        (InventoryResetInventoryLevels [''item1''],
         nodesBody [InventoryItemNode ''item1'' [levelWith ''loc1'' 7]]),
        (InventoryResetAdjustQuantities ''available'' ''correction'' [change7],
         adjustBody ''g2'' []),
        (InventoryResetDenyPolicy ''p2'' [(''v2'', DENY)],
         bulkUpdateBody [(''v2'', ''DENY'')] [])],
       []))"
  unfolding runInventoryReset_def
  apply (subst runInventoryReset_loop.simps)
  apply (simp add: reset_eval trackedItem_def)
  apply (subst runInventoryReset_loop.simps)
  apply (simp add: reset_eval trackedItem_def)
  done

section \<open>Aggregation of the user-errors of the inventory adjustments\<close>


lemma adjustChunks_next:
  "inventoryAdjustQuantitiesWithReasonFallback admin ''available'' chunk s = (Inr (Some resp), s') \<Longrightarrow>
   adjustChunks admin (chunk # rest) r s
     = adjustChunks admin rest
         (fold absorbInventoryAdjustError (orEmpty (adjust_userErrors resp))
            (r\<lparr>inventoryAdjustCalls := inventoryAdjustCalls r + 1\<rparr>)) s'"
  by simp




section \<open>The deny-policy sweep on a store that is already DENY\<close>

lemma collectVariant_all_deny:
  "\<forall>v \<in> set variants. inventoryPolicy v = DENY \<Longrightarrow>
   fst (fold collectVariant variants acc) = fst acc"
  by (induction variants arbitrary: acc) (auto simp: collectVariant_def split: prod.splits)

lemma expectedDenyPolicy_all_deny:
  "\<forall>v \<in> set variants. inventoryPolicy v = DENY \<Longrightarrow> expectedDenyPolicy variants = []"
  by (simp add: expectedDenyPolicy_def collectVariant_all_deny)

lemma denyPolicyErrors_none:
  "denyPolicyRequests log = [] \<Longrightarrow> denyPolicyErrors log = []"
proof (induction log)
  case Nil
  then show ?case by (simp add: reset_readings_Nil)
next
  case (Cons e log)
  obtain req b where e: "e = (req, b)" by (cases e)
  from Cons e show ?case
    by (cases req) (simp_all add: reset_readings logMap_simps)
qed

text \<open>The answers that the reason fallback returns are among the answers of the run.\<close>

lemma returnedAdjustErrors_among:
  "filter P (adjustAnswerErrors log) = [] \<Longrightarrow> filter P (returnedAdjustErrors log) = []"
proof (induction log)
  case Nil
  then show ?case by (simp add: returnedAdjustErrors_simps)
next
  case (Cons e log)
  obtain req b where e: "e = (req, b)" by (cases e)
  have c: "e # log = [e] @ log" by simp
  from Cons.prems have one: "filter P (adjustAnswerErrors [e]) = []"
    and rest: "filter P (adjustAnswerErrors log) = []"
    unfolding c turn_readings_append by simp_all
  from one e have "filter P (returnedAdjustErrors [e]) = []"
    by (cases req)
       (auto simp: returnedAdjustErrors_def returnedAdjustAnswers_def adjustAnswerErrors_def
          logMap_simps split: option.splits gqlData.splits if_splits)
  with Cons.IH [OF rest] show ?case
    unfolding c returnedAdjustErrors_simps by simp
qed

lemma returnedAdjustErrors_none:
  "returnedAdjustAnswers log = [] \<Longrightarrow> returnedAdjustErrors log = []"
  by (simp add: returnedAdjustErrors_def)

text \<open>A run that finds no inventory level to zero sends no inventory adjustment.\<close>

lemma runInventoryReset_no_changes:
  assumes run: "runInventoryReset (logged admin) locationIds ([], s) = Some (Inr r, (log, s'))"
    and none: "List.map_filter (spec_zeroingChange (set locationIds)) (fetchedLevels log) = []"
  shows "adjustRequests log = []" and "returnedAdjustErrors log = []"
proof -
  from runInventoryReset_loop_turns [OF run [unfolded runInventoryReset_def]]
  have split: "splitTurns log = ([], resetTurns log)"
    and turns: "list_all (turnDispatch locationIds) (resetTurns log)"
    by auto
  from turns_cover [OF split] have cover: "concat (resetTurns log) = log" .
  from turns_no_changes [OF turns] none cover have "firstAdjustAttempts log = []"
    by simp
  with turns_answers_attempts [OF turns] cover have answers: "returnedAdjustAnswers log = []"
    by simp
  from runInventoryReset_loop_logged [OF run [unfolded runInventoryReset_def]]
  have "length (adjustRequests log) \<le> 3 * length (returnedAdjustAnswers log)"
    by auto
  with answers show "adjustRequests log = []" by simp
  from answers show "returnedAdjustErrors log = []" by (rule returnedAdjustErrors_none)
qed

text \<open>
  A run in which the only scanned variant already has the policy DENY: no policy update
  is sent, and yet the result is not ok, because the inventory adjustment of the same
  run reported a user-error.
\<close>

theorem deny_sweep_all_deny_ok_counterexample:
  "runInventoryReset (logged scripted) [''loc1'']
     ([], [variantsBody [variantOf ''v1'' DENY ''p1'' (trackedItem ''item1'')] False None,
           nodesBody [InventoryItemNode ''item1'' [levelWith ''loc1'' 7]],
           adjustBody ''g1'' [userError_of ''INVALID_QUANTITY'']])
   = Some (Inr \<lparr>ok = False, locations = 1, variantsScanned = 1, inventoryAdjustCalls = 1,
        inventoryAdjustUserErrors = 1, inventoryAdjustIgnoredNotStockedErrors = 0,
        policyUpdateCalls = 0, policyUpdatedVariants = 0, policyUpdateUserErrors = 0,
        sampleErrors = [\<lparr>scope = ''inventoryAdjustQuantities'',
           sample_message = ''error INVALID_QUANTITY'', sample_code = Some ''INVALID_QUANTITY''\<rparr>]\<rparr>,
      ([(InventoryResetVariants None,
         variantsBody [variantOf ''v1'' DENY ''p1'' (trackedItem ''item1'')] False None),
        (InventoryResetInventoryLevels [''item1''],
         nodesBody [InventoryItemNode ''item1'' [levelWith ''loc1'' 7]]),
        (InventoryResetAdjustQuantities ''available'' ''correction'' [change7],
         adjustBody ''g1'' [userError_of ''INVALID_QUANTITY''])],
       []))"
  by (rule run_all_deny_adjust_failed)

text \<open>
  Claim C9, as amended. A run of the inventory reset in which every scanned variant
  already has the policy DENY sends no productVariantsBulkUpdate mutation and counts no
  policy-update call, variant or error: the grouping by product collects only the
  variants whose policy is not DENY, so it is empty and the policy-update loop
  dispatches no chunk. The result of such a run is ok if and only if none of the
  answers that the reason fallback returned for the inventory adjustments of the run
  (for each chunk the first answer without INVALID_REASON, or else the answer to the
  third attempt) carries a user-error other than ITEM_NOT_STOCKED_AT_LOCATION; the
  user-errors of an answer that was followed by another attempt do not count. So the
  result is ok when no answer to an inventory adjustment carries such a user-error,
  and when the fetched inventory levels call for no zeroing change, in which case the
  run sends no inventory adjustment either. The inventory zeroing of such a run is
  that of any run: every turn queries the levels of its page and dispatches one
  adjustment for every chunk of 250 of their zeroing changes.
\<close>

theorem deny_sweep_all_deny:
  "(runInventoryReset (logged admin) locationIds ([], s) = Some (Inr r, (log, s'))
      \<and> (\<forall>variants \<in> set (fetchedVariantPages log). \<forall>v \<in> set variants. inventoryPolicy v = DENY)
    \<longrightarrow> denyPolicyRequests log = []
        \<and> policyUpdateCalls r = 0 \<and> policyUpdatedVariants r = 0 \<and> policyUpdateUserErrors r = 0
        \<and> (ok r \<longleftrightarrow> inventoryAdjustUserErrors r = 0)
        \<and> inventoryAdjustUserErrors r
            = length (filter (\<lambda>e. code e \<noteq> Some ''ITEM_NOT_STOCKED_AT_LOCATION'')
                        (returnedAdjustErrors log))
        \<and> (ok r \<longleftrightarrow>
             filter (\<lambda>e. code e \<noteq> Some ''ITEM_NOT_STOCKED_AT_LOCATION'')
               (returnedAdjustErrors log) = [])
        \<and> (filter (\<lambda>e. code e \<noteq> Some ''ITEM_NOT_STOCKED_AT_LOCATION'')
              (adjustAnswerErrors log) = [] \<longrightarrow> ok r)
        \<and> (List.map_filter (spec_zeroingChange (set locationIds)) (fetchedLevels log) = [] \<longrightarrow>
             adjustRequests log = [] \<and> ok r)
        \<and> concat (resetTurns log) = log
        \<and> list_all (turnDispatch locationIds) (resetTurns log))
   \<and> ((\<forall>v \<in> set variants. inventoryPolicy v = DENY) \<longrightarrow>
        fst (fold collectVariant variants ([], [])) = [])"
proof (intro conjI impI)
  assume h: "runInventoryReset (logged admin) locationIds ([], s) = Some (Inr r, (log, s'))
      \<and> (\<forall>variants \<in> set (fetchedVariantPages log). \<forall>v \<in> set variants. inventoryPolicy v = DENY)"
  let ?nonbenign = "\<lambda>e. code e \<noteq> Some ''ITEM_NOT_STOCKED_AT_LOCATION''"
  let ?fresh = "\<lparr>ok = True, locations = length locationIds, variantsScanned = 0,
        inventoryAdjustCalls = 0, inventoryAdjustUserErrors = 0,
        inventoryAdjustIgnoredNotStockedErrors = 0, policyUpdateCalls = 0,
        policyUpdatedVariants = 0, policyUpdateUserErrors = 0, sampleErrors = []\<rparr>"
  from h have whole: "runInventoryReset (logged admin) locationIds ([], s) = Some (Inr r, (log, s'))"
    by simp
  from h have run: "runInventoryReset_loop (logged admin) locationIds ?fresh None ([], s)
      = Some (Inr r, (log, s'))"
    by (simp add: runInventoryReset_def)
  from runInventoryReset_loop_logged [OF run] have
    acc: "resetAccounts ?fresh log r"
    and req: "denyPolicyRequests log = concat (map expectedDenyPolicy (fetchedVariantPages log))"
    by auto
  from h have "\<forall>variants \<in> set (fetchedVariantPages log). expectedDenyPolicy variants = []"
    by (simp add: expectedDenyPolicy_all_deny)
  with req show none: "denyPolicyRequests log = []" by simp
  from denyPolicyErrors_none [OF none] have errs: "denyPolicyErrors log = []" .
  from acc none errs show "policyUpdateCalls r = 0" "policyUpdatedVariants r = 0"
    "policyUpdateUserErrors r = 0"
    "ok r \<longleftrightarrow> inventoryAdjustUserErrors r = 0"
    "inventoryAdjustUserErrors r = length (filter ?nonbenign (returnedAdjustErrors log))"
    by (simp_all add: resetAccounts_def)
  from acc errs show iff: "ok r \<longleftrightarrow> filter ?nonbenign (returnedAdjustErrors log) = []"
    by (simp add: resetAccounts_def)
  {
    assume "filter ?nonbenign (adjustAnswerErrors log) = []"
    from returnedAdjustErrors_among [OF this] iff show "ok r" by simp
  }
  {
    assume z: "List.map_filter (spec_zeroingChange (set locationIds)) (fetchedLevels log) = []"
    from runInventoryReset_no_changes [OF whole z] iff
    show "adjustRequests log = []" and "ok r" by simp_all
  }
  from runInventoryReset_loop_turns [OF run]
  have split: "splitTurns log = ([], resetTurns log)"
    and turns: "list_all (turnDispatch locationIds) (resetTurns log)"
    by auto
  from turns_cover [OF split] show "concat (resetTurns log) = log" .
  from turns show "list_all (turnDispatch locationIds) (resetTurns log)" .
next
  assume "\<forall>v \<in> set variants. inventoryPolicy v = DENY"
  then show "fst (fold collectVariant variants ([], [])) = []"
    by (simp add: collectVariant_all_deny)
qed

theorem deny_sweep_all_deny_witness:
  "runInventoryReset (logged scripted) [''loc1'']
     ([], [variantsBody [variantOf ''v1'' DENY ''p1'' (trackedItem ''item1'')] False None,
           nodesBody [InventoryItemNode ''item1'' [levelWith ''loc1'' 7]],
           adjustBody ''g1'' []])
   = Some (Inr \<lparr>ok = True, locations = 1, variantsScanned = 1, inventoryAdjustCalls = 1,
        inventoryAdjustUserErrors = 0, inventoryAdjustIgnoredNotStockedErrors = 0,
        policyUpdateCalls = 0, policyUpdatedVariants = 0, policyUpdateUserErrors = 0,
        sampleErrors = []\<rparr>,
      ([(InventoryResetVariants None,
         variantsBody [variantOf ''v1'' DENY ''p1'' (trackedItem ''item1'')] False None),
        (InventoryResetInventoryLevels [''item1''],
         nodesBody [InventoryItemNode ''item1'' [levelWith ''loc1'' 7]]),
        (InventoryResetAdjustQuantities ''available'' ''correction'' [change7],
         adjustBody ''g1'' [])],
       []))
   \<and> fetchedVariantPages
          [(InventoryResetVariants None,
            variantsBody [variantOf ''v1'' DENY ''p1'' (trackedItem ''item1'')] False None),
           (InventoryResetInventoryLevels [''item1''],
            nodesBody [InventoryItemNode ''item1'' [levelWith ''loc1'' 7]]),
           (InventoryResetAdjustQuantities ''available'' ''correction'' [change7],
            adjustBody ''g1'' [])]
       = [[variantOf ''v1'' DENY ''p1'' (trackedItem ''item1'')]]
   \<and> map inventoryPolicy [variantOf ''v1'' DENY ''p1'' (trackedItem ''item1'')] = [DENY]
   \<and> denyPolicyRequests
          [(InventoryResetVariants None,
            variantsBody [variantOf ''v1'' DENY ''p1'' (trackedItem ''item1'')] False None),
           (InventoryResetInventoryLevels [''item1''],
            nodesBody [InventoryItemNode ''item1'' [levelWith ''loc1'' 7]]),
           (InventoryResetAdjustQuantities ''available'' ''correction'' [change7],
            adjustBody ''g1'' [])] = []
   \<and> fst (fold collectVariant [variantOf ''v1'' DENY ''p1'' (trackedItem ''item1'')] ([], [])) = []
   \<and> filter (\<lambda>e. code e \<noteq> Some ''ITEM_NOT_STOCKED_AT_LOCATION'')
        (adjustAnswerErrors
          [(InventoryResetVariants None,
            variantsBody [variantOf ''v1'' DENY ''p1'' (trackedItem ''item1'')] False None),
           (InventoryResetInventoryLevels [''item1''],
            nodesBody [InventoryItemNode ''item1'' [levelWith ''loc1'' 7]]),
           (InventoryResetAdjustQuantities ''available'' ''correction'' [change7],
            adjustBody ''g1'' [])]) = []
   \<and> runInventoryReset (logged scripted) [''loc1'']
     ([], [variantsBody [variantOf ''v1'' DENY ''p1'' (trackedItem ''item1'')] False None,
           nodesBody [InventoryItemNode ''item1'' [levelWith ''loc1'' 0]]])
   = Some (Inr \<lparr>ok = True, locations = 1, variantsScanned = 1, inventoryAdjustCalls = 0,
        inventoryAdjustUserErrors = 0, inventoryAdjustIgnoredNotStockedErrors = 0,
        policyUpdateCalls = 0, policyUpdatedVariants = 0, policyUpdateUserErrors = 0,
        sampleErrors = []\<rparr>,
      ([(InventoryResetVariants None,
         variantsBody [variantOf ''v1'' DENY ''p1'' (trackedItem ''item1'')] False None),
        (InventoryResetInventoryLevels [''item1''],
         nodesBody [InventoryItemNode ''item1'' [levelWith ''loc1'' 0]])],
       []))
   \<and> List.map_filter (spec_zeroingChange (set [''loc1'']))
        (fetchedLevels
          [(InventoryResetVariants None,
            variantsBody [variantOf ''v1'' DENY ''p1'' (trackedItem ''item1'')] False None),
           (InventoryResetInventoryLevels [''item1''],
            nodesBody [InventoryItemNode ''item1'' [levelWith ''loc1'' 0]])]) = []
   \<and> adjustRequests
          [(InventoryResetVariants None,
            variantsBody [variantOf ''v1'' DENY ''p1'' (trackedItem ''item1'')] False None),
           (InventoryResetInventoryLevels [''item1''],
            nodesBody [InventoryItemNode ''item1'' [levelWith ''loc1'' 0]])] = []
   \<and> runInventoryReset (logged scripted) [''loc1'']
     ([], [variantsBody [variantOf ''v1'' DENY ''p1'' (trackedItem ''item1'')] False None,
           nodesBody [InventoryItemNode ''item1'' [levelWith ''loc1'' 7]],
           adjustBody ''g1'' [userError_of ''INVALID_REASON''],
           adjustBody ''g2'' []])
   = Some (Inr \<lparr>ok = True, locations = 1, variantsScanned = 1, inventoryAdjustCalls = 1,
        inventoryAdjustUserErrors = 0, inventoryAdjustIgnoredNotStockedErrors = 0,
        policyUpdateCalls = 0, policyUpdatedVariants = 0, policyUpdateUserErrors = 0,
        sampleErrors = []\<rparr>,
      ([(InventoryResetVariants None,
         variantsBody [variantOf ''v1'' DENY ''p1'' (trackedItem ''item1'')] False None),
        (InventoryResetInventoryLevels [''item1''],
         nodesBody [InventoryItemNode ''item1'' [levelWith ''loc1'' 7]]),
        (InventoryResetAdjustQuantities ''available'' ''correction'' [change7],
         adjustBody ''g1'' [userError_of ''INVALID_REASON'']),
        (InventoryResetAdjustQuantities ''available'' ''cycle_count'' [change7],
         adjustBody ''g2'' [])],
       []))
   \<and> filter (\<lambda>e. code e \<noteq> Some ''ITEM_NOT_STOCKED_AT_LOCATION'')
        (returnedAdjustErrors
          [(InventoryResetVariants None,
            variantsBody [variantOf ''v1'' DENY ''p1'' (trackedItem ''item1'')] False None),
           (InventoryResetInventoryLevels [''item1''],
            nodesBody [InventoryItemNode ''item1'' [levelWith ''loc1'' 7]]),
           (InventoryResetAdjustQuantities ''available'' ''correction'' [change7],
            adjustBody ''g1'' [userError_of ''INVALID_REASON'']),
           (InventoryResetAdjustQuantities ''available'' ''cycle_count'' [change7],
            adjustBody ''g2'' [])]) = []
   \<and> filter (\<lambda>e. code e \<noteq> Some ''ITEM_NOT_STOCKED_AT_LOCATION'')
        (adjustAnswerErrors
          [(InventoryResetVariants None,
            variantsBody [variantOf ''v1'' DENY ''p1'' (trackedItem ''item1'')] False None),
           (InventoryResetInventoryLevels [''item1''],
            nodesBody [InventoryItemNode ''item1'' [levelWith ''loc1'' 7]]),
           (InventoryResetAdjustQuantities ''available'' ''correction'' [change7],
            adjustBody ''g1'' [userError_of ''INVALID_REASON'']),
           (InventoryResetAdjustQuantities ''available'' ''cycle_count'' [change7],
            adjustBody ''g2'' [])]) = [userError_of ''INVALID_REASON'']
   \<and> list_all (turnDispatch [''loc1''])
        (resetTurns
          [(InventoryResetVariants None,
            variantsBody [variantOf ''v1'' DENY ''p1'' (trackedItem ''item1'')] False None),
           (InventoryResetInventoryLevels [''item1''],
            nodesBody [InventoryItemNode ''item1'' [levelWith ''loc1'' 7]]),
           (InventoryResetAdjustQuantities ''available'' ''correction'' [change7],
            adjustBody ''g1'' [userError_of ''INVALID_REASON'']),
           (InventoryResetAdjustQuantities ''available'' ''cycle_count'' [change7],
            adjustBody ''g2'' [])])"
proof -
  let ?vs = "[variantOf ''v1'' DENY ''p1'' (trackedItem ''item1'')]"
  let ?nonbenign = "\<lambda>e. code e \<noteq> Some ''ITEM_NOT_STOCKED_AT_LOCATION''"
  let ?vq = "(InventoryResetVariants None, variantsBody ?vs False None)"
  let ?lq = "(InventoryResetInventoryLevels [''item1''],
            nodesBody [InventoryItemNode ''item1'' [levelWith ''loc1'' 7]])"
  let ?lz = "(InventoryResetInventoryLevels [''item1''],
            nodesBody [InventoryItemNode ''item1'' [levelWith ''loc1'' 0]])"
  \<comment> \<open>every variant is DENY and the inventory adjustment is answered without user-errors\<close>
  let ?script = "[variantsBody ?vs False None,
           nodesBody [InventoryItemNode ''item1'' [levelWith ''loc1'' 7]],
           adjustBody ''g1'' []]"
  let ?log = "[?vq, ?lq,
           (InventoryResetAdjustQuantities ''available'' ''correction'' [change7],
            adjustBody ''g1'' [])]"
  let ?r = "\<lparr>ok = True, locations = 1, variantsScanned = 1, inventoryAdjustCalls = 1,
        inventoryAdjustUserErrors = 0, inventoryAdjustIgnoredNotStockedErrors = 0,
        policyUpdateCalls = 0, policyUpdatedVariants = 0, policyUpdateUserErrors = 0,
        sampleErrors = []\<rparr>"
  have run: "runInventoryReset (logged scripted) [''loc1''] ([], ?script) = Some (Inr ?r, (?log, []))"
    by (rule run_all_deny_adjust_ok)
  have pages: "fetchedVariantPages ?log = [?vs]"
    by (simp add: reset_readings logMap_simps variantsBody_def body_of_def)
  have deny: "\<forall>variants \<in> set (fetchedVariantPages ?log). \<forall>v \<in> set variants. inventoryPolicy v = DENY"
    by (simp only: pages) (simp add: variantOf_def)
  have deny': "\<forall>v \<in> set ?vs. inventoryPolicy v = DENY"
    by (simp add: variantOf_def)
  note inst = deny_sweep_all_deny [where admin = scripted and locationIds = "[''loc1'']"
      and s = ?script and r = ?r and log = ?log and s' = "[]" and variants = ?vs]
  have policies: "map inventoryPolicy ?vs = [DENY]"
    by (simp add: variantOf_def)
  have answers: "filter ?nonbenign (adjustAnswerErrors ?log) = []"
    by (simp add: adjustAnswerErrors_def logMap_simps data_adjustBody adjustResponse_def orEmpty_def)
  from mp [OF conjunct1 [OF inst] conjI [OF run deny]] answers
  have a: "denyPolicyRequests ?log = []" "ok ?r"
    by blast+
  from mp [OF conjunct2 [OF inst] deny']
  have b: "fst (fold collectVariant ?vs ([], [])) = []" .
  \<comment> \<open>every variant is DENY and every inventory level is already zero\<close>
  let ?zscript = "[variantsBody ?vs False None,
           nodesBody [InventoryItemNode ''item1'' [levelWith ''loc1'' 0]]]"
  let ?zlog = "[?vq, ?lz]"
  let ?zr = "\<lparr>ok = True, locations = 1, variantsScanned = 1, inventoryAdjustCalls = 0,
        inventoryAdjustUserErrors = 0, inventoryAdjustIgnoredNotStockedErrors = 0,
        policyUpdateCalls = 0, policyUpdatedVariants = 0, policyUpdateUserErrors = 0,
        sampleErrors = []\<rparr>"
  have zrun: "runInventoryReset (logged scripted) [''loc1''] ([], ?zscript)
      = Some (Inr ?zr, (?zlog, []))"
    by (rule run_all_deny_all_zero)
  have zpages: "fetchedVariantPages ?zlog = [?vs]"
    by (simp add: reset_readings logMap_simps variantsBody_def body_of_def)
  have zdeny: "\<forall>variants \<in> set (fetchedVariantPages ?zlog). \<forall>v \<in> set variants. inventoryPolicy v = DENY"
    by (simp only: zpages) (simp add: variantOf_def)
  have zero: "List.map_filter (spec_zeroingChange (set [''loc1''])) (fetchedLevels ?zlog) = []"
    by (simp add: fetchedLevels_def variantsBody_def nodesBody_def body_of_def node_levels_def
          levelWith_def spec_zeroingChange_def List.map_filter_simps)
  from mp [OF conjunct1 [OF deny_sweep_all_deny [where admin = scripted
        and locationIds = "[''loc1'']" and s = ?zscript and r = ?zr and log = ?zlog
        and s' = "[]"]] conjI [OF zrun zdeny]] zero
  have c: "adjustRequests ?zlog = []"
    by blast
  \<comment> \<open>every variant is DENY and the first answer to the adjustment reports INVALID_REASON\<close>
  let ?rscript = "[variantsBody ?vs False None,
           nodesBody [InventoryItemNode ''item1'' [levelWith ''loc1'' 7]],
           adjustBody ''g1'' [userError_of ''INVALID_REASON''],
           adjustBody ''g2'' []]"
  let ?rlog = "[?vq, ?lq,
        (InventoryResetAdjustQuantities ''available'' ''correction'' [change7],
         adjustBody ''g1'' [userError_of ''INVALID_REASON'']),
        (InventoryResetAdjustQuantities ''available'' ''cycle_count'' [change7],
         adjustBody ''g2'' [])]"
  have rrun: "runInventoryReset (logged scripted) [''loc1''] ([], ?rscript)
      = Some (Inr ?r, (?rlog, []))"
    by (rule run_invalid_reason_retry)
  have rpages: "fetchedVariantPages ?rlog = [?vs]"
    by (simp add: reset_readings logMap_simps variantsBody_def body_of_def)
  have rdeny: "\<forall>variants \<in> set (fetchedVariantPages ?rlog). \<forall>v \<in> set variants. inventoryPolicy v = DENY"
    by (simp only: rpages) (simp add: variantOf_def)
  from mp [OF conjunct1 [OF deny_sweep_all_deny [where admin = scripted
        and locationIds = "[''loc1'']" and s = ?rscript and r = ?r and log = ?rlog
        and s' = "[]"]] conjI [OF rrun rdeny]]
  have d: "filter ?nonbenign (returnedAdjustErrors ?rlog) = []"
    "list_all (turnDispatch [''loc1'']) (resetTurns ?rlog)"
    by simp_all
  have e: "filter ?nonbenign (adjustAnswerErrors ?rlog) = [userError_of ''INVALID_REASON'']"
    by (simp add: adjustAnswerErrors_def logMap_simps data_adjustBody adjustResponse_def
          orEmpty_def code_userError_of)
  from run pages policies a b answers zrun zero c rrun d e show ?thesis by blast
qed

section \<open>Partial failures in the orchestrators\<close>

text \<open>
  A run of the inventory reset in which the first answer to an inventory adjustment
  reports the user-error INVALID_REASON: the same chunk is sent a second time, with the
  next reason, and the user-error of the first answer is recorded nowhere in the result
  (ok stays true, the failure counter stays 0, there is no sample error).
\<close>

theorem orchestrator_retry_counterexample:
  "runInventoryReset (logged scripted) [''loc1'']
     ([], [variantsBody [variantOf ''v1'' DENY ''p1'' (trackedItem ''item1'')] False None,
           nodesBody [InventoryItemNode ''item1'' [levelWith ''loc1'' 7]],
           adjustBody ''g1'' [userError_of ''INVALID_REASON''],
           adjustBody ''g2'' []])
   = Some (Inr \<lparr>ok = True, locations = 1, variantsScanned = 1, inventoryAdjustCalls = 1,
        inventoryAdjustUserErrors = 0, inventoryAdjustIgnoredNotStockedErrors = 0,
        policyUpdateCalls = 0, policyUpdatedVariants = 0, policyUpdateUserErrors = 0,
        sampleErrors = []\<rparr>,
      ([(InventoryResetVariants None,
         variantsBody [variantOf ''v1'' DENY ''p1'' (trackedItem ''item1'')] False None),
        (InventoryResetInventoryLevels [''item1''],
         nodesBody [InventoryItemNode ''item1'' [levelWith ''loc1'' 7]]),
        (InventoryResetAdjustQuantities ''available'' ''correction'' [change7],
         adjustBody ''g1'' [userError_of ''INVALID_REASON'']),
        (InventoryResetAdjustQuantities ''available'' ''cycle_count'' [change7],
         adjustBody ''g2'' [])],
       []))"
  by (rule run_invalid_reason_retry)

text \<open>
  Claim C8, as amended. For every run of a bulk orchestrator (vendor archive, policy
  scan, inventory reset) that returns, the ok flag of the result is true if and only if
  the run recorded zero failures: no productUpdate user-error, no variant with the
  policy CONTINUE, no inventory-adjust or policy-update user-error. The user-errors of
  every productUpdate answer, of every productVariantsBulkUpdate answer and of every
  inventory-adjust answer that the reason fallback returns are counted, and the pass
  goes on with the next product, chunk and page instead of aborting: the pages are
  fetched one after the other, each from the end cursor of the one before, up to the
  first that reports no next page; every fetched product that is not archived is sent
  once, in order; and every turn of the inventory reset (a page of variants and what
  follows it) queries the levels of the page's tracked items, dispatches one inventory
  adjustment for every chunk of 250 of the zeroing changes of the fetched levels and
  sends every policy-update chunk of the page once. After a page, a product or a chunk
  each loop continues with the next whatever the answer carried. Nothing is sent a
  second time, with one exception: an inventory-adjust chunk whose answer reports
  INVALID_REASON is sent again with the next fallback reason, at most three times in
  all, and of its answers only the one that the fallback returns (the first without
  INVALID_REASON, or the answer to the last reason) has its user-errors counted, as
  failures or as ignored not-stocked errors.
\<close>

theorem orchestrator_runs:
  "(archiveProductsByVendor (logged admin) vendor ([], s) = Some (Inr ar, (alog, s')) \<longrightarrow>
      (archive_ok ar \<longleftrightarrow> userErrors ar = 0)
      \<and> userErrors ar = length (concat (archiveAnswers alog))
      \<and> archiveRequests alog
          = map prod_id (filter (\<lambda>p. prod_status p \<noteq> ''ARCHIVED'') (fetchedProducts alog))
      \<and> scanned ar = length (fetchedProducts alog)
      \<and> alreadyArchived ar
          = length (filter (\<lambda>p. prod_status p = ''ARCHIVED'') (fetchedProducts alog))
      \<and> archived ar = length (filter (\<lambda>es. es = []) (archiveAnswers alog))
      \<and> pagination None (productQueries alog)
      \<and> fetchedProducts alog = concat (map (\<lambda>q. nodes (snd q)) (productQueries alog)))
   \<and> (scanInventoryPolicies (logged admin) ([], s) = Some (Inr sr, (slog, s')) \<longrightarrow>
      (scan_ok sr \<longleftrightarrow> variantsWithContinue sr = 0)
      \<and> variantsWithContinue sr
          = length (filter (\<lambda>v. scan_inventoryPolicy v = CONTINUE) (fetchedScanVariants slog))
      \<and> scan_variantsScanned sr = length (fetchedScanVariants slog)
      \<and> pagination None (scanQueries slog)
      \<and> fetchedScanVariants slog = concat (map (\<lambda>q. nodes (snd q)) (scanQueries slog)))
   \<and> (runInventoryReset (logged admin) locationIds ([], s) = Some (Inr r, (log, s')) \<longrightarrow>
      (ok r \<longleftrightarrow> inventoryAdjustUserErrors r = 0 \<and> policyUpdateUserErrors r = 0)
      \<and> policyUpdateUserErrors r = length (denyPolicyErrors log)
      \<and> policyUpdateCalls r = length (denyPolicyRequests log)
      \<and> denyPolicyRequests log = concat (map expectedDenyPolicy (fetchedVariantPages log))
      \<and> variantsScanned r = length (concat (fetchedVariantPages log))
      \<and> inventoryAdjustCalls r = length (returnedAdjustAnswers log)
      \<and> inventoryAdjustUserErrors r
          = length (filter (\<lambda>e. code e \<noteq> Some ''ITEM_NOT_STOCKED_AT_LOCATION'')
                      (returnedAdjustErrors log))
      \<and> inventoryAdjustIgnoredNotStockedErrors r
          = length (filter (\<lambda>e. code e = Some ''ITEM_NOT_STOCKED_AT_LOCATION'')
                      (returnedAdjustErrors log))
      \<and> length (adjustRequests log) \<le> 3 * inventoryAdjustCalls r
      \<and> pagination None (variantQueries log)
      \<and> fetchedVariantPages log = map (\<lambda>q. nodes (snd q)) (variantQueries log)
      \<and> concat (resetTurns log) = log
      \<and> list_all (turnDispatch locationIds) (resetTurns log)
      \<and> inventoryAdjustCalls r = length (firstAdjustAttempts log))
   \<and> (admin (ProductsByVendor after q) s = (b, t) \<and> data b = Some (ProductsData prods)
        \<and> archiveProducts admin (nodes prods) ar t = (Inr ar', u) \<longrightarrow>
      archiveProductsByVendor_loop admin q ar after s
        = (if hasNextPage prods
           then archiveProductsByVendor_loop admin q ar' (orNull (endCursor prods)) u
           else Some (Inr ar', u)))
   \<and> (prod_status p \<noteq> ''ARCHIVED'' \<and> admin (ArchiveProduct (prod_id p)) s = (b, t)
        \<and> data b = Some (ProductUpdateData res)
        \<and> orEmpty (productUpdate_userErrors res) = errs \<and> errs \<noteq> [] \<longrightarrow>
      archiveProducts admin (p # ps) ar s
        = archiveProducts admin ps
            (ar\<lparr>scanned := scanned ar + 1, archive_ok := False,
                userErrors := userErrors ar + length errs,
                archive_sampleErrors :=
                  fold (pushSample ''productUpdate'') errs (archive_sampleErrors ar)\<rparr>) t)
   \<and> (admin (InventoryPolicyScanVariants after) s = (b, t)
        \<and> data b = Some (ScanVariantsData spv) \<longrightarrow>
      scanInventoryPolicies_loop admin st after s
        = (if hasNextPage spv
           then scanInventoryPolicies_loop admin (scanPage (nodes spv) st)
                  (orNull (endCursor spv)) t
           else Some (Inr (scanFinish (scanPage (nodes spv) st)), t)))
   \<and> (admin (InventoryResetVariants after) s = (b, t) \<and> data b = Some (ProductVariantsData pv)
        \<and> resetPage admin locationIds (nodes pv) r t = (Inr r', u) \<longrightarrow>
      runInventoryReset_loop admin locationIds r after s
        = (if hasNextPage pv
           then runInventoryReset_loop admin locationIds r' (orNull (endCursor pv)) u
           else Some (Inr r', u)))
   \<and> (inventoryAdjustQuantitiesWithReasonFallback admin ''available'' chunk s
          = (Inr (Some resp), t) \<longrightarrow>
      adjustChunks admin (chunk # rest) r s
        = adjustChunks admin rest
            (fold absorbInventoryAdjustError (orEmpty (adjust_userErrors resp))
               (r\<lparr>inventoryAdjustCalls := inventoryAdjustCalls r + 1\<rparr>)) t)
   \<and> (admin (InventoryResetDenyPolicy productId (map (\<lambda>v. (v, DENY)) ids)) s = (b, t)
        \<and> data b = Some (ProductVariantsBulkUpdateData bres) \<longrightarrow>
      denyChunks admin productId (ids # more_ids) r s
        = denyChunks admin productId more_ids
            (fold absorbPolicyUpdateError (orEmpty (bulkUpdate_userErrors bres))
               (r\<lparr>policyUpdateCalls := policyUpdateCalls r + 1,
                  policyUpdatedVariants := policyUpdatedVariants r + length ids\<rparr>)) t)
   \<and> (denyChunks admin productId (chunkArray variantsForProduct 250) r s = (Inr r', t) \<longrightarrow>
      denyProducts admin ((productId, variantsForProduct) # entries) r s
        = denyProducts admin entries r' t)"
proof (intro conjI impI)
  assume run: "archiveProductsByVendor (logged admin) vendor ([], s) = Some (Inr ar, (alog, s'))"
  from archiveProductsByVendor_logged [OF run]
  show "archive_ok ar \<longleftrightarrow> userErrors ar = 0"
    and "userErrors ar = length (concat (archiveAnswers alog))"
    and "archiveRequests alog
          = map prod_id (filter (\<lambda>p. prod_status p \<noteq> ''ARCHIVED'') (fetchedProducts alog))"
    and "scanned ar = length (fetchedProducts alog)"
    and "alreadyArchived ar
          = length (filter (\<lambda>p. prod_status p = ''ARCHIVED'') (fetchedProducts alog))"
    and "archived ar = length (filter (\<lambda>es. es = []) (archiveAnswers alog))"
    by simp_all
  from archiveProductsByVendor_loop_pagination [OF run [unfolded archiveProductsByVendor_def]]
  show "pagination None (productQueries alog)" by simp
  show "fetchedProducts alog = concat (map (\<lambda>q. nodes (snd q)) (productQueries alog))"
    by (rule fetchedProducts_pages)
next
  assume run: "scanInventoryPolicies (logged admin) ([], s) = Some (Inr sr, (slog, s'))"
  from scanInventoryPolicies_logged [OF run]
  show "scan_ok sr \<longleftrightarrow> variantsWithContinue sr = 0"
    and "variantsWithContinue sr
          = length (filter (\<lambda>v. scan_inventoryPolicy v = CONTINUE) (fetchedScanVariants slog))"
    and "scan_variantsScanned sr = length (fetchedScanVariants slog)"
    by simp_all
  from scanInventoryPolicies_loop_pagination [OF run [unfolded scanInventoryPolicies_def]]
  show "pagination None (scanQueries slog)" by simp
  show "fetchedScanVariants slog = concat (map (\<lambda>q. nodes (snd q)) (scanQueries slog))"
    by (rule fetchedScanVariants_pages)
next
  assume run: "runInventoryReset (logged admin) locationIds ([], s) = Some (Inr r, (log, s'))"
  from runInventoryReset_loop_logged [OF run [unfolded runInventoryReset_def]]
  show "ok r \<longleftrightarrow> inventoryAdjustUserErrors r = 0 \<and> policyUpdateUserErrors r = 0"
    and "policyUpdateUserErrors r = length (denyPolicyErrors log)"
    and "policyUpdateCalls r = length (denyPolicyRequests log)"
    and "denyPolicyRequests log = concat (map expectedDenyPolicy (fetchedVariantPages log))"
    and "variantsScanned r = length (concat (fetchedVariantPages log))"
    and calls: "inventoryAdjustCalls r = length (returnedAdjustAnswers log)"
    and "inventoryAdjustUserErrors r
          = length (filter (\<lambda>e. code e \<noteq> Some ''ITEM_NOT_STOCKED_AT_LOCATION'')
                      (returnedAdjustErrors log))"
    and "inventoryAdjustIgnoredNotStockedErrors r
          = length (filter (\<lambda>e. code e = Some ''ITEM_NOT_STOCKED_AT_LOCATION'')
                      (returnedAdjustErrors log))"
    and "length (adjustRequests log) \<le> 3 * inventoryAdjustCalls r"
    by (auto simp: resetAccounts_def)
  from runInventoryReset_loop_turns [OF run [unfolded runInventoryReset_def]]
  have pages: "pagination None (variantQueries log)"
    and split: "splitTurns log = ([], resetTurns log)"
    and turns: "list_all (turnDispatch locationIds) (resetTurns log)"
    by auto
  from pages show "pagination None (variantQueries log)" .
  from turns show "list_all (turnDispatch locationIds) (resetTurns log)" .
  show "fetchedVariantPages log = map (\<lambda>q. nodes (snd q)) (variantQueries log)"
    by (rule fetchedVariantPages_pages)
  from turns_cover [OF split] show cover: "concat (resetTurns log) = log" .
  from turns_answers_attempts [OF turns] cover calls
  show "inventoryAdjustCalls r = length (firstAdjustAttempts log)" by simp
next
  assume h: "admin (ProductsByVendor after q) s = (b, t) \<and> data b = Some (ProductsData prods)
        \<and> archiveProducts admin (nodes prods) ar t = (Inr ar', u)"
  show "archiveProductsByVendor_loop admin q ar after s
        = (if hasNextPage prods
           then archiveProductsByVendor_loop admin q ar' (orNull (endCursor prods)) u
           else Some (Inr ar', u))"
    by (rule archiveProductsByVendor_loop_step
          [where admin = admin and after = after and q = q and s = s, OF conjunct1 [OF h] conjunct1 [OF conjunct2 [OF h]] conjunct2 [OF conjunct2 [OF h]]])
next
  assume h: "prod_status p \<noteq> ''ARCHIVED'' \<and> admin (ArchiveProduct (prod_id p)) s = (b, t)
        \<and> data b = Some (ProductUpdateData res)
        \<and> orEmpty (productUpdate_userErrors res) = errs \<and> errs \<noteq> []"
  then have "prod_status p \<noteq> ''ARCHIVED''" "admin (ArchiveProduct (prod_id p)) s = (b, t)"
    "data b = Some (ProductUpdateData res)" "orEmpty (productUpdate_userErrors res) = errs"
    "errs \<noteq> []"
    by simp_all
  from archiveProducts_failed_next [where admin = admin and p = p and s = s, OF this]
  show "archiveProducts admin (p # ps) ar s
        = archiveProducts admin ps
            (ar\<lparr>scanned := scanned ar + 1, archive_ok := False,
                userErrors := userErrors ar + length errs,
                archive_sampleErrors :=
                  fold (pushSample ''productUpdate'') errs (archive_sampleErrors ar)\<rparr>) t"
    .
next
  assume h: "admin (InventoryPolicyScanVariants after) s = (b, t)
        \<and> data b = Some (ScanVariantsData spv)"
  show "scanInventoryPolicies_loop admin st after s
        = (if hasNextPage spv
           then scanInventoryPolicies_loop admin (scanPage (nodes spv) st)
                  (orNull (endCursor spv)) t
           else Some (Inr (scanFinish (scanPage (nodes spv) st)), t))"
    by (rule scanInventoryPolicies_loop_step
          [where admin = admin and after = after and s = s, OF conjunct1 [OF h] conjunct2 [OF h]])
next
  assume h: "admin (InventoryResetVariants after) s = (b, t) \<and> data b = Some (ProductVariantsData pv)
        \<and> resetPage admin locationIds (nodes pv) r t = (Inr r', u)"
  show "runInventoryReset_loop admin locationIds r after s
        = (if hasNextPage pv
           then runInventoryReset_loop admin locationIds r' (orNull (endCursor pv)) u
           else Some (Inr r', u))"
    by (rule runInventoryReset_loop_step
          [where admin = admin and after = after and s = s, OF conjunct1 [OF h] conjunct1 [OF conjunct2 [OF h]] conjunct2 [OF conjunct2 [OF h]]])
next
  assume "inventoryAdjustQuantitiesWithReasonFallback admin ''available'' chunk s
          = (Inr (Some resp), t)"
  then show "adjustChunks admin (chunk # rest) r s
        = adjustChunks admin rest
            (fold absorbInventoryAdjustError (orEmpty (adjust_userErrors resp))
               (r\<lparr>inventoryAdjustCalls := inventoryAdjustCalls r + 1\<rparr>)) t"
    by (rule adjustChunks_next)
next
  assume h: "admin (InventoryResetDenyPolicy productId (map (\<lambda>v. (v, DENY)) ids)) s = (b, t)
        \<and> data b = Some (ProductVariantsBulkUpdateData bres)"
  show "denyChunks admin productId (ids # more_ids) r s
        = denyChunks admin productId more_ids
            (fold absorbPolicyUpdateError (orEmpty (bulkUpdate_userErrors bres))
               (r\<lparr>policyUpdateCalls := policyUpdateCalls r + 1,
                  policyUpdatedVariants := policyUpdatedVariants r + length ids\<rparr>)) t"
    by (rule denyChunks_next
          [where admin = admin and productId = productId and chunk = ids and s = s, OF conjunct1 [OF h] conjunct2 [OF h]])
next
  assume "denyChunks admin productId (chunkArray variantsForProduct 250) r s = (Inr r', t)"
  then show "denyProducts admin ((productId, variantsForProduct) # entries) r s
        = denyProducts admin entries r' t"
    by (rule denyProducts_next)
qed

theorem orchestrator_runs_witness:
  "archiveProductsByVendor (logged scripted) ''Peruzzo''
     ([], [productsBody [(''p1'', ''ACTIVE''), (''p2'', ''ARCHIVED'')] True (Some ''c1''),
           productUpdateBody [userError_of ''INVALID''],
           productsBody [(''p3'', ''ACTIVE'')] False None,
           productUpdateBody []])
   = Some (Inr \<lparr>archive_ok = False, scanned = 3, archived = 1, alreadyArchived = 1,
          userErrors = 1,
          archive_sampleErrors =
            [\<lparr>scope = ''productUpdate'', sample_message = ''error INVALID'',
              sample_code = Some ''INVALID''\<rparr>]\<rparr>,
      ([(ProductsByVendor None ''vendor:Peruzzo'',
         productsBody [(''p1'', ''ACTIVE''), (''p2'', ''ARCHIVED'')] True (Some ''c1'')),
        (ArchiveProduct ''p1'', productUpdateBody [userError_of ''INVALID'']),
        (ProductsByVendor (Some ''c1'') ''vendor:Peruzzo'',
         productsBody [(''p3'', ''ACTIVE'')] False None),
        (ArchiveProduct ''p3'', productUpdateBody [])],
       []))
   \<and> pagination None (productQueries
        [(ProductsByVendor None ''vendor:Peruzzo'',
         productsBody [(''p1'', ''ACTIVE''), (''p2'', ''ARCHIVED'')] True (Some ''c1'')),
        (ArchiveProduct ''p1'', productUpdateBody [userError_of ''INVALID'']),
        (ProductsByVendor (Some ''c1'') ''vendor:Peruzzo'',
         productsBody [(''p3'', ''ACTIVE'')] False None),
        (ArchiveProduct ''p3'', productUpdateBody [])])
   \<and> archiveRequests
        [(ProductsByVendor None ''vendor:Peruzzo'',
         productsBody [(''p1'', ''ACTIVE''), (''p2'', ''ARCHIVED'')] True (Some ''c1'')),
        (ArchiveProduct ''p1'', productUpdateBody [userError_of ''INVALID'']),
        (ProductsByVendor (Some ''c1'') ''vendor:Peruzzo'',
         productsBody [(''p3'', ''ACTIVE'')] False None),
        (ArchiveProduct ''p3'', productUpdateBody [])]
     = map prod_id (filter (\<lambda>p. prod_status p \<noteq> ''ARCHIVED'')
         (fetchedProducts
            [(ProductsByVendor None ''vendor:Peruzzo'',
         productsBody [(''p1'', ''ACTIVE''), (''p2'', ''ARCHIVED'')] True (Some ''c1'')),
        (ArchiveProduct ''p1'', productUpdateBody [userError_of ''INVALID'']),
        (ProductsByVendor (Some ''c1'') ''vendor:Peruzzo'',
         productsBody [(''p3'', ''ACTIVE'')] False None),
        (ArchiveProduct ''p3'', productUpdateBody [])]))
   \<and> scanInventoryPolicies (logged scripted)
     ([], [scanVariantsBody [scanVariantOf ''v1'' CONTINUE ''p1'', scanVariantOf ''v2'' DENY ''p1'']
             True (Some ''c1''),
           scanVariantsBody [scanVariantOf ''v3'' DENY ''p2''] False None])
   = Some (Inr \<lparr>scan_ok = False, productsScanned = 2, scan_variantsScanned = 3,
          productsWithContinue = 1, variantsWithContinue = 1,
          sampleOffenders =
            [\<lparr>productTitle = ''title of p1'', productHandle = ''handle-of-p1'',
              variantTitle = ''title of v1'', sku = None\<rparr>]\<rparr>,
      ([(InventoryPolicyScanVariants None,
         scanVariantsBody [scanVariantOf ''v1'' CONTINUE ''p1'', scanVariantOf ''v2'' DENY ''p1'']
             True (Some ''c1'')),
        (InventoryPolicyScanVariants (Some ''c1''),
         scanVariantsBody [scanVariantOf ''v3'' DENY ''p2''] False None)],
       []))
   \<and> pagination None (scanQueries
        [(InventoryPolicyScanVariants None,
         scanVariantsBody [scanVariantOf ''v1'' CONTINUE ''p1'', scanVariantOf ''v2'' DENY ''p1'']
             True (Some ''c1'')),
        (InventoryPolicyScanVariants (Some ''c1''),
         scanVariantsBody [scanVariantOf ''v3'' DENY ''p2''] False None)])
   \<and> length (filter (\<lambda>v. scan_inventoryPolicy v = CONTINUE)
        (fetchedScanVariants
           [(InventoryPolicyScanVariants None,
         scanVariantsBody [scanVariantOf ''v1'' CONTINUE ''p1'', scanVariantOf ''v2'' DENY ''p1'']
             True (Some ''c1'')),
        (InventoryPolicyScanVariants (Some ''c1''),
         scanVariantsBody [scanVariantOf ''v3'' DENY ''p2''] False None)])) = 1
   \<and> runInventoryReset (logged scripted) [''loc1'']
     ([], [variantsBody [variantOf ''v1'' CONTINUE ''p1'' (trackedItem ''item1'')] True (Some ''c1''),
           nodesBody [InventoryItemNode ''item1'' [levelWith ''loc1'' 7]],
           adjustBody ''g1'' [userError_of ''INVALID_QUANTITY''],
           bulkUpdateBody [] [userError_of ''PRODUCT_SUSPENDED''],
           variantsBody [variantOf ''v2'' CONTINUE ''p2'' (trackedItem ''item1'')] False None,
           nodesBody [InventoryItemNode ''item1'' [levelWith ''loc1'' 7]],
           adjustBody ''g2'' [],
           bulkUpdateBody [(''v2'', ''DENY'')] []])
   = Some (Inr \<lparr>ok = False, locations = 1, variantsScanned = 2, inventoryAdjustCalls = 2,
        inventoryAdjustUserErrors = 1, inventoryAdjustIgnoredNotStockedErrors = 0,
        policyUpdateCalls = 2, policyUpdatedVariants = 2, policyUpdateUserErrors = 1,
        sampleErrors =
          [\<lparr>scope = ''inventoryAdjustQuantities'', sample_message = ''error INVALID_QUANTITY'',
            sample_code = Some ''INVALID_QUANTITY''\<rparr>,
           \<lparr>scope = ''productVariantsBulkUpdate'', sample_message = ''error PRODUCT_SUSPENDED'',
            sample_code = Some ''PRODUCT_SUSPENDED''\<rparr>]\<rparr>,
      ([(InventoryResetVariants None,
         variantsBody [variantOf ''v1'' CONTINUE ''p1'' (trackedItem ''item1'')] True (Some ''c1'')),
        (InventoryResetInventoryLevels [''item1''],
         nodesBody [InventoryItemNode ''item1'' [levelWith ''loc1'' 7]]),
        (InventoryResetAdjustQuantities ''available'' ''correction'' [change7],
         adjustBody ''g1'' [userError_of ''INVALID_QUANTITY'']),
        (InventoryResetDenyPolicy ''p1'' [(''v1'', DENY)],
         bulkUpdateBody [] [userError_of ''PRODUCT_SUSPENDED'']),
        (InventoryResetVariants (Some ''c1''),
         variantsBody [variantOf ''v2'' CONTINUE ''p2'' (trackedItem ''item1'')] False None),
        (InventoryResetInventoryLevels [''item1''],
         nodesBody [InventoryItemNode ''item1'' [levelWith ''loc1'' 7]]),
        (InventoryResetAdjustQuantities ''available'' ''correction'' [change7],
         adjustBody ''g2'' []),
        (InventoryResetDenyPolicy ''p2'' [(''v2'', DENY)],
         bulkUpdateBody [(''v2'', ''DENY'')] [])],
       []))
   \<and> pagination None (variantQueries
        [(InventoryResetVariants None,
         variantsBody [variantOf ''v1'' CONTINUE ''p1'' (trackedItem ''item1'')] True (Some ''c1'')),
        (InventoryResetInventoryLevels [''item1''],
         nodesBody [InventoryItemNode ''item1'' [levelWith ''loc1'' 7]]),
        (InventoryResetAdjustQuantities ''available'' ''correction'' [change7],
         adjustBody ''g1'' [userError_of ''INVALID_QUANTITY'']),
        (InventoryResetDenyPolicy ''p1'' [(''v1'', DENY)],
         bulkUpdateBody [] [userError_of ''PRODUCT_SUSPENDED'']),
        (InventoryResetVariants (Some ''c1''),
         variantsBody [variantOf ''v2'' CONTINUE ''p2'' (trackedItem ''item1'')] False None),
        (InventoryResetInventoryLevels [''item1''],
         nodesBody [InventoryItemNode ''item1'' [levelWith ''loc1'' 7]]),
        (InventoryResetAdjustQuantities ''available'' ''correction'' [change7],
         adjustBody ''g2'' []),
        (InventoryResetDenyPolicy ''p2'' [(''v2'', DENY)],
         bulkUpdateBody [(''v2'', ''DENY'')] [])])
   \<and> list_all (turnDispatch [''loc1'']) (resetTurns
        [(InventoryResetVariants None,
         variantsBody [variantOf ''v1'' CONTINUE ''p1'' (trackedItem ''item1'')] True (Some ''c1'')),
        (InventoryResetInventoryLevels [''item1''],
         nodesBody [InventoryItemNode ''item1'' [levelWith ''loc1'' 7]]),
        (InventoryResetAdjustQuantities ''available'' ''correction'' [change7],
         adjustBody ''g1'' [userError_of ''INVALID_QUANTITY'']),
        (InventoryResetDenyPolicy ''p1'' [(''v1'', DENY)],
         bulkUpdateBody [] [userError_of ''PRODUCT_SUSPENDED'']),
        (InventoryResetVariants (Some ''c1''),
         variantsBody [variantOf ''v2'' CONTINUE ''p2'' (trackedItem ''item1'')] False None),
        (InventoryResetInventoryLevels [''item1''],
         nodesBody [InventoryItemNode ''item1'' [levelWith ''loc1'' 7]]),
        (InventoryResetAdjustQuantities ''available'' ''correction'' [change7],
         adjustBody ''g2'' []),
        (InventoryResetDenyPolicy ''p2'' [(''v2'', DENY)],
         bulkUpdateBody [(''v2'', ''DENY'')] [])])
   \<and> length (firstAdjustAttempts
        [(InventoryResetVariants None,
         variantsBody [variantOf ''v1'' CONTINUE ''p1'' (trackedItem ''item1'')] True (Some ''c1'')),
        (InventoryResetInventoryLevels [''item1''],
         nodesBody [InventoryItemNode ''item1'' [levelWith ''loc1'' 7]]),
        (InventoryResetAdjustQuantities ''available'' ''correction'' [change7],
         adjustBody ''g1'' [userError_of ''INVALID_QUANTITY'']),
        (InventoryResetDenyPolicy ''p1'' [(''v1'', DENY)],
         bulkUpdateBody [] [userError_of ''PRODUCT_SUSPENDED'']),
        (InventoryResetVariants (Some ''c1''),
         variantsBody [variantOf ''v2'' CONTINUE ''p2'' (trackedItem ''item1'')] False None),
        (InventoryResetInventoryLevels [''item1''],
         nodesBody [InventoryItemNode ''item1'' [levelWith ''loc1'' 7]]),
        (InventoryResetAdjustQuantities ''available'' ''correction'' [change7],
         adjustBody ''g2'' []),
        (InventoryResetDenyPolicy ''p2'' [(''v2'', DENY)],
         bulkUpdateBody [(''v2'', ''DENY'')] [])]) = 2
   \<and> length (denyPolicyErrors
        [(InventoryResetVariants None,
         variantsBody [variantOf ''v1'' CONTINUE ''p1'' (trackedItem ''item1'')] True (Some ''c1'')),
        (InventoryResetInventoryLevels [''item1''],
         nodesBody [InventoryItemNode ''item1'' [levelWith ''loc1'' 7]]),
        (InventoryResetAdjustQuantities ''available'' ''correction'' [change7],
         adjustBody ''g1'' [userError_of ''INVALID_QUANTITY'']),
        (InventoryResetDenyPolicy ''p1'' [(''v1'', DENY)],
         bulkUpdateBody [] [userError_of ''PRODUCT_SUSPENDED'']),
        (InventoryResetVariants (Some ''c1''),
         variantsBody [variantOf ''v2'' CONTINUE ''p2'' (trackedItem ''item1'')] False None),
        (InventoryResetInventoryLevels [''item1''],
         nodesBody [InventoryItemNode ''item1'' [levelWith ''loc1'' 7]]),
        (InventoryResetAdjustQuantities ''available'' ''correction'' [change7],
         adjustBody ''g2'' []),
        (InventoryResetDenyPolicy ''p2'' [(''v2'', DENY)],
         bulkUpdateBody [(''v2'', ''DENY'')] [])]) = 1
   \<and> archiveProductsByVendor_loop scripted ''vendor:Peruzzo''
        \<lparr>archive_ok = True, scanned = 0, archived = 0, alreadyArchived = 0, userErrors = 0,
          archive_sampleErrors = []\<rparr>
        None [productsBody [(''p2'', ''ARCHIVED'')] True (Some ''c1''), productsBody [] False None]
      = archiveProductsByVendor_loop scripted ''vendor:Peruzzo''
          \<lparr>archive_ok = True, scanned = 1, archived = 0, alreadyArchived = 1, userErrors = 0,
          archive_sampleErrors = []\<rparr>
          (Some ''c1'') [productsBody [] False None]
   \<and> archiveProducts scripted [\<lparr>prod_id = ''p1'', prod_status = ''ACTIVE''\<rparr>, \<lparr>prod_id = ''p3'', prod_status = ''ACTIVE''\<rparr>]
        \<lparr>archive_ok = True, scanned = 0, archived = 0, alreadyArchived = 0, userErrors = 0,
          archive_sampleErrors = []\<rparr>
        [productUpdateBody [userError_of ''INVALID''], productUpdateBody []]
      = archiveProducts scripted [\<lparr>prod_id = ''p3'', prod_status = ''ACTIVE''\<rparr>]
          \<lparr>archive_ok = False, scanned = 1, archived = 0, alreadyArchived = 0, userErrors = 1,
          archive_sampleErrors =
            [\<lparr>scope = ''productUpdate'', sample_message = ''error INVALID'',
              sample_code = Some ''INVALID''\<rparr>]\<rparr>
          [productUpdateBody []]
   \<and> scanInventoryPolicies_loop scripted
        \<lparr>scan_result =
          \<lparr>scan_ok = True, productsScanned = 0, scan_variantsScanned = 0,
           productsWithContinue = 0, variantsWithContinue = 0, sampleOffenders = []\<rparr>,
        productIds = [], productIdsWithContinue = []\<rparr>
        None [scanVariantsBody [scanVariantOf ''v1'' CONTINUE ''p1''] True (Some ''c1''),
              scanVariantsBody [] False None]
      = scanInventoryPolicies_loop scripted
          (scanPage [scanVariantOf ''v1'' CONTINUE ''p1'']
             \<lparr>scan_result =
          \<lparr>scan_ok = True, productsScanned = 0, scan_variantsScanned = 0,
           productsWithContinue = 0, variantsWithContinue = 0, sampleOffenders = []\<rparr>,
        productIds = [], productIdsWithContinue = []\<rparr>)
          (Some ''c1'') [scanVariantsBody [] False None]
   \<and> runInventoryReset_loop scripted [''loc1'']
        \<lparr>ok = True, locations = 1, variantsScanned = 0, inventoryAdjustCalls = 0,
          inventoryAdjustUserErrors = 0, inventoryAdjustIgnoredNotStockedErrors = 0,
          policyUpdateCalls = 0, policyUpdatedVariants = 0, policyUpdateUserErrors = 0,
          sampleErrors = []\<rparr>
        None [variantsBody [] True (Some ''c1''), variantsBody [] False None]
      = runInventoryReset_loop scripted [''loc1'']
          \<lparr>ok = True, locations = 1, variantsScanned = 0, inventoryAdjustCalls = 0,
          inventoryAdjustUserErrors = 0, inventoryAdjustIgnoredNotStockedErrors = 0,
          policyUpdateCalls = 0, policyUpdatedVariants = 0, policyUpdateUserErrors = 0,
          sampleErrors = []\<rparr>
          (Some ''c1'') [variantsBody [] False None]
   \<and> adjustChunks scripted [[change7], [change7]]
        \<lparr>ok = True, locations = 1, variantsScanned = 0, inventoryAdjustCalls = 0,
          inventoryAdjustUserErrors = 0, inventoryAdjustIgnoredNotStockedErrors = 0,
          policyUpdateCalls = 0, policyUpdatedVariants = 0, policyUpdateUserErrors = 0,
          sampleErrors = []\<rparr>
        [adjustBody ''g1'' [userError_of ''INVALID_QUANTITY''], adjustBody ''g2'' []]
      = adjustChunks scripted [[change7]]
          \<lparr>ok = False, locations = 1, variantsScanned = 0, inventoryAdjustCalls = 1,
          inventoryAdjustUserErrors = 1, inventoryAdjustIgnoredNotStockedErrors = 0,
          policyUpdateCalls = 0, policyUpdatedVariants = 0, policyUpdateUserErrors = 0,
          sampleErrors = [\<lparr>scope = ''inventoryAdjustQuantities'',
             sample_message = ''error INVALID_QUANTITY'',
             sample_code = Some ''INVALID_QUANTITY''\<rparr>]\<rparr>
          [adjustBody ''g2'' []]
   \<and> denyChunks scripted ''p1'' [[''v1''], [''v2'']]
        \<lparr>ok = True, locations = 1, variantsScanned = 0, inventoryAdjustCalls = 0,
          inventoryAdjustUserErrors = 0, inventoryAdjustIgnoredNotStockedErrors = 0,
          policyUpdateCalls = 0, policyUpdatedVariants = 0, policyUpdateUserErrors = 0,
          sampleErrors = []\<rparr>
        [bulkUpdateBody [] [userError_of ''PRODUCT_SUSPENDED''], bulkUpdateBody [] []]
      = denyChunks scripted ''p1'' [[''v2'']]
          \<lparr>ok = False, locations = 1, variantsScanned = 0, inventoryAdjustCalls = 0,
          inventoryAdjustUserErrors = 0, inventoryAdjustIgnoredNotStockedErrors = 0,
          policyUpdateCalls = 1, policyUpdatedVariants = 1, policyUpdateUserErrors = 1,
          sampleErrors = [\<lparr>scope = ''productVariantsBulkUpdate'',
             sample_message = ''error PRODUCT_SUSPENDED'',
             sample_code = Some ''PRODUCT_SUSPENDED''\<rparr>]\<rparr>
          [bulkUpdateBody [] []]
   \<and> denyProducts scripted [(''p1'', [''v1'']), (''p2'', [''v2''])]
        \<lparr>ok = True, locations = 1, variantsScanned = 0, inventoryAdjustCalls = 0,
          inventoryAdjustUserErrors = 0, inventoryAdjustIgnoredNotStockedErrors = 0,
          policyUpdateCalls = 0, policyUpdatedVariants = 0, policyUpdateUserErrors = 0,
          sampleErrors = []\<rparr>
        [bulkUpdateBody [] [userError_of ''PRODUCT_SUSPENDED''], bulkUpdateBody [] []]
      = denyProducts scripted [(''p2'', [''v2''])]
          \<lparr>ok = False, locations = 1, variantsScanned = 0, inventoryAdjustCalls = 0,
          inventoryAdjustUserErrors = 0, inventoryAdjustIgnoredNotStockedErrors = 0,
          policyUpdateCalls = 1, policyUpdatedVariants = 1, policyUpdateUserErrors = 1,
          sampleErrors = [\<lparr>scope = ''productVariantsBulkUpdate'',
             sample_message = ''error PRODUCT_SUSPENDED'',
             sample_code = Some ''PRODUCT_SUSPENDED''\<rparr>]\<rparr>
          [bulkUpdateBody [] []]"
proof -
  let ?ascript = "[productsBody [(''p1'', ''ACTIVE''), (''p2'', ''ARCHIVED'')] True (Some ''c1''),
           productUpdateBody [userError_of ''INVALID''],
           productsBody [(''p3'', ''ACTIVE'')] False None,
           productUpdateBody []]"
  let ?alog = "[(ProductsByVendor None ''vendor:Peruzzo'',
         productsBody [(''p1'', ''ACTIVE''), (''p2'', ''ARCHIVED'')] True (Some ''c1'')),
        (ArchiveProduct ''p1'', productUpdateBody [userError_of ''INVALID'']),
        (ProductsByVendor (Some ''c1'') ''vendor:Peruzzo'',
         productsBody [(''p3'', ''ACTIVE'')] False None),
        (ArchiveProduct ''p3'', productUpdateBody [])]"
  let ?ar = "\<lparr>archive_ok = False, scanned = 3, archived = 1, alreadyArchived = 1,
          userErrors = 1,
          archive_sampleErrors =
            [\<lparr>scope = ''productUpdate'', sample_message = ''error INVALID'',
              sample_code = Some ''INVALID''\<rparr>]\<rparr>"
  let ?sscript = "[scanVariantsBody [scanVariantOf ''v1'' CONTINUE ''p1'', scanVariantOf ''v2'' DENY ''p1'']
             True (Some ''c1''),
           scanVariantsBody [scanVariantOf ''v3'' DENY ''p2''] False None]"
  let ?slog = "[(InventoryPolicyScanVariants None,
         scanVariantsBody [scanVariantOf ''v1'' CONTINUE ''p1'', scanVariantOf ''v2'' DENY ''p1'']
             True (Some ''c1'')),
        (InventoryPolicyScanVariants (Some ''c1''),
         scanVariantsBody [scanVariantOf ''v3'' DENY ''p2''] False None)]"
  let ?sr = "\<lparr>scan_ok = False, productsScanned = 2, scan_variantsScanned = 3,
          productsWithContinue = 1, variantsWithContinue = 1,
          sampleOffenders =
            [\<lparr>productTitle = ''title of p1'', productHandle = ''handle-of-p1'',
              variantTitle = ''title of v1'', sku = None\<rparr>]\<rparr>"
  let ?rscript = "[variantsBody [variantOf ''v1'' CONTINUE ''p1'' (trackedItem ''item1'')] True (Some ''c1''),
           nodesBody [InventoryItemNode ''item1'' [levelWith ''loc1'' 7]],
           adjustBody ''g1'' [userError_of ''INVALID_QUANTITY''],
           bulkUpdateBody [] [userError_of ''PRODUCT_SUSPENDED''],
           variantsBody [variantOf ''v2'' CONTINUE ''p2'' (trackedItem ''item1'')] False None,
           nodesBody [InventoryItemNode ''item1'' [levelWith ''loc1'' 7]],
           adjustBody ''g2'' [],
           bulkUpdateBody [(''v2'', ''DENY'')] []]"
  let ?rlog = "[(InventoryResetVariants None,
         variantsBody [variantOf ''v1'' CONTINUE ''p1'' (trackedItem ''item1'')] True (Some ''c1'')),
        (InventoryResetInventoryLevels [''item1''],
         nodesBody [InventoryItemNode ''item1'' [levelWith ''loc1'' 7]]),
        (InventoryResetAdjustQuantities ''available'' ''correction'' [change7],
         adjustBody ''g1'' [userError_of ''INVALID_QUANTITY'']),
        (InventoryResetDenyPolicy ''p1'' [(''v1'', DENY)],
         bulkUpdateBody [] [userError_of ''PRODUCT_SUSPENDED'']),
        (InventoryResetVariants (Some ''c1''),
         variantsBody [variantOf ''v2'' CONTINUE ''p2'' (trackedItem ''item1'')] False None),
        (InventoryResetInventoryLevels [''item1''],
         nodesBody [InventoryItemNode ''item1'' [levelWith ''loc1'' 7]]),
        (InventoryResetAdjustQuantities ''available'' ''correction'' [change7],
         adjustBody ''g2'' []),
        (InventoryResetDenyPolicy ''p2'' [(''v2'', DENY)],
         bulkUpdateBody [(''v2'', ''DENY'')] [])]"
  let ?rr = "\<lparr>ok = False, locations = 1, variantsScanned = 2, inventoryAdjustCalls = 2,
        inventoryAdjustUserErrors = 1, inventoryAdjustIgnoredNotStockedErrors = 0,
        policyUpdateCalls = 2, policyUpdatedVariants = 2, policyUpdateUserErrors = 1,
        sampleErrors =
          [\<lparr>scope = ''inventoryAdjustQuantities'', sample_message = ''error INVALID_QUANTITY'',
            sample_code = Some ''INVALID_QUANTITY''\<rparr>,
           \<lparr>scope = ''productVariantsBulkUpdate'', sample_message = ''error PRODUCT_SUSPENDED'',
            sample_code = Some ''PRODUCT_SUSPENDED''\<rparr>]\<rparr>"
  let ?afresh = "\<lparr>archive_ok = True, scanned = 0, archived = 0, alreadyArchived = 0, userErrors = 0,
          archive_sampleErrors = []\<rparr>"
  let ?aseen = "\<lparr>archive_ok = True, scanned = 1, archived = 0, alreadyArchived = 1, userErrors = 0,
          archive_sampleErrors = []\<rparr>"
  let ?afailed = "\<lparr>archive_ok = False, scanned = 1, archived = 0, alreadyArchived = 0, userErrors = 1,
          archive_sampleErrors =
            [\<lparr>scope = ''productUpdate'', sample_message = ''error INVALID'',
              sample_code = Some ''INVALID''\<rparr>]\<rparr>"
  let ?rfresh = "\<lparr>ok = True, locations = 1, variantsScanned = 0, inventoryAdjustCalls = 0,
          inventoryAdjustUserErrors = 0, inventoryAdjustIgnoredNotStockedErrors = 0,
          policyUpdateCalls = 0, policyUpdatedVariants = 0, policyUpdateUserErrors = 0,
          sampleErrors = []\<rparr>"
  let ?radj = "\<lparr>ok = False, locations = 1, variantsScanned = 0, inventoryAdjustCalls = 1,
          inventoryAdjustUserErrors = 1, inventoryAdjustIgnoredNotStockedErrors = 0,
          policyUpdateCalls = 0, policyUpdatedVariants = 0, policyUpdateUserErrors = 0,
          sampleErrors = [\<lparr>scope = ''inventoryAdjustQuantities'',
             sample_message = ''error INVALID_QUANTITY'',
             sample_code = Some ''INVALID_QUANTITY''\<rparr>]\<rparr>"
  let ?rdeny = "\<lparr>ok = False, locations = 1, variantsScanned = 0, inventoryAdjustCalls = 0,
          inventoryAdjustUserErrors = 0, inventoryAdjustIgnoredNotStockedErrors = 0,
          policyUpdateCalls = 1, policyUpdatedVariants = 1, policyUpdateUserErrors = 1,
          sampleErrors = [\<lparr>scope = ''productVariantsBulkUpdate'',
             sample_message = ''error PRODUCT_SUSPENDED'',
             sample_code = Some ''PRODUCT_SUSPENDED''\<rparr>]\<rparr>"
  let ?stfresh = "\<lparr>scan_result =
          \<lparr>scan_ok = True, productsScanned = 0, scan_variantsScanned = 0,
           productsWithContinue = 0, variantsWithContinue = 0, sampleOffenders = []\<rparr>,
        productIds = [], productIdsWithContinue = []\<rparr>"
  let ?pA = "\<lparr>prod_id = ''p1'', prod_status = ''ACTIVE''\<rparr>"
  let ?pC = "\<lparr>prod_id = ''p3'', prod_status = ''ACTIVE''\<rparr>"
  \<comment> \<open>whole runs\<close>
  have a: "archiveProductsByVendor (logged scripted) ''Peruzzo'' ([], ?ascript)
      = Some (Inr ?ar, (?alog, []))"
    by (rule run_archive_two_pages)
  have b: "scanInventoryPolicies (logged scripted) ([], ?sscript) = Some (Inr ?sr, (?slog, []))"
    by (rule run_scan_two_pages)
  have c: "runInventoryReset (logged scripted) [''loc1''] ([], ?rscript) = Some (Inr ?rr, (?rlog, []))"
    by (rule run_reset_two_pages)
  from mp [OF conjunct1 [OF orchestrator_runs [where admin = scripted and vendor = "''Peruzzo''"
        and s = ?ascript and ar = ?ar and alog = ?alog and s' = "[]"]] a]
  have a': "pagination None (productQueries ?alog)"
    "archiveRequests ?alog
     = map prod_id (filter (\<lambda>p. prod_status p \<noteq> ''ARCHIVED'') (fetchedProducts ?alog))"
    by blast+
  from mp [OF conjunct1 [OF conjunct2 [OF orchestrator_runs [where admin = scripted
        and s = ?sscript and sr = ?sr and slog = ?slog and s' = "[]"]]] b]
  have b': "pagination None (scanQueries ?slog)"
    "length (filter (\<lambda>v. scan_inventoryPolicy v = CONTINUE) (fetchedScanVariants ?slog)) = 1"
    by simp_all
  from mp [OF conjunct1 [OF conjunct2 [OF conjunct2 [OF orchestrator_runs [where admin = scripted
        and locationIds = "[''loc1'']" and s = ?rscript and r = ?rr and log = ?rlog
        and s' = "[]"]]]] c]
  have c': "pagination None (variantQueries ?rlog)"
    "list_all (turnDispatch [''loc1'']) (resetTurns ?rlog)"
    "length (firstAdjustAttempts ?rlog) = 2"
    "length (denyPolicyErrors ?rlog) = 1"
    by simp_all
  \<comment> \<open>the archive loop after a page\<close>
  let ?prods = "\<lparr>nodes = [\<lparr>prod_id = ''p2'', prod_status = ''ARCHIVED''\<rparr>],
                 hasNextPage = True, endCursor = Some ''c1''\<rparr>"
  have dh: "scripted (ProductsByVendor None ''vendor:Peruzzo'')
          [productsBody [(''p2'', ''ARCHIVED'')] True (Some ''c1''), productsBody [] False None]
        = (productsBody [(''p2'', ''ARCHIVED'')] True (Some ''c1''), [productsBody [] False None])
      \<and> data (productsBody [(''p2'', ''ARCHIVED'')] True (Some ''c1'')) = Some (ProductsData ?prods)
      \<and> archiveProducts scripted (nodes ?prods) ?afresh [productsBody [] False None]
        = (Inr ?aseen, [productsBody [] False None])"
    by (simp add: scripted_def productsBody_def body_of_def archiveProduct_def)
  from mp [OF conjunct1 [OF conjunct2 [OF conjunct2 [OF conjunct2 [OF orchestrator_runs
        [where admin = scripted and after = None and q = "''vendor:Peruzzo''"
           and s = "[productsBody [(''p2'', ''ARCHIVED'')] True (Some ''c1''), productsBody [] False None]"
           and b = "productsBody [(''p2'', ''ARCHIVED'')] True (Some ''c1'')"
           and t = "[productsBody [] False None]" and prods = ?prods
           and ar = ?afresh and ar' = ?aseen and u = "[productsBody [] False None]"]]]]] dh]
  have d: "archiveProductsByVendor_loop scripted ''vendor:Peruzzo''
        ?afresh
        None [productsBody [(''p2'', ''ARCHIVED'')] True (Some ''c1''), productsBody [] False None]
      = archiveProductsByVendor_loop scripted ''vendor:Peruzzo''
          ?aseen
          (Some ''c1'') [productsBody [] False None]"
    by (simp add: orNull_def)
  \<comment> \<open>the products after one whose archiving failed\<close>
  have eh: "prod_status ?pA \<noteq> ''ARCHIVED''
      \<and> scripted (ArchiveProduct (prod_id ?pA))
          [productUpdateBody [userError_of ''INVALID''], productUpdateBody []]
        = (productUpdateBody [userError_of ''INVALID''], [productUpdateBody []])
      \<and> data (productUpdateBody [userError_of ''INVALID''])
        = Some (ProductUpdateData
            \<lparr>updated_product = None, productUpdate_userErrors = Some [userError_of ''INVALID'']\<rparr>)
      \<and> orEmpty (productUpdate_userErrors
            \<lparr>updated_product = None, productUpdate_userErrors = Some [userError_of ''INVALID'']\<rparr>)
        = [userError_of ''INVALID'']
      \<and> [userError_of ''INVALID''] \<noteq> []"
    by (simp add: scripted_def productUpdateBody_def body_of_def orEmpty_def)
  from mp [OF conjunct1 [OF conjunct2 [OF conjunct2 [OF conjunct2 [OF conjunct2 [OF orchestrator_runs
        [where admin = scripted and p = ?pA and ps = "[?pC]"
           and s = "[productUpdateBody [userError_of ''INVALID''], productUpdateBody []]"
           and b = "productUpdateBody [userError_of ''INVALID'']"
           and t = "[productUpdateBody []]"
           and res = "\<lparr>updated_product = None,
                      productUpdate_userErrors = Some [userError_of ''INVALID'']\<rparr>"
           and errs = "[userError_of ''INVALID'']" and ar = ?afresh]]]]]] eh]
  have e: "archiveProducts scripted [?pA, ?pC]
        ?afresh
        [productUpdateBody [userError_of ''INVALID''], productUpdateBody []]
      = archiveProducts scripted [?pC]
          ?afailed
          [productUpdateBody []]"
    by (simp add: pushSample_def userError_of_def orNull_def)
  \<comment> \<open>the scan loop after a page\<close>
  let ?spv = "\<lparr>nodes = [scanVariantOf ''v1'' CONTINUE ''p1''], hasNextPage = True,
               endCursor = Some ''c1''\<rparr>"
  have fh: "scripted (InventoryPolicyScanVariants None)
          [scanVariantsBody [scanVariantOf ''v1'' CONTINUE ''p1''] True (Some ''c1''),
           scanVariantsBody [] False None]
        = (scanVariantsBody [scanVariantOf ''v1'' CONTINUE ''p1''] True (Some ''c1''),
           [scanVariantsBody [] False None])
      \<and> data (scanVariantsBody [scanVariantOf ''v1'' CONTINUE ''p1''] True (Some ''c1''))
        = Some (ScanVariantsData ?spv)"
    by (simp add: scripted_def scanVariantsBody_def body_of_def)
  from mp [OF conjunct1 [OF conjunct2 [OF conjunct2 [OF conjunct2 [OF conjunct2 [OF conjunct2
        [OF orchestrator_runs
        [where admin = scripted and after = None
           and s = "[scanVariantsBody [scanVariantOf ''v1'' CONTINUE ''p1''] True (Some ''c1''),
                     scanVariantsBody [] False None]"
           and b = "scanVariantsBody [scanVariantOf ''v1'' CONTINUE ''p1''] True (Some ''c1'')"
           and t = "[scanVariantsBody [] False None]" and spv = ?spv and st = ?stfresh]]]]]]] fh]
  have f: "scanInventoryPolicies_loop scripted
        ?stfresh
        None [scanVariantsBody [scanVariantOf ''v1'' CONTINUE ''p1''] True (Some ''c1''),
              scanVariantsBody [] False None]
      = scanInventoryPolicies_loop scripted
          (scanPage [scanVariantOf ''v1'' CONTINUE ''p1'']
             ?stfresh)
          (Some ''c1'') [scanVariantsBody [] False None]"
    by (simp add: orNull_def)
  \<comment> \<open>the reset loop after a page\<close>
  let ?pv = "\<lparr>nodes = [] :: resetVariant list, hasNextPage = True, endCursor = Some ''c1''\<rparr>"
  have gh: "scripted (InventoryResetVariants None)
          [variantsBody [] True (Some ''c1''), variantsBody [] False None]
        = (variantsBody [] True (Some ''c1''), [variantsBody [] False None])
      \<and> data (variantsBody [] True (Some ''c1'')) = Some (ProductVariantsData ?pv)
      \<and> resetPage scripted [''loc1''] (nodes ?pv) ?rfresh [variantsBody [] False None]
        = (Inr ?rfresh, [variantsBody [] False None])"
    by (simp add: scripted_def variantsBody_def body_of_def resetPage_def arrayFromSet_def
          getInventoryZeroingChanges_def chunkArray_def chunkArray_loop.simps)
  from mp [OF conjunct1 [OF conjunct2 [OF conjunct2 [OF conjunct2 [OF conjunct2 [OF conjunct2
        [OF conjunct2 [OF orchestrator_runs
        [where admin = scripted and after = None and locationIds = "[''loc1'']"
           and s = "[variantsBody [] True (Some ''c1''), variantsBody [] False None]"
           and b = "variantsBody [] True (Some ''c1'')"
           and t = "[variantsBody [] False None]" and pv = ?pv
           and r = ?rfresh and r' = ?rfresh and u = "[variantsBody [] False None]"]]]]]]]] gh]
  have g: "runInventoryReset_loop scripted [''loc1'']
        ?rfresh
        None [variantsBody [] True (Some ''c1''), variantsBody [] False None]
      = runInventoryReset_loop scripted [''loc1'']
          ?rfresh
          (Some ''c1'') [variantsBody [] False None]"
    by (simp add: orNull_def)
  \<comment> \<open>the chunks after one whose adjustment failed\<close>
  have hh: "inventoryAdjustQuantitiesWithReasonFallback scripted ''available'' [change7]
        [adjustBody ''g1'' [userError_of ''INVALID_QUANTITY''], adjustBody ''g2'' []]
      = (Inr (Some (adjustResponse ''g1'' [userError_of ''INVALID_QUANTITY''])),
         [adjustBody ''g2'' []])"
    by (simp add: inventoryAdjustQuantitiesWithReasonFallback_def reasonFallbacks_def
          graphqlJson_def scripted_def data_adjustBody data_inventoryAdjustQuantities_def
          hasInvalidReason_adjustResponse code_userError_of)
  from mp [OF conjunct1 [OF conjunct2 [OF conjunct2 [OF conjunct2 [OF conjunct2 [OF conjunct2
        [OF conjunct2 [OF conjunct2 [OF orchestrator_runs
        [where admin = scripted and chunk = "[change7]" and rest = "[[change7]]"
           and s = "[adjustBody ''g1'' [userError_of ''INVALID_QUANTITY''], adjustBody ''g2'' []]"
           and t = "[adjustBody ''g2'' []]" and r = ?rfresh
           and resp = "adjustResponse ''g1'' [userError_of ''INVALID_QUANTITY'']"]]]]]]]]] hh]
  have h: "adjustChunks scripted [[change7], [change7]]
        ?rfresh
        [adjustBody ''g1'' [userError_of ''INVALID_QUANTITY''], adjustBody ''g2'' []]
      = adjustChunks scripted [[change7]]
          ?radj
          [adjustBody ''g2'' []]"
    by (simp add: adjustResponse_def orEmpty_def absorbInventoryAdjustError_def pushSample_def
          userError_of_def orNull_def)
  \<comment> \<open>the chunks after one whose policy update failed\<close>
  have ih: "scripted (InventoryResetDenyPolicy ''p1'' (map (\<lambda>v. (v, DENY)) [''v1'']))
          [bulkUpdateBody [] [userError_of ''PRODUCT_SUSPENDED''], bulkUpdateBody [] []]
        = (bulkUpdateBody [] [userError_of ''PRODUCT_SUSPENDED''], [bulkUpdateBody [] []])
      \<and> data (bulkUpdateBody [] [userError_of ''PRODUCT_SUSPENDED''])
        = Some (ProductVariantsBulkUpdateData
                 (bulkUpdateResponse [] [userError_of ''PRODUCT_SUSPENDED'']))"
    by (simp add: scripted_def bulkUpdateBody_def body_of_def)
  from mp [OF conjunct1 [OF conjunct2 [OF conjunct2 [OF conjunct2 [OF conjunct2 [OF conjunct2
        [OF conjunct2 [OF conjunct2 [OF conjunct2 [OF orchestrator_runs
        [where admin = scripted and productId = "''p1''" and ids = "[''v1'']"
           and more_ids = "[[''v2'']]"
           and s = "[bulkUpdateBody [] [userError_of ''PRODUCT_SUSPENDED''], bulkUpdateBody [] []]"
           and b = "bulkUpdateBody [] [userError_of ''PRODUCT_SUSPENDED'']"
           and t = "[bulkUpdateBody [] []]" and r = ?rfresh
           and bres = "bulkUpdateResponse [] [userError_of ''PRODUCT_SUSPENDED'']"]]]]]]]]]] ih]
  have i: "denyChunks scripted ''p1'' [[''v1''], [''v2'']]
        ?rfresh
        [bulkUpdateBody [] [userError_of ''PRODUCT_SUSPENDED''], bulkUpdateBody [] []]
      = denyChunks scripted ''p1'' [[''v2'']]
          ?rdeny
          [bulkUpdateBody [] []]"
    by (simp add: bulkUpdateResponse_def orEmpty_def absorbPolicyUpdateError_def pushSample_def
          userError_of_def orNull_def)
  \<comment> \<open>the products after one whose policy update failed\<close>
  have jh: "denyChunks scripted ''p1'' (chunkArray [''v1''] 250) ?rfresh
        [bulkUpdateBody [] [userError_of ''PRODUCT_SUSPENDED''], bulkUpdateBody [] []]
      = (Inr ?rdeny, [bulkUpdateBody [] []])"
    by (simp add: chunkArray_def chunkArray_loop.simps slice_def graphqlJson_def scripted_def
          bulkUpdateBody_def body_of_def data_productVariantsBulkUpdate_def
          bulkUpdateResponse_def orEmpty_def absorbPolicyUpdateError_def pushSample_def
          userError_of_def orNull_def)
  from mp [OF conjunct2 [OF conjunct2 [OF conjunct2 [OF conjunct2 [OF conjunct2
        [OF conjunct2 [OF conjunct2 [OF conjunct2 [OF conjunct2 [OF orchestrator_runs
        [where admin = scripted and productId = "''p1''" and variantsForProduct = "[''v1'']"
           and entries = "[(''p2'', [''v2''])]"
           and s = "[bulkUpdateBody [] [userError_of ''PRODUCT_SUSPENDED''], bulkUpdateBody [] []]"
           and t = "[bulkUpdateBody [] []]" and r = ?rfresh and r' = ?rdeny]]]]]]]]]] jh]
  have j: "denyProducts scripted [(''p1'', [''v1'']), (''p2'', [''v2''])]
        ?rfresh
        [bulkUpdateBody [] [userError_of ''PRODUCT_SUSPENDED''], bulkUpdateBody [] []]
      = denyProducts scripted [(''p2'', [''v2''])]
          ?rdeny
          [bulkUpdateBody [] []]"
    .
  from a a' b b' c c' d e f g h i j show ?thesis by blast
qed


end
